theory Spec2Isabelle
  imports Main "HOL-Library.Word"
begin

unbundle bit_operations_syntax

section \<open>Bit fields of 64-bit words\<close>

text \<open>
  The C sources describe every hardware structure (EPT entries, MSRs, addresses) as a
  union of a 64-bit word and a struct of bit fields.  A field of width \<open>len\<close> at bit
  offset \<open>off\<close> is read with \<open>getBits\<close> and written with \<open>setBits\<close>; writing truncates
  the assigned value to the width of the field, as a C bit-field assignment does, and
  leaves every other bit of the word as it was.
\<close>

definition getBits :: "nat \<Rightarrow> nat \<Rightarrow> 64 word \<Rightarrow> 64 word" where
  "getBits off len x = take_bit len (drop_bit off x)"

definition setBits :: "nat \<Rightarrow> nat \<Rightarrow> 64 word \<Rightarrow> 64 word \<Rightarrow> 64 word" where
  "setBits off len v x = (x AND NOT (push_bit off (mask len))) OR push_bit off (take_bit len v)"

definition ofBOOLEAN :: "bool \<Rightarrow> 64 word" where
  "ofBOOLEAN b = (if b then 1 else 0)"

section \<open>ia32.h: MTRR constants and MSR layouts\<close>

definition IA32_MTRR_PHYSBASE0 :: "32 word" where "IA32_MTRR_PHYSBASE0 = 0x200"
definition IA32_MTRR_PHYSMASK0 :: "32 word" where "IA32_MTRR_PHYSMASK0 = 0x201"
definition IA32_MTRR_PHYSBASE0_INC :: "32 word" where "IA32_MTRR_PHYSBASE0_INC = 2"
definition IA32_MTRR_PHYSMASK0_INC :: "32 word" where "IA32_MTRR_PHYSMASK0_INC = 2"
definition IA32_MTRR_MAX_VMTRR_COUNT :: nat where "IA32_MTRR_MAX_VMTRR_COUNT = 256"

definition IA32_MTRR_MEMORY_TYPE_UC :: "64 word" where "IA32_MTRR_MEMORY_TYPE_UC = 0x0"
definition IA32_MTRR_MEMORY_TYPE_WC :: "64 word" where "IA32_MTRR_MEMORY_TYPE_WC = 0x1"
definition IA32_MTRR_MEMORY_TYPE_WT :: "64 word" where "IA32_MTRR_MEMORY_TYPE_WT = 0x4"
definition IA32_MTRR_MEMORY_TYPE_WP :: "64 word" where "IA32_MTRR_MEMORY_TYPE_WP = 0x5"
definition IA32_MTRR_MEMORY_TYPE_WB :: "64 word" where "IA32_MTRR_MEMORY_TYPE_WB = 0x6"
definition IA32_MTRR_MEMORY_TYPE_ERR :: "64 word" where "IA32_MTRR_MEMORY_TYPE_ERR = 0xFFFF"

text \<open>\<open>IA32_MtrrPhysbase\<close>: memoryType : 8, pad : 4, physBase : 52.\<close>

definition MtrrPhysbase_memoryType :: "64 word \<Rightarrow> 64 word" where
  "MtrrPhysbase_memoryType bits = getBits 0 8 bits"

definition MtrrPhysbase_physBase :: "64 word \<Rightarrow> 64 word" where
  "MtrrPhysbase_physBase bits = getBits 12 52 bits"

text \<open>\<open>IA32_MtrrPhysmask\<close>: pad : 11, valid : 1, physMask : 52.\<close>

definition MtrrPhysmask_valid :: "64 word \<Rightarrow> bool" where
  "MtrrPhysmask_valid bits = (getBits 11 1 bits \<noteq> 0)"

definition MtrrPhysmask_physMask :: "64 word \<Rightarrow> 64 word" where
  "MtrrPhysmask_physMask bits = getBits 12 52 bits"

section \<open>ept.h: addresses\<close>

text \<open>
  \<open>EPT_Address\<close> is a union over one 64-bit address: offset : 12, ptEntry : 9,
  pdEntry : 9, pdptEntry : 9, pml4Entry : 9, pad : 16; or pad : 12,
  pageFrameNumber4KB : 52; or pad : 21, pageFrameNumber2MB : 43.
\<close>

definition Address_offset :: "64 word \<Rightarrow> 64 word" where
  "Address_offset a = getBits 0 12 a"

definition Address_ptEntry :: "64 word \<Rightarrow> 9 word" where
  "Address_ptEntry a = ucast (getBits 12 9 a)"

definition Address_pdEntry :: "64 word \<Rightarrow> 9 word" where
  "Address_pdEntry a = ucast (getBits 21 9 a)"

definition Address_pdptEntry :: "64 word \<Rightarrow> 9 word" where
  "Address_pdptEntry a = ucast (getBits 30 9 a)"

definition Address_pml4Entry :: "64 word \<Rightarrow> 9 word" where
  "Address_pml4Entry a = ucast (getBits 39 9 a)"

definition Address_pageFrameNumber4KB :: "64 word \<Rightarrow> 64 word" where
  "Address_pageFrameNumber4KB a = getBits 12 52 a"

text \<open>
  The compound literal \<open>(EPT_Address){ .pageFrameNumber4KB = pfn }.address\<close>: every
  other field is zero.
\<close>

definition addressOfPfn4KB :: "64 word \<Rightarrow> 64 word" where
  "addressOfPfn4KB pfn = setBits 12 52 pfn 0"

section \<open>ept.c: the variable MTRR cache\<close>

record EPT_VariableMtrr =
  baseAddress :: "64 word"
  length_mtrr :: "64 word"
  memoryType :: "64 word"
  valid_mtrr :: bool

definition zeroVariableMtrr :: EPT_VariableMtrr where
  "zeroVariableMtrr = \<lparr>baseAddress = 0, length_mtrr = 0, memoryType = 0, valid_mtrr = False\<rparr>"

text \<open>
  The intrinsic \<open>_BitScanForward64\<close>: no result for a zero mask, otherwise the index
  of the least significant set bit.
\<close>

definition BitScanForward64 :: "64 word \<Rightarrow> nat option" where
  "BitScanForward64 m = find (\<lambda>n. bit m n) [0..<64]"

text \<open>
  One iteration of the loop of \<open>fillVariableMtrrsCache\<close>.  The MSRs are read through
  \<open>readmsr\<close>; the cache is the caller's array of \<open>IA32_MTRR_MAX_VMTRR_COUNT\<close> entries,
  indexed by the loop counter.
\<close>

definition fillVariableMtrr ::
  "(32 word \<Rightarrow> 64 word) \<Rightarrow> nat \<Rightarrow> (nat \<Rightarrow> EPT_VariableMtrr) \<Rightarrow> (nat \<Rightarrow> EPT_VariableMtrr)" where
  "fillVariableMtrr readmsr mtrrIndex variableMtrrs =
     (let physbase = readmsr (IA32_MTRR_PHYSBASE0 + IA32_MTRR_PHYSBASE0_INC * of_nat mtrrIndex);
          physmask = readmsr (IA32_MTRR_PHYSMASK0 + IA32_MTRR_PHYSMASK0_INC * of_nat mtrrIndex)
      in if \<not> MtrrPhysmask_valid physmask then variableMtrrs
         else case BitScanForward64 (addressOfPfn4KB (MtrrPhysmask_physMask physmask)) of
                None \<Rightarrow> variableMtrrs
              | Some firstOneIndex \<Rightarrow>
                  variableMtrrs(mtrrIndex :=
                    \<lparr>baseAddress = addressOfPfn4KB (MtrrPhysbase_physBase physbase),
                     length_mtrr = push_bit firstOneIndex 1,
                     memoryType = MtrrPhysbase_memoryType physbase,
                     valid_mtrr = True\<rparr>))"

definition fillVariableMtrrsCache ::
  "(32 word \<Rightarrow> 64 word) \<Rightarrow> 64 word \<Rightarrow> (nat \<Rightarrow> EPT_VariableMtrr) \<Rightarrow> (nat \<Rightarrow> EPT_VariableMtrr)" where
  "fillVariableMtrrsCache readmsr noOfVariableRangeRegisters variableMtrrs =
     fold (fillVariableMtrr readmsr) [0..<unat noOfVariableRangeRegisters] variableMtrrs"

text \<open>
  The length the specification's sentence gives: one shifted left by the index of the
  least significant set bit of the frame-number field of the mask MSR.
\<close>

definition specMtrrLength :: "64 word \<Rightarrow> 64 word" where
  "specMtrrLength physmask =
     (case BitScanForward64 (MtrrPhysmask_physMask physmask) of
        None \<Rightarrow> 0 | Some k \<Rightarrow> push_bit k 1)"

section \<open>ept.c: memory-type resolution\<close>

record EPT_FoundMemoryTypes =
  uncacheable :: bool
  writeCombining :: bool
  writeThrough :: bool
  writeProtected :: bool
  writeback :: bool

definition noFoundTypes :: EPT_FoundMemoryTypes where
  "noFoundTypes = \<lparr>uncacheable = False, writeCombining = False, writeThrough = False,
                   writeProtected = False, writeback = False\<rparr>"

definition mtrrContains :: "EPT_VariableMtrr \<Rightarrow> 64 word \<Rightarrow> bool" where
  "mtrrContains currentMtrr physicalAddress =
     (baseAddress currentMtrr \<le> physicalAddress \<and>
      physicalAddress < baseAddress currentMtrr + length_mtrr currentMtrr)"

text \<open>
  The loop of \<open>searchVariableMtrrs\<close> over the cached registers, in index order.
  \<open>None\<close> is the early \<open>return IA32_MTRR_MEMORY_TYPE_ERR\<close> of the \<open>default\<close> branch.
\<close>

fun searchLoop ::
  "EPT_VariableMtrr list \<Rightarrow> 64 word \<Rightarrow> EPT_FoundMemoryTypes \<Rightarrow> EPT_FoundMemoryTypes option" where
  "searchLoop [] physicalAddress foundTypes = Some foundTypes"
| "searchLoop (currentMtrr # rest) physicalAddress foundTypes =
     (if \<not> valid_mtrr currentMtrr then searchLoop rest physicalAddress foundTypes
      else if \<not> mtrrContains currentMtrr physicalAddress
        then searchLoop rest physicalAddress foundTypes
      else if memoryType currentMtrr = IA32_MTRR_MEMORY_TYPE_UC
        then searchLoop rest physicalAddress (foundTypes\<lparr>uncacheable := True\<rparr>)
      else if memoryType currentMtrr = IA32_MTRR_MEMORY_TYPE_WC
        then searchLoop rest physicalAddress (foundTypes\<lparr>writeCombining := True\<rparr>)
      else if memoryType currentMtrr = IA32_MTRR_MEMORY_TYPE_WT
        then searchLoop rest physicalAddress (foundTypes\<lparr>writeThrough := True\<rparr>)
      else if memoryType currentMtrr = IA32_MTRR_MEMORY_TYPE_WP
        then searchLoop rest physicalAddress (foundTypes\<lparr>writeProtected := True\<rparr>)
      else if memoryType currentMtrr = IA32_MTRR_MEMORY_TYPE_WB
        then searchLoop rest physicalAddress (foundTypes\<lparr>writeback := True\<rparr>)
      else None)"

definition bitOf :: "bool \<Rightarrow> nat" where
  "bitOf b = (if b then 1 else 0)"

definition resolveFoundTypes :: "EPT_FoundMemoryTypes \<Rightarrow> 64 word \<Rightarrow> 64 word" where
  "resolveFoundTypes foundTypes defaultMemoryType =
     (let total = bitOf (uncacheable foundTypes) + bitOf (writeCombining foundTypes) +
                  bitOf (writeThrough foundTypes) + bitOf (writeProtected foundTypes) +
                  bitOf (writeback foundTypes)
      in if total = 1 \<and> uncacheable foundTypes then IA32_MTRR_MEMORY_TYPE_UC
         else if total = 1 \<and> writeCombining foundTypes then IA32_MTRR_MEMORY_TYPE_WC
         else if total = 1 \<and> writeThrough foundTypes then IA32_MTRR_MEMORY_TYPE_WT
         else if total = 1 \<and> writeProtected foundTypes then IA32_MTRR_MEMORY_TYPE_WP
         else if total = 1 \<and> writeback foundTypes then IA32_MTRR_MEMORY_TYPE_WB
         else if uncacheable foundTypes then IA32_MTRR_MEMORY_TYPE_UC
         else if writeThrough foundTypes \<and> writeback foundTypes \<and>
                 bitOf (uncacheable foundTypes) + bitOf (writeCombining foundTypes) +
                 bitOf (writeProtected foundTypes) = 0
           then IA32_MTRR_MEMORY_TYPE_WT
         else if total \<noteq> 0 then IA32_MTRR_MEMORY_TYPE_ERR
         else defaultMemoryType)"

definition searchVariableMtrrs ::
  "64 word \<Rightarrow> (nat \<Rightarrow> EPT_VariableMtrr) \<Rightarrow> 64 word \<Rightarrow> 64 word \<Rightarrow> 64 word" where
  "searchVariableMtrrs noOfVariableMtrrs variableMtrrs defaultMemoryType physicalAddress =
     (case searchLoop (map variableMtrrs [0..<unat noOfVariableMtrrs]) physicalAddress noFoundTypes of
        None \<Rightarrow> IA32_MTRR_MEMORY_TYPE_ERR
      | Some foundTypes \<Rightarrow> resolveFoundTypes foundTypes defaultMemoryType)"

text \<open>
  The memory types that hit an address: the types of the valid cached registers, among
  the first \<open>noOfVariableMtrrs\<close>, whose range contains it.
\<close>

definition mtrrHits :: "64 word \<Rightarrow> (nat \<Rightarrow> EPT_VariableMtrr) \<Rightarrow> 64 word \<Rightarrow> 64 word set" where
  "mtrrHits noOfVariableMtrrs variableMtrrs physicalAddress =
     set (map memoryType
       (filter (\<lambda>m. valid_mtrr m \<and> mtrrContains m physicalAddress)
          (map variableMtrrs [0..<unat noOfVariableMtrrs])))"

definition architecturalTypes :: "64 word set" where
  "architecturalTypes =
     {IA32_MTRR_MEMORY_TYPE_UC, IA32_MTRR_MEMORY_TYPE_WC, IA32_MTRR_MEMORY_TYPE_WT,
      IA32_MTRR_MEMORY_TYPE_WP, IA32_MTRR_MEMORY_TYPE_WB}"

section \<open>ept.h: EPT entries\<close>

definition EPT_PT_ENTRIES :: "64 word" where "EPT_PT_ENTRIES = 512"

text \<open>
  \<open>EPT_PagingStructure\<close> (PML4, PDPT and non-leaf PD entries): readAccess : 1,
  writeAccess : 1, fetchAccess : 1, pad : 5, accessed : 1, pad : 1,
  fetchAccessUserMode : 1, pad : 1, pageFrameNumber : 40, pad : 12.
\<close>

definition PagingStructure_pageFrameNumber :: "64 word \<Rightarrow> 64 word" where
  "PagingStructure_pageFrameNumber e = getBits 12 40 e"

definition PagingStructure_readAccess :: "64 word \<Rightarrow> bool" where
  "PagingStructure_readAccess e = (getBits 0 1 e \<noteq> 0)"

definition PagingStructure_writeAccess :: "64 word \<Rightarrow> bool" where
  "PagingStructure_writeAccess e = (getBits 1 1 e \<noteq> 0)"

definition PagingStructure_fetchAccess :: "64 word \<Rightarrow> bool" where
  "PagingStructure_fetchAccess e = (getBits 2 1 e \<noteq> 0)"

text \<open>
  The compound literal \<open>(EPT_PagingStructure){ .writeAccess = TRUE, .readAccess = TRUE,
  .fetchAccess = TRUE, .pageFrameNumber = pfn }\<close>.
\<close>

definition newPagingStructure :: "64 word \<Rightarrow> 64 word" where
  "newPagingStructure pfn = setBits 12 40 pfn (setBits 2 1 1 (setBits 1 1 1 (setBits 0 1 1 0)))"

text \<open>
  \<open>EPT_PdE2MB\<close> (2 MiB leaf): readAccess : 1, writeAccess : 1, fetchAccess : 1,
  memoryType : 3, ignorePATMemoryType : 1, isLargePage : 1, accessed : 1, dirty : 1,
  fetchAccessUserMode : 1, pad : 10, pageFrameNumber : 31, ...
\<close>

definition PdE2MB_memoryType :: "64 word \<Rightarrow> 64 word" where
  "PdE2MB_memoryType e = getBits 3 3 e"

definition PdE2MB_isLargePage :: "64 word \<Rightarrow> bool" where
  "PdE2MB_isLargePage e = (getBits 7 1 e \<noteq> 0)"

definition PdE2MB_pageFrameNumber :: "64 word \<Rightarrow> 64 word" where
  "PdE2MB_pageFrameNumber e = getBits 21 31 e"

text \<open>
  \<open>EPT_PtE\<close> (4 KiB leaf): readAccess : 1, writeAccess : 1, fetchAccess : 1,
  memoryType : 3, ignorePATMemoryType : 1, pad : 1, accessed : 1, dirty : 1,
  fetchAccessUserMode : 1, pad : 1, pageFrameNumber : 40, ...
\<close>

definition PtE_readAccess :: "64 word \<Rightarrow> bool" where
  "PtE_readAccess e = (getBits 0 1 e \<noteq> 0)"

definition PtE_writeAccess :: "64 word \<Rightarrow> bool" where
  "PtE_writeAccess e = (getBits 1 1 e \<noteq> 0)"

definition PtE_fetchAccess :: "64 word \<Rightarrow> bool" where
  "PtE_fetchAccess e = (getBits 2 1 e \<noteq> 0)"

definition PtE_memoryType :: "64 word \<Rightarrow> 64 word" where
  "PtE_memoryType e = getBits 3 3 e"

definition PtE_pageFrameNumber :: "64 word \<Rightarrow> 64 word" where
  "PtE_pageFrameNumber e = getBits 12 40 e"

text \<open>
  The compound literal \<open>(EPT_PtE){ .readAccess = TRUE, .writeAccess = TRUE,
  .fetchAccess = TRUE, .memoryType = memoryType, .pageFrameNumber = pfn }\<close>.
\<close>

definition newPtE :: "64 word \<Rightarrow> 64 word \<Rightarrow> 64 word" where
  "newPtE memType pfn =
     setBits 12 40 pfn (setBits 3 3 memType (setBits 2 1 1 (setBits 1 1 1 (setBits 0 1 1 0))))"

text \<open>\<open>EPT_EptP\<close>: memoryType : 3, oneLessPageWalkLen : 3, ..., pageFrameNumber : 40 at bit 12.\<close>

definition EptP_pageFrameNumber :: "64 word \<Rightarrow> 64 word" where
  "EptP_pageFrameNumber e = getBits 12 40 e"

section \<open>vmexit.h: exit qualification and guest registers\<close>

text \<open>\<open>VMEXIT_EptViolation\<close>: dataRead : 1, dataWrite : 1, instructionFetch : 1, ...\<close>

definition EptViolation_dataRead :: "64 word \<Rightarrow> bool" where
  "EptViolation_dataRead q = (getBits 0 1 q \<noteq> 0)"

definition EptViolation_dataWrite :: "64 word \<Rightarrow> bool" where
  "EptViolation_dataWrite q = (getBits 1 1 q \<noteq> 0)"

definition EptViolation_instructionFetch :: "64 word \<Rightarrow> bool" where
  "EptViolation_instructionFetch q = (getBits 2 1 q \<noteq> 0)"

record VMEXIT_Registers =
  R15 :: "64 word"
  R14 :: "64 word"
  R13 :: "64 word"
  R12 :: "64 word"
  R11 :: "64 word"
  R10 :: "64 word"
  R9 :: "64 word"
  R8 :: "64 word"
  RDI :: "64 word"
  RSI :: "64 word"
  RSP :: "64 word"
  RBP :: "64 word"
  RDX :: "64 word"
  RCX :: "64 word"
  RBX :: "64 word"
  RAX :: "64 word"

section \<open>Status codes and bug checks\<close>

text \<open>
  \<open>NTSTATUS\<close> is a signed 32-bit value; \<open>NT_SUCCESS\<close> holds of the non-negative ones.
  Stored into the 64-bit \<open>RAX\<close> it is sign-extended.  \<open>KeBugCheck\<close> never returns: a
  bug check is the left summand of every result type, carrying the code of bsod.h.
\<close>

type_synonym NTSTATUS = "32 word"

definition STATUS_SUCCESS :: NTSTATUS where "STATUS_SUCCESS = 0"
definition STATUS_UNSUCCESSFUL :: NTSTATUS where "STATUS_UNSUCCESSFUL = 0xC0000001"

definition NT_SUCCESS :: "NTSTATUS \<Rightarrow> bool" where
  "NT_SUCCESS ntStatus = (0 \<le> sint ntStatus)"

definition statusToRAX :: "NTSTATUS \<Rightarrow> 64 word" where
  "statusToRAX ntStatus = scast ntStatus"

datatype bsod =
    BSOD_MEMORY_VA_CONVERSION
  | BSOD_VMEXIT_UNKNOWN
  | BSOD_VMEXIT_EPT_NO_MAPPING
  | BSOD_VMEXIT_EPT_UNKNOWN

section \<open>context.h: the per-core state\<close>

definition CONTEXT_EPT_NO_SPLITS :: "64 word" where "CONTEXT_EPT_NO_SPLITS = 32"
definition CONTEXT_EPT_MAX_MAPPINGS :: nat where "CONTEXT_EPT_MAX_MAPPINGS = 32"

record Context_EptChangedMapping =
  guestAddress :: "64 word"
  hostRwAddress :: "64 word"
  hostFetchAddress :: "64 word"
  valid :: bool

definition zeroMapping :: Context_EptChangedMapping where
  "zeroMapping = \<lparr>guestAddress = 0, hostRwAddress = 0, hostFetchAddress = 0, valid = False\<rparr>"

text \<open>
  The state one logical core works on.  \<open>noOfUsedSplits\<close>, \<open>changedMappings\<close> and
  \<open>eptp\<close> are the fields of \<open>Context_LogicalCore\<close> and its \<open>eptMappingData\<close>.  The
  paging structures themselves live in host memory: \<open>physicalMemory\<close> gives, for the
  physical address of a page, its 512 64-bit entries.  \<open>hasVirtualAddress\<close> tells
  for which pages \<open>MmGetVirtualForPhysical\<close> finds a mapping, and
  \<open>splitBufferPhysical k\<close> is the physical address of slot \<open>k\<close> of \<open>splitBuffer\<close>
  (what \<open>Memory_getPhysicalAddress\<close> returns for
  \<open>&splitBuffer[CONTEXT_EPT_SPLIT_SIZE * k]\<close>); the slot's memory is the page of
  \<open>physicalMemory\<close> at that address.  \<open>inveptAllCalls\<close> counts the executions of
  \<open>VMX_inveptAll\<close>.
\<close>

record coreState =
  physicalMemory :: "64 word \<Rightarrow> 9 word \<Rightarrow> 64 word"
  hasVirtualAddress :: "64 word \<Rightarrow> bool"
  splitBufferPhysical :: "nat \<Rightarrow> 64 word"
  noOfUsedSplits :: "64 word"
  changedMappings :: "nat \<Rightarrow> Context_EptChangedMapping"
  eptp :: "64 word"
  inveptAllCalls :: nat

section \<open>memory.c\<close>

definition Memory_getVirtualAddress :: "coreState \<Rightarrow> 64 word \<Rightarrow> bsod + 64 word" where
  "Memory_getVirtualAddress s physicalAddress =
     (if hasVirtualAddress s physicalAddress then Inr physicalAddress
      else Inl BSOD_MEMORY_VA_CONVERSION)"

definition VMX_inveptAll :: "coreState \<Rightarrow> coreState" where
  "VMX_inveptAll s = s\<lparr>inveptAllCalls := Suc (inveptAllCalls s)\<rparr>"

section \<open>ept.c: splitting and changing mappings\<close>

text \<open>
  \<open>splitPage\<close>.  The PD entry \<open>pde\<close> is entry \<open>pdEntryIndex\<close> of the page directory
  at \<open>pd\<close>.  The fields of the large page are read before the new table is written,
  and the PD entry is replaced last.
\<close>

definition splitPage :: "coreState \<Rightarrow> 64 word \<Rightarrow> 9 word \<Rightarrow> NTSTATUS \<times> coreState" where
  "splitPage s pd pdEntryIndex =
     (if CONTEXT_EPT_NO_SPLITS \<le> noOfUsedSplits s then (STATUS_UNSUCCESSFUL, s)
      else
        let pte = splitBufferPhysical s (unat (noOfUsedSplits s));
            memType = PdE2MB_memoryType (physicalMemory s pd pdEntryIndex);
            pageFrameNumber = PdE2MB_pageFrameNumber (physicalMemory s pd pdEntryIndex);
            withTable = (physicalMemory s)
              (pte := (\<lambda>ptEntryIndex. newPtE memType (EPT_PT_ENTRIES * pageFrameNumber + ucast ptEntryIndex)));
            withEntry = withTable
              (pd := (withTable pd)
                 (pdEntryIndex := newPagingStructure (Address_pageFrameNumber4KB pte)))
        in (STATUS_SUCCESS,
            s\<lparr>physicalMemory := withEntry, noOfUsedSplits := noOfUsedSplits s + 1\<rparr>))"

text \<open>
  The tail of \<open>EPT_changeMapping\<close>: locate the page table through the PD entry and
  assign the four fields of the leaf, one after the other.
\<close>

definition writePtE :: "64 word \<Rightarrow> bool \<Rightarrow> bool \<Rightarrow> 64 word \<Rightarrow> 64 word" where
  "writePtE targetAddress rw fetch e =
     setBits 2 1 (ofBOOLEAN fetch)
       (setBits 1 1 (ofBOOLEAN rw)
          (setBits 0 1 (ofBOOLEAN rw)
             (setBits 12 40 (Address_pageFrameNumber4KB targetAddress) e)))"

definition changeLeaf ::
  "coreState \<Rightarrow> 64 word \<Rightarrow> 64 word \<Rightarrow> 64 word \<Rightarrow> bool \<Rightarrow> bool \<Rightarrow> bsod + (NTSTATUS \<times> coreState)" where
  "changeLeaf s pd sourceAddress targetAddress rw fetch =
     (case Memory_getVirtualAddress s
             (addressOfPfn4KB (PagingStructure_pageFrameNumber
                (physicalMemory s pd (Address_pdEntry sourceAddress)))) of
        Inl b \<Rightarrow> Inl b
      | Inr pt \<Rightarrow>
          Inr (STATUS_SUCCESS,
               s\<lparr>physicalMemory := (physicalMemory s)
                    (pt := (physicalMemory s pt)
                       (Address_ptEntry sourceAddress :=
                          writePtE targetAddress rw fetch
                            (physicalMemory s pt (Address_ptEntry sourceAddress))))\<rparr>))"

definition EPT_changeMapping ::
  "coreState \<Rightarrow> 64 word \<Rightarrow> 64 word \<Rightarrow> bool \<Rightarrow> bool \<Rightarrow> bsod + (NTSTATUS \<times> coreState)" where
  "EPT_changeMapping s sourceAddress targetAddress rw fetch =
     (case Memory_getVirtualAddress s (addressOfPfn4KB (EptP_pageFrameNumber (eptp s))) of
        Inl b \<Rightarrow> Inl b
      | Inr pml4 \<Rightarrow>
     (case Memory_getVirtualAddress s
             (addressOfPfn4KB (PagingStructure_pageFrameNumber
                (physicalMemory s pml4 (Address_pml4Entry sourceAddress)))) of
        Inl b \<Rightarrow> Inl b
      | Inr pdpt \<Rightarrow>
     (case Memory_getVirtualAddress s
             (addressOfPfn4KB (PagingStructure_pageFrameNumber
                (physicalMemory s pdpt (Address_pdptEntry sourceAddress)))) of
        Inl b \<Rightarrow> Inl b
      | Inr pd \<Rightarrow>
          if PdE2MB_isLargePage (physicalMemory s pd (Address_pdEntry sourceAddress))
          then (case splitPage s pd (Address_pdEntry sourceAddress) of
                  (ntStatus, s') \<Rightarrow>
                    if \<not> NT_SUCCESS ntStatus then Inr (ntStatus, s')
                    else changeLeaf s' pd sourceAddress targetAddress rw fetch)
          else changeLeaf s pd sourceAddress targetAddress rw fetch)))"

section \<open>ia32.h: CPUID leaves and the MTRR capability and default-type MSRs\<close>

definition IA32_MTRRCAP :: "32 word" where "IA32_MTRRCAP = 0xFE"
definition IA32_MTRR_DEF_TYPE :: "32 word" where "IA32_MTRR_DEF_TYPE = 0x2FF"
definition IA32_MTRR_FIX64K_00000 :: "32 word" where "IA32_MTRR_FIX64K_00000 = 0x250"
definition IA32_MTRR_FIX16K_80000 :: "32 word" where "IA32_MTRR_FIX16K_80000 = 0x258"
definition IA32_MTRR_FIX16K_A0000 :: "32 word" where "IA32_MTRR_FIX16K_A0000 = 0x259"
definition IA32_MTRR_FIX4K_C0000 :: "32 word" where "IA32_MTRR_FIX4K_C0000 = 0x268"
definition IA32_MTRR_FIX4K_C8000 :: "32 word" where "IA32_MTRR_FIX4K_C8000 = 0x269"
definition IA32_MTRR_FIX4K_D0000 :: "32 word" where "IA32_MTRR_FIX4K_D0000 = 0x26A"
definition IA32_MTRR_FIX4K_D8000 :: "32 word" where "IA32_MTRR_FIX4K_D8000 = 0x26B"
definition IA32_MTRR_FIX4K_E0000 :: "32 word" where "IA32_MTRR_FIX4K_E0000 = 0x26C"
definition IA32_MTRR_FIX4K_E8000 :: "32 word" where "IA32_MTRR_FIX4K_E8000 = 0x26D"
definition IA32_MTRR_FIX4K_F0000 :: "32 word" where "IA32_MTRR_FIX4K_F0000 = 0x26E"
definition IA32_MTRR_FIX4K_F8000 :: "32 word" where "IA32_MTRR_FIX4K_F8000 = 0x26F"
definition IA32_MTRR_DISABLED_DEFAULT_TYPE :: "64 word" where
  "IA32_MTRR_DISABLED_DEFAULT_TYPE = IA32_MTRR_MEMORY_TYPE_UC"

definition IA32_CPUID_BASIC_INFORMATION_1 :: "32 word" where "IA32_CPUID_BASIC_INFORMATION_1 = 0x1"
definition IA32_CPUID_ADDRESS_BITS :: "32 word" where "IA32_CPUID_ADDRESS_BITS = 0x80000008"

text \<open>
  \<open>__cpuid\<close> fills \<open>registers[0..3]\<close> with EAX, EBX, ECX and EDX.  In
  \<open>IA32_CpuidBasicInformation1\<close> the field \<open>mtrr\<close> is bit 12 of the fourth register; in
  \<open>IA32_CpuidAddressBits\<close> the field \<open>physicalAddressBits\<close> is the low byte of the first,
  declared \<open>INT32 : 8\<close>, a signed byte.
\<close>

definition CpuidBasicInformation1_mtrr :: "(nat \<Rightarrow> 32 word) \<Rightarrow> bool" where
  "CpuidBasicInformation1_mtrr registers = bit (registers 3) 12"

definition CpuidAddressBits_physicalAddressBits :: "(nat \<Rightarrow> 32 word) \<Rightarrow> 8 word" where
  "CpuidAddressBits_physicalAddressBits registers = ucast (registers 0)"

text \<open>\<open>IA32_Mtrrcap\<close>: variableRangeRegistersCount : 8, fixedRangeRegistersSupported : 1, ...\<close>

definition Mtrrcap_variableRangeRegistersCount :: "64 word \<Rightarrow> 64 word" where
  "Mtrrcap_variableRangeRegistersCount bits = getBits 0 8 bits"

definition Mtrrcap_fixedRangeRegistersSupported :: "64 word \<Rightarrow> bool" where
  "Mtrrcap_fixedRangeRegistersSupported bits = (getBits 8 1 bits \<noteq> 0)"

text \<open>
  \<open>IA32_MtrrDefType\<close>: defaultMemoryType : 3, pad : 7, fixedRangeMtrrEnable : 1,
  mtrrEnable : 1, pad : 52.
\<close>

definition MtrrDefType_defaultMemoryType :: "64 word \<Rightarrow> 64 word" where
  "MtrrDefType_defaultMemoryType bits = getBits 0 3 bits"

definition MtrrDefType_fixedRangeMtrrEnable :: "64 word \<Rightarrow> bool" where
  "MtrrDefType_fixedRangeMtrrEnable bits = (getBits 10 1 bits \<noteq> 0)"

definition MtrrDefType_mtrrEnable :: "64 word \<Rightarrow> bool" where
  "MtrrDefType_mtrrEnable bits = (getBits 11 1 bits \<noteq> 0)"

section \<open>ept.c: building the tables\<close>

definition EPT_PDPT_ENTRIES :: nat where "EPT_PDPT_ENTRIES = 512"
definition EPT_PD_ENTRIES :: nat where "EPT_PD_ENTRIES = 512"
definition EPT_WINDOWS_MAX_PML4_COUNT :: "32 word" where "EPT_WINDOWS_MAX_PML4_COUNT = 4"
definition EPT_PAGING_STRUCTURE_MEMORY_TYPE_WB :: "64 word" where
  "EPT_PAGING_STRUCTURE_MEMORY_TYPE_WB = 6"
definition EPT_PAGE_WALK_LEN :: "64 word" where "EPT_PAGE_WALK_LEN = 4"

text \<open>
  More of \<open>EPT_Address\<close> and of the entries: the 2 MiB frame number of an address (its
  upper 43 bits), the compound literals \<open>(EPT_Address){ .pageFrameNumber2MB = pfn }\<close> and
  \<open>(EPT_Address){ .pml4Entry = i, .pdptEntry = j, .pdEntry = k }\<close>, the access bits of a
  2 MiB leaf, the compound literal of a 2 MiB leaf in \<open>setupPml4Entry\<close> (read, write,
  fetch and large-page set) and that of the EPT pointer.
\<close>

definition Address_pageFrameNumber2MB :: "64 word \<Rightarrow> 64 word" where
  "Address_pageFrameNumber2MB a = getBits 21 43 a"

definition addressOfPfn2MB :: "64 word \<Rightarrow> 64 word" where
  "addressOfPfn2MB pfn = setBits 21 43 pfn 0"

definition addressOfIndices :: "64 word \<Rightarrow> 64 word \<Rightarrow> 64 word \<Rightarrow> 64 word" where
  "addressOfIndices pml4EntryIndex pdptEntryIndex pdEntryIndex =
     setBits 21 9 pdEntryIndex (setBits 30 9 pdptEntryIndex (setBits 39 9 pml4EntryIndex 0))"

definition PdE2MB_readAccess :: "64 word \<Rightarrow> bool" where
  "PdE2MB_readAccess e = (getBits 0 1 e \<noteq> 0)"

definition PdE2MB_writeAccess :: "64 word \<Rightarrow> bool" where
  "PdE2MB_writeAccess e = (getBits 1 1 e \<noteq> 0)"

definition PdE2MB_fetchAccess :: "64 word \<Rightarrow> bool" where
  "PdE2MB_fetchAccess e = (getBits 2 1 e \<noteq> 0)"

definition newPdE2MB :: "64 word \<Rightarrow> 64 word \<Rightarrow> 64 word" where
  "newPdE2MB memType pfn =
     setBits 21 31 pfn
       (setBits 3 3 memType (setBits 7 1 1 (setBits 2 1 1 (setBits 1 1 1 (setBits 0 1 1 0)))))"

definition newEptP :: "64 word \<Rightarrow> 64 word" where
  "newEptP pfn =
     setBits 12 40 pfn
       (setBits 3 3 (EPT_PAGE_WALK_LEN - 1) (setBits 0 3 EPT_PAGING_STRUCTURE_MEMORY_TYPE_WB 0))"

text \<open>A store into one entry of a page of 512 entries.\<close>

definition writeEntry :: "coreState \<Rightarrow> 64 word \<Rightarrow> 9 word \<Rightarrow> 64 word \<Rightarrow> coreState" where
  "writeEntry s page index e =
     s\<lparr>physicalMemory := (physicalMemory s)(page := (physicalMemory s page)(index := e))\<rparr>"

text \<open>
  \<open>getPml4Count\<close>.  The signed byte minus 39 is an \<open>int\<close>; \<open>max\<close> clamps it at zero;
  \<open>1U << shiftValue\<close> is a 32-bit shift, and \<open>min\<close> compares it with 4 as unsigned
  values.  (Address widths of x86 processors are at most 52, so the shift count stays
  below 32, where C defines the shift.)
\<close>

definition getPml4Count :: "(32 word \<Rightarrow> nat \<Rightarrow> 32 word) \<Rightarrow> 64 word" where
  "getPml4Count cpuid =
     (let physicalAddressBits =
            CpuidAddressBits_physicalAddressBits (cpuid IA32_CPUID_ADDRESS_BITS);
          shiftValue = nat (max (sint physicalAddressBits - 39) 0)
      in ucast (min (push_bit shiftValue (1 :: 32 word)) EPT_WINDOWS_MAX_PML4_COUNT))"

text \<open>
  \<open>Memory_allocate\<close> (memory.c).  What \<open>ExAllocatePool2\<close> returns is a parameter:
  \<open>None\<close> for \<open>NULL\<close>, otherwise the block, given by the physical address of each of its
  pages in order (the block is contiguous in virtual memory only, and
  \<open>Memory_getPhysicalAddress\<close> of the start of its \<open>n\<close>-th page is \<open>block n\<close>).  The pool
  hands out zeroed memory.  With \<open>aligned\<close> set, a block whose start is not page aligned
  is freed again and \<open>NULL\<close> is returned.  \<open>Memory_free\<close> gives a block back to the
  pool; the state keeps no record of the pool, so it leaves the state as it is.
\<close>

definition zeroPages ::
  "(64 word \<Rightarrow> 9 word \<Rightarrow> 64 word) \<Rightarrow> (nat \<Rightarrow> 64 word) \<Rightarrow> nat \<Rightarrow> 64 word \<Rightarrow> 9 word \<Rightarrow> 64 word" where
  "zeroPages memory block noOfPages =
     (\<lambda>page. if page \<in> block ` {n. n < noOfPages} then (\<lambda>index. 0) else memory page)"

definition Memory_free :: "coreState \<Rightarrow> 64 word \<Rightarrow> coreState" where
  "Memory_free s address = s"

definition Memory_allocate ::
  "coreState \<Rightarrow> (nat \<Rightarrow> 64 word) option \<Rightarrow> nat \<Rightarrow> bool \<Rightarrow> coreState \<times> (nat \<Rightarrow> 64 word) option" where
  "Memory_allocate s pool noOfPages aligned =
     (case pool of
        None \<Rightarrow> (s, None)
      | Some block \<Rightarrow>
          let s' = s\<lparr>physicalMemory := zeroPages (physicalMemory s) block noOfPages\<rparr>
          in if aligned \<and> Address_offset (block 0) \<noteq> 0
             then (Memory_free s' (block 0), None)
             else (s', Some block))"

text \<open>
  \<open>setupPml4Entry\<close>.  The entry \<open>pml4e\<close> is entry \<open>snd pml4e\<close> of the PML4 page
  \<open>fst pml4e\<close>.  The PDPT is one page, the 512 page directories are one block of 512
  pages; \<open>pdptPool\<close> and \<open>pdArrayPool\<close> are what the pool returns for the two.  The
  inner loop fills one page directory with 2 MiB leaves, the outer loop the PDPT.
\<close>

definition setupPdEntries :: "nat \<Rightarrow> nat \<Rightarrow> 64 word \<Rightarrow> coreState \<Rightarrow> coreState" where
  "setupPdEntries pml4EntryIndex pdptEntryIndex pd s =
     fold (\<lambda>pdEntryIndex s'.
             writeEntry s' pd (of_nat pdEntryIndex)
               (newPdE2MB IA32_MTRR_DISABLED_DEFAULT_TYPE
                  (Address_pageFrameNumber2MB
                     (addressOfIndices (of_nat pml4EntryIndex) (of_nat pdptEntryIndex)
                        (of_nat pdEntryIndex)))))
       [0..<EPT_PD_ENTRIES] s"

definition setupPdptEntries :: "nat \<Rightarrow> 64 word \<Rightarrow> (nat \<Rightarrow> 64 word) \<Rightarrow> coreState \<Rightarrow> coreState" where
  "setupPdptEntries pml4EntryIndex pdpt pdArray s =
     fold (\<lambda>pdptEntryIndex s'.
             setupPdEntries pml4EntryIndex pdptEntryIndex (pdArray pdptEntryIndex)
               (writeEntry s' pdpt (of_nat pdptEntryIndex)
                  (newPagingStructure (Address_pageFrameNumber4KB (pdArray pdptEntryIndex)))))
       [0..<EPT_PDPT_ENTRIES] s"

definition setupPml4Entry ::
  "coreState \<Rightarrow> (nat \<Rightarrow> 64 word) option \<Rightarrow> (nat \<Rightarrow> 64 word) option \<Rightarrow> nat \<Rightarrow> 64 word \<times> 9 word \<Rightarrow>
     NTSTATUS \<times> coreState" where
  "setupPml4Entry s pdptPool pdArrayPool pml4EntryIndex pml4e =
     (case Memory_allocate s pdptPool 1 True of
        (s1, None) \<Rightarrow> (STATUS_UNSUCCESSFUL, s1)
      | (s1, Some pdptBlock) \<Rightarrow>
          let pdpt = pdptBlock 0;
              s2 = writeEntry s1 (fst pml4e) (snd pml4e)
                     (newPagingStructure (Address_pageFrameNumber4KB pdpt))
          in case Memory_allocate s2 pdArrayPool EPT_PDPT_ENTRIES True of
               (s3, None) \<Rightarrow> (STATUS_UNSUCCESSFUL, Memory_free s3 pdpt)
             | (s3, Some pdArray) \<Rightarrow>
                 (STATUS_SUCCESS, setupPdptEntries pml4EntryIndex pdpt pdArray s3))"

text \<open>
  \<open>adjustPml4WithVariableMtrrs\<close>.  The inner loop over the entries of one page
  directory stores the result of \<open>searchVariableMtrrs\<close> into the 3-bit field
  \<open>memoryType\<close> of the entry and then compares that field with
  \<open>IA32_MTRR_MEMORY_TYPE_ERR\<close>; \<open>Some STATUS_UNSUCCESSFUL\<close> is the \<open>return\<close> inside the
  loop, \<open>None\<close> the end of the loop.
\<close>

fun adjustPdEntries ::
  "64 word \<Rightarrow> (nat \<Rightarrow> EPT_VariableMtrr) \<Rightarrow> 64 word \<Rightarrow> 64 word \<Rightarrow> nat list \<Rightarrow> coreState \<Rightarrow>
     NTSTATUS option \<times> coreState" where
  "adjustPdEntries noOfVariableRangeRegisters variableMtrrs defaultMemoryType pd [] s = (None, s)"
| "adjustPdEntries noOfVariableRangeRegisters variableMtrrs defaultMemoryType pd
     (pdEntryIndex # rest) s =
     (let address = addressOfPfn2MB
                      (PdE2MB_pageFrameNumber (physicalMemory s pd (of_nat pdEntryIndex)));
          s' = writeEntry s pd (of_nat pdEntryIndex)
                 (setBits 3 3
                    (searchVariableMtrrs noOfVariableRangeRegisters variableMtrrs
                       defaultMemoryType address)
                    (physicalMemory s pd (of_nat pdEntryIndex)))
      in if PdE2MB_memoryType (physicalMemory s' pd (of_nat pdEntryIndex)) =
              IA32_MTRR_MEMORY_TYPE_ERR
         then (Some STATUS_UNSUCCESSFUL, s')
         else adjustPdEntries noOfVariableRangeRegisters variableMtrrs defaultMemoryType pd rest s')"

fun adjustPdptEntries ::
  "64 word \<Rightarrow> (nat \<Rightarrow> EPT_VariableMtrr) \<Rightarrow> 64 word \<Rightarrow> 64 word \<Rightarrow> nat list \<Rightarrow> coreState \<Rightarrow>
     bsod + (NTSTATUS \<times> coreState)" where
  "adjustPdptEntries noOfVariableRangeRegisters variableMtrrs defaultMemoryType pdpt [] s =
     Inr (STATUS_SUCCESS, s)"
| "adjustPdptEntries noOfVariableRangeRegisters variableMtrrs defaultMemoryType pdpt
     (pdptEntryIndex # rest) s =
     (case Memory_getVirtualAddress s
             (addressOfPfn4KB (PagingStructure_pageFrameNumber
                (physicalMemory s pdpt (of_nat pdptEntryIndex)))) of
        Inl b \<Rightarrow> Inl b
      | Inr pd \<Rightarrow>
          (case adjustPdEntries noOfVariableRangeRegisters variableMtrrs defaultMemoryType pd
                  [0..<EPT_PD_ENTRIES] s of
             (Some ntStatus, s') \<Rightarrow> Inr (ntStatus, s')
           | (None, s') \<Rightarrow>
               adjustPdptEntries noOfVariableRangeRegisters variableMtrrs defaultMemoryType pdpt
                 rest s'))"

definition adjustPml4WithVariableMtrrs ::
  "coreState \<Rightarrow> 64 word \<Rightarrow> (nat \<Rightarrow> EPT_VariableMtrr) \<Rightarrow> 64 word \<Rightarrow> 64 word \<times> 9 word \<Rightarrow>
     bsod + (NTSTATUS \<times> coreState)" where
  "adjustPml4WithVariableMtrrs s noOfVariableRangeRegisters variableMtrrs defaultMemoryType pml4e =
     (case Memory_getVirtualAddress s
             (addressOfPfn4KB (PagingStructure_pageFrameNumber
                (physicalMemory s (fst pml4e) (snd pml4e)))) of
        Inl b \<Rightarrow> Inl b
      | Inr pdpt \<Rightarrow>
          adjustPdptEntries noOfVariableRangeRegisters variableMtrrs defaultMemoryType pdpt
            [0..<EPT_PDPT_ENTRIES] s)"

text \<open>
  \<open>fillFixedMtrr\<close>.  The iterator \<open>*ptIteratorPointer\<close> is a pointer into the page table
  \<open>pt\<close>, kept as the index of the entry it points at; each of the eight bytes of the MSR
  is stored into the field \<open>memoryType\<close> of \<open>sizeInKBytes / 4\<close> consecutive entries.
\<close>

definition fillFixedMtrr ::
  "(32 word \<Rightarrow> 64 word) \<Rightarrow> 64 word \<Rightarrow> 32 word \<times> nat \<Rightarrow> nat \<times> coreState \<Rightarrow> nat \<times> coreState" where
  "fillFixedMtrr readmsr pt call =
     (case call of (msrIndex, sizeInKBytes) \<Rightarrow>
        fold (\<lambda>msrByteIndex.
                fold (\<lambda>mappedPageCounter (ptIterator, s).
                        (Suc ptIterator,
                         writeEntry s pt (of_nat ptIterator)
                           (setBits 3 3 (drop_bit (msrByteIndex * 8) (readmsr msrIndex) AND 0xFF)
                              (physicalMemory s pt (of_nat ptIterator)))))
                  [0..<sizeInKBytes div 4])
          [0..<8])"

text \<open>The eleven calls of \<open>fillFixedMtrr\<close> in \<open>overrideFirstPml4EntryWithFixedMtrrs\<close>, in order.\<close>

definition fixedMtrrCalls :: "(32 word \<times> nat) list" where
  "fixedMtrrCalls =
     [(IA32_MTRR_FIX64K_00000, 64), (IA32_MTRR_FIX16K_80000, 16), (IA32_MTRR_FIX16K_A0000, 16),
      (IA32_MTRR_FIX4K_C0000, 4), (IA32_MTRR_FIX4K_C8000, 4), (IA32_MTRR_FIX4K_D0000, 4),
      (IA32_MTRR_FIX4K_D8000, 4), (IA32_MTRR_FIX4K_E0000, 4), (IA32_MTRR_FIX4K_E8000, 4),
      (IA32_MTRR_FIX4K_F0000, 4), (IA32_MTRR_FIX4K_F8000, 4)]"

text \<open>
  \<open>overrideFirstPml4EntryWithFixedMtrrs\<close>: \<open>splitPage\<close> on the first entry of the first
  page directory, with the split buffer of the core this runs on, then the fixed-range
  MSRs over the first 256 entries of the new page table.
\<close>

definition overrideFirstPml4EntryWithFixedMtrrs ::
  "(32 word \<Rightarrow> 64 word) \<Rightarrow> 64 word \<Rightarrow> coreState \<Rightarrow> bsod + (NTSTATUS \<times> coreState)" where
  "overrideFirstPml4EntryWithFixedMtrrs readmsr pml4 s =
     (case Memory_getVirtualAddress s
             (addressOfPfn4KB (PagingStructure_pageFrameNumber (physicalMemory s pml4 0))) of
        Inl b \<Rightarrow> Inl b
      | Inr pdpt \<Rightarrow>
     (case Memory_getVirtualAddress s
             (addressOfPfn4KB (PagingStructure_pageFrameNumber (physicalMemory s pdpt 0))) of
        Inl b \<Rightarrow> Inl b
      | Inr pd \<Rightarrow>
     (case splitPage s pd 0 of
        (ntStatus, s1) \<Rightarrow>
          if \<not> NT_SUCCESS ntStatus then Inr (ntStatus, s1)
          else
            (case Memory_getVirtualAddress s1
                    (addressOfPfn4KB (PagingStructure_pageFrameNumber (physicalMemory s1 pd 0))) of
               Inl b \<Rightarrow> Inl b
             | Inr pt \<Rightarrow>
                 Inr (STATUS_SUCCESS,
                      snd (fold (fillFixedMtrr readmsr pt) fixedMtrrCalls (0, s1)))))))"

text \<open>
  \<open>destroyPml4\<close>: for each of the first \<open>noOfPml4Entries\<close> entries the PDPT and the block
  of page directories are located, which can bug check, and freed; then the PML4.
\<close>

fun destroyPml4Entries :: "64 word \<Rightarrow> nat list \<Rightarrow> coreState \<Rightarrow> bsod + coreState" where
  "destroyPml4Entries pml4 [] s = Inr s"
| "destroyPml4Entries pml4 (pml4EntryIndex # rest) s =
     (case Memory_getVirtualAddress s
             (addressOfPfn4KB (PagingStructure_pageFrameNumber
                (physicalMemory s pml4 (of_nat pml4EntryIndex)))) of
        Inl b \<Rightarrow> Inl b
      | Inr pdpt \<Rightarrow>
     (case Memory_getVirtualAddress s
             (addressOfPfn4KB (PagingStructure_pageFrameNumber (physicalMemory s pdpt 0))) of
        Inl b \<Rightarrow> Inl b
      | Inr pdArray \<Rightarrow>
          destroyPml4Entries pml4 rest (Memory_free (Memory_free s pdArray) pdpt)))"

definition destroyPml4 :: "coreState \<Rightarrow> nat \<Rightarrow> 64 word \<Rightarrow> bsod + coreState" where
  "destroyPml4 s noOfPml4Entries pml4 =
     (case destroyPml4Entries pml4 [0..<noOfPml4Entries] s of
        Inl b \<Rightarrow> Inl b
      | Inr s' \<Rightarrow> Inr (Memory_free s' pml4))"

text \<open>
  \<open>EPT_setupDefaltStructures\<close>.  The CPUID leaves, the MSRs and what the pool returns for
  the PML4, for the PDPT of each PML4 entry and for its block of page directories are
  parameters; the state is that of the core the function runs on, whose split buffer
  \<open>splitPage\<close> uses.  The result is the status and, on success, the bits stored through
  \<open>eptpBits\<close>.  The two loops over the PML4 entries leave through \<open>destroyPml4\<close> when an
  entry fails.
\<close>

record poolAllocations =
  pml4Pool :: "(nat \<Rightarrow> 64 word) option"
  pdptPool :: "nat \<Rightarrow> (nat \<Rightarrow> 64 word) option"
  pdArrayPool :: "nat \<Rightarrow> (nat \<Rightarrow> 64 word) option"

fun setupPml4Entries ::
  "poolAllocations \<Rightarrow> 64 word \<Rightarrow> nat list \<Rightarrow> coreState \<Rightarrow> bsod + (NTSTATUS \<times> coreState)" where
  "setupPml4Entries pools pml4 [] s = Inr (STATUS_SUCCESS, s)"
| "setupPml4Entries pools pml4 (pml4Index # rest) s =
     (case setupPml4Entry s (pdptPool pools pml4Index) (pdArrayPool pools pml4Index) pml4Index
             (pml4, of_nat pml4Index) of
        (ntStatus, s') \<Rightarrow>
          if \<not> NT_SUCCESS ntStatus
          then (case destroyPml4 s' pml4Index pml4 of
                  Inl b \<Rightarrow> Inl b
                | Inr s'' \<Rightarrow> Inr (ntStatus, s''))
          else setupPml4Entries pools pml4 rest s')"

fun adjustPml4Entries ::
  "64 word \<Rightarrow> (nat \<Rightarrow> EPT_VariableMtrr) \<Rightarrow> 64 word \<Rightarrow> 64 word \<Rightarrow> nat \<Rightarrow> nat list \<Rightarrow> coreState \<Rightarrow>
     bsod + (NTSTATUS \<times> coreState)" where
  "adjustPml4Entries noOfVariableRangeRegisters variableMtrrs defaultMemoryType pml4 pml4Count [] s =
     Inr (STATUS_SUCCESS, s)"
| "adjustPml4Entries noOfVariableRangeRegisters variableMtrrs defaultMemoryType pml4 pml4Count
     (pml4EntryIndex # rest) s =
     (case adjustPml4WithVariableMtrrs s noOfVariableRangeRegisters variableMtrrs
             defaultMemoryType (pml4, of_nat pml4EntryIndex) of
        Inl b \<Rightarrow> Inl b
      | Inr (ntStatus, s') \<Rightarrow>
          if \<not> NT_SUCCESS ntStatus
          then (case destroyPml4 s' pml4Count pml4 of
                  Inl b \<Rightarrow> Inl b
                | Inr s'' \<Rightarrow> Inr (ntStatus, s''))
          else adjustPml4Entries noOfVariableRangeRegisters variableMtrrs defaultMemoryType pml4
                 pml4Count rest s')"

text \<open>The block of \<open>EPT_setupDefaltStructures\<close> that sets the memory types from the MTRRs.\<close>

definition setMemoryTypes ::
  "(32 word \<Rightarrow> nat \<Rightarrow> 32 word) \<Rightarrow> (32 word \<Rightarrow> 64 word) \<Rightarrow> 64 word \<Rightarrow> nat \<Rightarrow> coreState \<Rightarrow>
     bsod + (NTSTATUS \<times> coreState)" where
  "setMemoryTypes cpuid readmsr pml4 pml4Count s =
     (if \<not> CpuidBasicInformation1_mtrr (cpuid IA32_CPUID_BASIC_INFORMATION_1)
      then Inr (STATUS_SUCCESS, s)
      else
        let mtrrDefType = readmsr IA32_MTRR_DEF_TYPE
        in if \<not> MtrrDefType_mtrrEnable mtrrDefType then Inr (STATUS_SUCCESS, s)
           else
             let mtrrCap = readmsr IA32_MTRRCAP;
                 variableMtrrs =
                   fillVariableMtrrsCache readmsr (Mtrrcap_variableRangeRegistersCount mtrrCap)
                     (\<lambda>mtrrIndex. zeroVariableMtrr)
             in case adjustPml4Entries (Mtrrcap_variableRangeRegistersCount mtrrCap) variableMtrrs
                       (MtrrDefType_defaultMemoryType mtrrDefType) pml4 pml4Count
                       [0..<pml4Count] s of
                  Inl b \<Rightarrow> Inl b
                | Inr (ntStatus, s') \<Rightarrow>
                    if \<not> NT_SUCCESS ntStatus then Inr (ntStatus, s')
                    else if Mtrrcap_fixedRangeRegistersSupported mtrrCap \<and>
                            MtrrDefType_fixedRangeMtrrEnable mtrrDefType
                    then (case overrideFirstPml4EntryWithFixedMtrrs readmsr pml4 s' of
                            Inl b \<Rightarrow> Inl b
                          | Inr (ntStatus', s'') \<Rightarrow>
                              if \<not> NT_SUCCESS ntStatus'
                              then (case destroyPml4 s'' pml4Count pml4 of
                                      Inl b \<Rightarrow> Inl b
                                    | Inr s3 \<Rightarrow> Inr (ntStatus', s3))
                              else Inr (STATUS_SUCCESS, s''))
                    else Inr (STATUS_SUCCESS, s'))"

definition EPT_setupDefaltStructures ::
  "(32 word \<Rightarrow> nat \<Rightarrow> 32 word) \<Rightarrow> (32 word \<Rightarrow> 64 word) \<Rightarrow> poolAllocations \<Rightarrow> coreState \<Rightarrow>
     bsod + ((NTSTATUS \<times> 64 word option) \<times> coreState)" where
  "EPT_setupDefaltStructures cpuid readmsr pools s =
     (case Memory_allocate s (pml4Pool pools) 1 True of
        (s0, None) \<Rightarrow> Inr ((STATUS_UNSUCCESSFUL, None), s0)
      | (s0, Some pml4Block) \<Rightarrow>
          let pml4 = pml4Block 0;
              pml4Count = unat (getPml4Count cpuid)
          in case setupPml4Entries pools pml4 [0..<pml4Count] s0 of
               Inl b \<Rightarrow> Inl b
             | Inr (ntStatus, s1) \<Rightarrow>
                 if \<not> NT_SUCCESS ntStatus then Inr ((ntStatus, None), s1)
                 else (case setMemoryTypes cpuid readmsr pml4 pml4Count s1 of
                         Inl b \<Rightarrow> Inl b
                       | Inr (ntStatus', s2) \<Rightarrow>
                           if \<not> NT_SUCCESS ntStatus' then Inr ((ntStatus', None), s2)
                           else Inr ((STATUS_SUCCESS,
                                      Some (newEptP (Address_pageFrameNumber4KB pml4))), s2)))"

section \<open>vmexit.c: the handlers\<close>

text \<open>
  The loops over the mapping table.  Each scans the indices below
  \<open>CONTEXT_EPT_MAX_MAPPINGS\<close> in increasing order and stops at the first hit.
\<close>

definition findMapping :: "(nat \<Rightarrow> Context_EptChangedMapping) \<Rightarrow> 64 word \<Rightarrow> nat option" where
  "findMapping mappings address =
     find (\<lambda>mappingIndex. valid (mappings mappingIndex) \<and>
                          guestAddress (mappings mappingIndex) = address)
       [0..<CONTEXT_EPT_MAX_MAPPINGS]"

definition mappingCollides ::
  "(nat \<Rightarrow> Context_EptChangedMapping) \<Rightarrow> 64 word \<Rightarrow> 64 word \<Rightarrow> 64 word \<Rightarrow> bool" where
  "mappingCollides mappings guest hostRw hostFetch =
     list_ex (\<lambda>mappingIndex.
        valid (mappings mappingIndex) \<and>
        (guestAddress (mappings mappingIndex) = guest \<or>
         hostFetchAddress (mappings mappingIndex) = guest \<or>
         hostRwAddress (mappings mappingIndex) = guest \<or>
         guestAddress (mappings mappingIndex) = hostRw \<or>
         guestAddress (mappings mappingIndex) = hostFetch))
       [0..<CONTEXT_EPT_MAX_MAPPINGS]"

definition selectIndex :: "(nat \<Rightarrow> Context_EptChangedMapping) \<Rightarrow> nat option" where
  "selectIndex mappings =
     find (\<lambda>selectedIndex. \<not> valid (mappings selectedIndex)) [0..<CONTEXT_EPT_MAX_MAPPINGS]"

definition vmCallMapPage ::
  "coreState \<Rightarrow> VMEXIT_Registers \<Rightarrow> bsod + (VMEXIT_Registers \<times> coreState)" where
  "vmCallMapPage s registers =
     (if Address_offset (RDX registers) \<noteq> 0 \<or> Address_offset (R8 registers) \<noteq> 0 \<or>
         Address_offset (R9 registers) \<noteq> 0
      then Inr (registers\<lparr>RAX := statusToRAX STATUS_UNSUCCESSFUL\<rparr>, s)
      else if mappingCollides (changedMappings s) (RDX registers) (R8 registers) (R9 registers)
      then Inr (registers\<lparr>RAX := statusToRAX STATUS_UNSUCCESSFUL\<rparr>, s)
      else case selectIndex (changedMappings s) of
        None \<Rightarrow> Inr (registers\<lparr>RAX := statusToRAX STATUS_UNSUCCESSFUL\<rparr>, s)
      | Some selectedIndex \<Rightarrow>
          (case EPT_changeMapping s (RDX registers) (RDX registers) False False of
             Inl b \<Rightarrow> Inl b
           | Inr (ntStatus, s') \<Rightarrow>
               if \<not> NT_SUCCESS ntStatus then Inr (registers\<lparr>RAX := statusToRAX ntStatus\<rparr>, s')
               else Inr (registers\<lparr>RAX := statusToRAX STATUS_SUCCESS\<rparr>,
                         VMX_inveptAll
                           (s'\<lparr>changedMappings := (changedMappings s')
                                (selectedIndex :=
                                   \<lparr>guestAddress = RDX registers,
                                    hostRwAddress = R8 registers,
                                    hostFetchAddress = R9 registers,
                                    valid = True\<rparr>)\<rparr>))))"

definition vmCallUnmapPage ::
  "coreState \<Rightarrow> VMEXIT_Registers \<Rightarrow> bsod + (VMEXIT_Registers \<times> coreState)" where
  "vmCallUnmapPage s registers =
     (case findMapping (changedMappings s) (RDX registers) of
        None \<Rightarrow> Inr (registers\<lparr>RAX := statusToRAX STATUS_UNSUCCESSFUL\<rparr>, s)
      | Some foundMapping \<Rightarrow>
          (case EPT_changeMapping s (RDX registers) (RDX registers) True True of
             Inl b \<Rightarrow> Inl b
           | Inr (ntStatus, s') \<Rightarrow>
               if \<not> NT_SUCCESS ntStatus then Inr (registers\<lparr>RAX := statusToRAX ntStatus\<rparr>, s')
               else Inr (registers\<lparr>RAX := statusToRAX STATUS_SUCCESS\<rparr>,
                         VMX_inveptAll
                           (s'\<lparr>changedMappings := (changedMappings s')
                                (foundMapping := zeroMapping)\<rparr>))))"

text \<open>
  \<open>eptViolationHandler\<close>.  The exit qualification and the guest-physical address are
  what the two \<open>__vmx_vmread\<close> calls deliver.  The status of \<open>EPT_changeMapping\<close> is
  dropped, as in the source.
\<close>

definition eptViolationHandler :: "coreState \<Rightarrow> 64 word \<Rightarrow> 64 word \<Rightarrow> bsod + coreState" where
  "eptViolationHandler s exitQualification guestPhysicalAddress =
     (let exitAddr = setBits 0 12 0 guestPhysicalAddress
      in case findMapping (changedMappings s) exitAddr of
           None \<Rightarrow> Inl BSOD_VMEXIT_EPT_NO_MAPPING
         | Some foundMapping \<Rightarrow>
             if EptViolation_dataRead exitQualification \<or> EptViolation_dataWrite exitQualification
             then (case EPT_changeMapping s
                          (guestAddress (changedMappings s foundMapping))
                          (hostRwAddress (changedMappings s foundMapping)) True False of
                     Inl b \<Rightarrow> Inl b
                   | Inr (ntStatus, s') \<Rightarrow> Inr (VMX_inveptAll s'))
             else if EptViolation_instructionFetch exitQualification
             then (case EPT_changeMapping s
                          (guestAddress (changedMappings s foundMapping))
                          (hostFetchAddress (changedMappings s foundMapping)) False True of
                     Inl b \<Rightarrow> Inl b
                   | Inr (ntStatus, s') \<Rightarrow> Inr (VMX_inveptAll s'))
             else Inl BSOD_VMEXIT_EPT_UNKNOWN)"

section \<open>Auxiliary notions for the properties\<close>

text \<open>The memory types hitting an address, over a list of cached registers.\<close>

definition hitsOf :: "EPT_VariableMtrr list \<Rightarrow> 64 word \<Rightarrow> 64 word set" where
  "hitsOf xs a = set (map memoryType (filter (\<lambda>m. valid_mtrr m \<and> mtrrContains m a) xs))"

text \<open>
  A machine with one variable MTRR: base MSR \<open>0x200006\<close> (base 2 MiB, write-back),
  mask MSR \<open>0x1800\<close> (valid, frame-number field 1).
\<close>

definition exampleMsr :: "32 word \<Rightarrow> 64 word" where
  "exampleMsr msr = (if msr = 0x200 then 0x200006 else if msr = 0x201 then 0x1800 else 0)"

definition zeroCache :: "nat \<Rightarrow> EPT_VariableMtrr" where
  "zeroCache = (\<lambda>_. zeroVariableMtrr)"


text \<open>
  The walk of \<open>EPT_changeMapping\<close> from the EPT pointer down to the leaf of a
  guest-physical address: the pages of the PML4, the PDPT, the PD and the PT, the PD
  entry, and the 4 KiB leaf (none while the PD entry is a 2 MiB leaf).
\<close>

definition pml4Of :: "coreState \<Rightarrow> 64 word" where
  "pml4Of s = addressOfPfn4KB (EptP_pageFrameNumber (eptp s))"

definition pdptOf :: "coreState \<Rightarrow> 64 word \<Rightarrow> 64 word" where
  "pdptOf s a = addressOfPfn4KB (PagingStructure_pageFrameNumber
                   (physicalMemory s (pml4Of s) (Address_pml4Entry a)))"

definition pdOf :: "coreState \<Rightarrow> 64 word \<Rightarrow> 64 word" where
  "pdOf s a = addressOfPfn4KB (PagingStructure_pageFrameNumber
                 (physicalMemory s (pdptOf s a) (Address_pdptEntry a)))"

definition pdeOf :: "coreState \<Rightarrow> 64 word \<Rightarrow> 64 word" where
  "pdeOf s a = physicalMemory s (pdOf s a) (Address_pdEntry a)"

definition ptOf :: "coreState \<Rightarrow> 64 word \<Rightarrow> 64 word" where
  "ptOf s a = addressOfPfn4KB (PagingStructure_pageFrameNumber (pdeOf s a))"

definition eptLeaf :: "coreState \<Rightarrow> 64 word \<Rightarrow> 64 word option" where
  "eptLeaf s a =
     (if PdE2MB_isLargePage (pdeOf s a) then None
      else Some (physicalMemory s (ptOf s a) (Address_ptEntry a)))"

text \<open>The page base of an address: the address with its 12 offset bits cleared.\<close>

definition pageBase :: "64 word \<Rightarrow> 64 word" where
  "pageBase a = setBits 0 12 0 a"

text \<open>
  What the caller of a VMCALL reads as the result: the low 32 bits of \<open>RAX\<close> as an
  \<open>NTSTATUS\<close>.
\<close>

definition callFailed :: "VMEXIT_Registers \<Rightarrow> bool" where
  "callFailed registers = (\<not> NT_SUCCESS (ucast (RAX registers)))"

definition callRegisters :: "64 word \<Rightarrow> 64 word \<Rightarrow> 64 word \<Rightarrow> VMEXIT_Registers" where
  "callRegisters rdx r8 r9 =
     \<lparr>R15 = 0, R14 = 0, R13 = 0, R12 = 0, R11 = 0, R10 = 0, R9 = r9, R8 = r8, RDI = 0, RSI = 0,
      RSP = 0, RBP = 0, RDX = rdx, RCX = 0, RBX = 0, RAX = 0\<rparr>"

text \<open>Predicates on the mapping table, over its \<open>CONTEXT_EPT_MAX_MAPPINGS\<close> slots.\<close>

definition allSlots :: "(nat \<Rightarrow> bool) \<Rightarrow> bool" where
  "allSlots P = list_all P [0..<CONTEXT_EPT_MAX_MAPPINGS]"

definition someSlot :: "(nat \<Rightarrow> bool) \<Rightarrow> bool" where
  "someSlot P = list_ex P [0..<CONTEXT_EPT_MAX_MAPPINGS]"

definition noValidMappings :: "(nat \<Rightarrow> Context_EptChangedMapping) \<Rightarrow> bool" where
  "noValidMappings mappings = allSlots (\<lambda>i. \<not> valid (mappings i))"

definition guestKeysUnique :: "(nat \<Rightarrow> Context_EptChangedMapping) \<Rightarrow> bool" where
  "guestKeysUnique mappings =
     allSlots (\<lambda>i. allSlots (\<lambda>j.
       valid (mappings i) \<and> valid (mappings j) \<and>
       guestAddress (mappings i) = guestAddress (mappings j) \<longrightarrow> i = j))"

text \<open>No guest key is a target of another valid record.\<close>

definition keysNotOtherTargets :: "(nat \<Rightarrow> Context_EptChangedMapping) \<Rightarrow> bool" where
  "keysNotOtherTargets mappings =
     allSlots (\<lambda>i. allSlots (\<lambda>j.
       valid (mappings i) \<and> valid (mappings j) \<and> i \<noteq> j \<longrightarrow>
       hostRwAddress (mappings j) \<noteq> guestAddress (mappings i) \<and>
       hostFetchAddress (mappings j) \<noteq> guestAddress (mappings i)))"

text \<open>No guest key is a target of any valid record, its own record included.\<close>

definition keysNotTargets :: "(nat \<Rightarrow> Context_EptChangedMapping) \<Rightarrow> bool" where
  "keysNotTargets mappings =
     allSlots (\<lambda>i. allSlots (\<lambda>j.
       valid (mappings i) \<and> valid (mappings j) \<longrightarrow>
       hostRwAddress (mappings j) \<noteq> guestAddress (mappings i) \<and>
       hostFetchAddress (mappings j) \<noteq> guestAddress (mappings i)))"

text \<open>
  Some valid record uses one of the three given frames as its guest key, rw-target or
  fetch-target.
\<close>

definition usesAnyFrame ::
  "(nat \<Rightarrow> Context_EptChangedMapping) \<Rightarrow> 64 word \<Rightarrow> 64 word \<Rightarrow> 64 word \<Rightarrow> bool" where
  "usesAnyFrame mappings guest hostRw hostFetch =
     someSlot (\<lambda>i. valid (mappings i) \<and>
       (guestAddress (mappings i) \<in> {guest, hostRw, hostFetch} \<or>
        hostRwAddress (mappings i) \<in> {guest, hostRw, hostFetch} \<or>
        hostFetchAddress (mappings i) \<in> {guest, hostRw, hostFetch}))"

text \<open>
  Some valid record has one of the three given frames as its guest key, or the given
  guest frame as its rw-target or fetch-target.
\<close>

definition usesKeyOrGuest ::
  "(nat \<Rightarrow> Context_EptChangedMapping) \<Rightarrow> 64 word \<Rightarrow> 64 word \<Rightarrow> 64 word \<Rightarrow> bool" where
  "usesKeyOrGuest mappings guest hostRw hostFetch =
     someSlot (\<lambda>i. valid (mappings i) \<and>
       (guestAddress (mappings i) \<in> {guest, hostRw, hostFetch} \<or>
        hostRwAddress (mappings i) = guest \<or>
        hostFetchAddress (mappings i) = guest))"

text \<open>
  One step of a core: an install, a remove or an EPT violation that returns to the
  guest, with any arguments.
\<close>

inductive coreStep :: "coreState \<Rightarrow> coreState \<Rightarrow> bool" where
  install: "vmCallMapPage s registers = Inr (registers', s') \<Longrightarrow> coreStep s s'"
| remove: "vmCallUnmapPage s registers = Inr (registers', s') \<Longrightarrow> coreStep s s'"
| violation: "eptViolationHandler s exitQualification guestPhysicalAddress = Inr s' \<Longrightarrow> coreStep s s'"

section \<open>An example core\<close>

text \<open>
  A small machine: the PML4 at \<open>0x1000\<close> with one entry, its PDPT at \<open>0x2000\<close> with one
  entry, the PD at \<open>0x3000\<close> whose 512 entries are write-back 2 MiB leaves mapping the
  first GiB to itself, and the split buffer in the 32 pages from \<open>0x10000\<close>.
\<close>

definition exampleMemory :: "64 word \<Rightarrow> 9 word \<Rightarrow> 64 word" where
  "exampleMemory page index =
     (if page = 0x1000 then (if index = 0 then newPagingStructure 2 else 0)
      else if page = 0x2000 then (if index = 0 then newPagingStructure 3 else 0)
      else if page = 0x3000
        then setBits 21 31 (ucast index)
               (setBits 7 1 1 (setBits 3 3 6 (setBits 2 1 1 (setBits 1 1 1 (setBits 0 1 1 0)))))
      else 0)"

definition exampleSplitBuffer :: "nat \<Rightarrow> 64 word" where
  "exampleSplitBuffer k = 0x10000 + 0x1000 * of_nat k"

definition exampleCore :: coreState where
  "exampleCore =
     \<lparr>physicalMemory = exampleMemory,
      hasVirtualAddress = (\<lambda>page. page \<in> {0x1000, 0x2000, 0x3000} \<or>
                                   page \<in> set (map exampleSplitBuffer [0..<32])),
      splitBufferPhysical = exampleSplitBuffer,
      noOfUsedSplits = 0,
      changedMappings = (\<lambda>_. zeroMapping),
      eptp = 0x101E,
      inveptAllCalls = 0\<rparr>"

definition resultState :: "bsod + ('a \<times> coreState) \<Rightarrow> coreState" where
  "resultState r = (case r of Inr (x, s) \<Rightarrow> s | Inl b \<Rightarrow> exampleCore)"

definition resultRegisters :: "bsod + (VMEXIT_Registers \<times> coreState) \<Rightarrow> VMEXIT_Registers" where
  "resultRegisters r = (case r of Inr (x, s) \<Rightarrow> x | Inl b \<Rightarrow> callRegisters 0 0 0)"

text \<open>Installs on the example core, used to exhibit reachable states.\<close>

definition exampleInstallSelf :: "bsod + (VMEXIT_Registers \<times> coreState)" where
  "exampleInstallSelf = vmCallMapPage exampleCore (callRegisters 0x200000 0x201000 0x200000)"

definition exampleInstall :: "bsod + (VMEXIT_Registers \<times> coreState)" where
  "exampleInstall = vmCallMapPage exampleCore (callRegisters 0x200000 0x201000 0x202000)"

definition exampleSecondInstall :: "bsod + (VMEXIT_Registers \<times> coreState)" where
  "exampleSecondInstall =
     vmCallMapPage (resultState exampleInstall) (callRegisters 0x203000 0x201000 0x202000)"

definition exampleUnaligned :: "bsod + (VMEXIT_Registers \<times> coreState)" where
  "exampleUnaligned = vmCallMapPage exampleCore (callRegisters 0x200001 0x201000 0x202000)"

definition exampleUnknownRemove :: "bsod + (VMEXIT_Registers \<times> coreState)" where
  "exampleUnknownRemove = vmCallUnmapPage exampleCore (callRegisters 0x200000 0 0)"

text \<open>The invariant of the mapping table.\<close>

definition tableInv :: "(nat \<Rightarrow> Context_EptChangedMapping) \<Rightarrow> bool" where
  "tableInv m = (guestKeysUnique m \<and> keysNotOtherTargets m)"

section \<open>Well-formed paging structures\<close>

text \<open>
  A physical address that a 40-bit page-frame-number field can hold: page aligned and
  below \<open>2^52\<close>.
\<close>

definition pageAddressable :: "64 word \<Rightarrow> bool" where
  "pageAddressable p = (Address_offset p = 0 \<and> getBits 52 12 p = 0)"

text \<open>The pages of the split buffer, and those of its slots already used.\<close>

definition arena :: "coreState \<Rightarrow> 64 word set" where
  "arena s = splitBufferPhysical s ` {k. k < unat CONTEXT_EPT_NO_SPLITS}"

definition usedSlots :: "coreState \<Rightarrow> 64 word set" where
  "usedSlots s = splitBufferPhysical s ` {k. k < unat (noOfUsedSplits s)}"

text \<open>The slots of the split buffer that \<open>splitPage\<close> has not handed out yet.\<close>

definition freeSlots :: "coreState \<Rightarrow> 64 word set" where
  "freeSlots s =
     splitBufferPhysical s ` {k. unat (noOfUsedSplits s) \<le> k \<and> k < unat CONTEXT_EPT_NO_SPLITS}"

text \<open>
  The split buffer is mapped memory of page-aligned physical pages, one page per slot,
  and the counter of used slots does not exceed its size.
\<close>

definition arenaInv :: "coreState \<Rightarrow> bool" where
  "arenaInv s =
     (noOfUsedSplits s \<le> CONTEXT_EPT_NO_SPLITS \<and>
      (\<forall>k < unat CONTEXT_EPT_NO_SPLITS.
         hasVirtualAddress s (splitBufferPhysical s k) \<and>
         pageAddressable (splitBufferPhysical s k)) \<and>
      inj_on (splitBufferPhysical s) {k. k < unat CONTEXT_EPT_NO_SPLITS})"

text \<open>
  The paging structures form levels that do not overlap: the PML4 is mapped and is
  not a page of the split buffer; wherever the walk of an address reaches a mapped PDPT
  and a mapped PD, neither is a page of the split buffer, and the PD is neither the PML4
  nor a PDPT of any walk.  A PD entry that is not a 2 MiB leaf points at a page table
  that is mapped, is none of the slots still free in the split buffer of this core, and
  is neither the PML4 nor a PDPT nor a PD of any walk.  The page table need not lie in
  the split buffer of this core: \<open>splitPage\<close> takes the buffer of the core it runs on,
  and \<open>EPT_setupDefaltStructures\<close> runs \<open>overrideFirstPml4EntryWithFixedMtrrs\<close> for
  every core on the one core that enables the hypervisor, so the first page directory
  of any other core points into that core's buffer.
\<close>

definition structInv :: "coreState \<Rightarrow> bool" where
  "structInv s =
     (hasVirtualAddress s (pml4Of s) \<and> pml4Of s \<notin> arena s \<and>
      (\<forall>a. hasVirtualAddress s (pdptOf s a) \<longrightarrow>
           pdptOf s a \<notin> arena s \<and>
           (hasVirtualAddress s (pdOf s a) \<longrightarrow>
              pdOf s a \<notin> arena s \<and> pdOf s a \<noteq> pml4Of s \<and>
              (\<forall>b. pdOf s a \<noteq> pdptOf s b) \<and>
              (\<not> PdE2MB_isLargePage (pdeOf s a) \<longrightarrow>
                 hasVirtualAddress s (ptOf s a) \<and> ptOf s a \<notin> freeSlots s \<and>
                 ptOf s a \<noteq> pml4Of s \<and> (\<forall>b. ptOf s a \<noteq> pdptOf s b) \<and>
                 (\<forall>b. hasVirtualAddress s (pdptOf s b) \<and> hasVirtualAddress s (pdOf s b) \<longrightarrow>
                      ptOf s a \<noteq> pdOf s b)))))"

text \<open>
  The walk of an address reaches a PD entry that is a directory entry, not a 2 MiB
  leaf.
\<close>

definition installedAt :: "coreState \<Rightarrow> 64 word \<Rightarrow> bool" where
  "installedAt s a =
     (hasVirtualAddress s (pdptOf s a) \<and> hasVirtualAddress s (pdOf s a) \<and>
      \<not> PdE2MB_isLargePage (pdeOf s a))"

definition mappingsInv :: "coreState \<Rightarrow> bool" where
  "mappingsInv s =
     (\<forall>i < CONTEXT_EPT_MAX_MAPPINGS.
        valid (changedMappings s i) \<longrightarrow> installedAt s (guestAddress (changedMappings s i)))"

text \<open>The invariant of a core.\<close>

definition coreInv :: "coreState \<Rightarrow> bool" where
  "coreInv s = (arenaInv s \<and> structInv s \<and> mappingsInv s \<and> tableInv (changedMappings s))"

text \<open>
  The state with the 2 MiB leaf covering an address split and nothing else changed;
  the state itself when the PD entry is no 2 MiB leaf.
\<close>

definition splitOnly :: "coreState \<Rightarrow> 64 word \<Rightarrow> coreState" where
  "splitOnly s a =
     (if PdE2MB_isLargePage (pdeOf s a)
      then snd (splitPage s (pdOf s a) (Address_pdEntry a))
      else s)"

text \<open>The page tables that the walks of the mapped addresses reach.\<close>

definition tablePages :: "coreState \<Rightarrow> 64 word set" where
  "tablePages s =
     {ptOf s a | a. hasVirtualAddress s (pdptOf s a) \<and> hasVirtualAddress s (pdOf s a) \<and>
                    \<not> PdE2MB_isLargePage (pdeOf s a)}"

text \<open>
  Two states of a core that differ, in memory, at most on the pages of the split
  buffer, on the page tables and in the one PD entry \<open>(pd, k)\<close>.
\<close>

definition memAgree :: "coreState \<Rightarrow> coreState \<Rightarrow> 64 word \<Rightarrow> 9 word \<Rightarrow> bool" where
  "memAgree s s' pd k =
     (eptp s' = eptp s \<and> hasVirtualAddress s' = hasVirtualAddress s \<and>
      splitBufferPhysical s' = splitBufferPhysical s \<and>
      (\<forall>page i. page \<notin> arena s \<and> page \<notin> tablePages s \<and> (page \<noteq> pd \<or> i \<noteq> k) \<longrightarrow>
                 physicalMemory s' page i = physicalMemory s page i))"

text \<open>The state with the four fields of the 4 KiB leaf of an address rewritten.\<close>

definition writeLeaf :: "coreState \<Rightarrow> 64 word \<Rightarrow> 64 word \<Rightarrow> bool \<Rightarrow> bool \<Rightarrow> coreState" where
  "writeLeaf s a targetAddress rw fetch =
     s\<lparr>physicalMemory := (physicalMemory s)
         (ptOf s a := (physicalMemory s (ptOf s a))
            (Address_ptEntry a :=
               writePtE targetAddress rw fetch (physicalMemory s (ptOf s a) (Address_ptEntry a))))\<rparr>"

text \<open>
  A 4 KiB leaf holding the frame number of an address (its bits 12 to 51, the width
  of the field) and the given read, write and fetch permissions.
\<close>

definition leafIs :: "64 word \<Rightarrow> 64 word \<Rightarrow> bool \<Rightarrow> bool \<Rightarrow> bool \<Rightarrow> bool" where
  "leafIs e frameAddress r w f =
     (PtE_pageFrameNumber e = getBits 12 40 frameAddress \<and>
      PtE_readAccess e = r \<and> PtE_writeAccess e = w \<and> PtE_fetchAccess e = f)"

text \<open>Some valid mapping record has the given guest key.\<close>

definition hasMapping :: "coreState \<Rightarrow> 64 word \<Rightarrow> bool" where
  "hasMapping s guest =
     someSlot (\<lambda>i. valid (changedMappings s i) \<and> guestAddress (changedMappings s i) = guest)"

text \<open>
  The example core with its split buffer used up, and with a full mapping table.
\<close>

definition exampleArenaFull :: coreState where
  "exampleArenaFull = exampleCore\<lparr>noOfUsedSplits := 32\<rparr>"

definition exampleTableFull :: coreState where
  "exampleTableFull =
     exampleCore\<lparr>changedMappings :=
       (\<lambda>i. \<lparr>guestAddress = 0x40000000 + 0x3000 * of_nat i,
              hostRwAddress = 0x40001000 + 0x3000 * of_nat i,
              hostFetchAddress = 0x40002000 + 0x3000 * of_nat i,
              valid = True\<rparr>)\<rparr>"

text \<open>
  Exactly one of the two access kinds is permitted by a leaf: read and write go
  together, and fetch is granted just when they are not.
\<close>

definition exactlyOneKind :: "64 word \<Rightarrow> bool" where
  "exactlyOneKind e =
     (PtE_readAccess e = PtE_writeAccess e \<and> PtE_fetchAccess e = (\<not> PtE_readAccess e))"

text \<open>A data read of the installed page on the example core.\<close>

definition resultCore :: "bsod + coreState \<Rightarrow> coreState" where
  "resultCore r = (case r of Inr s \<Rightarrow> s | Inl b \<Rightarrow> exampleCore)"

definition exampleViolation :: "bsod + coreState" where
  "exampleViolation = eptViolationHandler (resultState exampleInstall) 1 0x200123"

text \<open>
  The example core as a core other than the one that built its tables: the first entry
  of its page directory points at a page table at \<open>0x40000\<close>, a used slot of the split
  buffer of the core that ran \<open>EPT_setupDefaltStructures\<close>, which maps the first 2 MiB
  to themselves.  Its own split buffer is unused.
\<close>

definition foreignMemory :: "64 word \<Rightarrow> 9 word \<Rightarrow> 64 word" where
  "foreignMemory page index =
     (if page = 0x3000 \<and> index = 0 then newPagingStructure 0x40
      else if page = 0x40000 then newPtE 6 (ucast index)
      else exampleMemory page index)"

definition exampleForeign :: coreState where
  "exampleForeign =
     exampleCore\<lparr>physicalMemory := foreignMemory,
                 hasVirtualAddress := (\<lambda>page. page = 0x40000 \<or> hasVirtualAddress exampleCore page)\<rparr>"

definition foreignInstall :: "bsod + (VMEXIT_Registers \<times> coreState)" where
  "foreignInstall = vmCallMapPage exampleForeign (callRegisters 0x5000 0x201000 0x202000)"

definition foreignViolation :: "bsod + coreState" where
  "foreignViolation = eptViolationHandler (resultState foreignInstall) 4 0x5123"


section \<open>Properties of the MTRR resolver\<close>



lemma hitsOf_Cons: "hitsOf (m # xs) a =
   (if valid_mtrr m \<and> mtrrContains m a then insert (memoryType m) (hitsOf xs a) else hitsOf xs a)"
  by (simp add: hitsOf_def)





text \<open>A hit with a reserved encoding ends the search with the error value.\<close>

lemma searchLoop_reserved:
  "\<exists>t \<in> hitsOf xs a. t \<notin> architecturalTypes \<Longrightarrow> searchLoop xs a ft = None"
proof (induction xs arbitrary: ft)
  case Nil
  then show ?case by (simp add: hitsOf_def)
next
  case (Cons m xs)
  show ?case
  proof (cases "valid_mtrr m \<and> mtrrContains m a")
    case False
    with Cons.prems have "\<exists>t \<in> hitsOf xs a. t \<notin> architecturalTypes" by (simp add: hitsOf_Cons)
    from Cons.IH[OF this] False show ?thesis by auto
  next
    case True
    show ?thesis
    proof (cases "memoryType m \<in> architecturalTypes")
      case False
      with True show ?thesis by (auto simp: architecturalTypes_def)
    next
      case ok: True
      with Cons.prems True have "\<exists>t \<in> hitsOf xs a. t \<notin> architecturalTypes"
        by (auto simp: hitsOf_Cons)
      from Cons.IH[OF this] True show ?thesis by simp
    qed
  qed
qed

lemma searchVariableMtrrs_reserved:
  assumes "\<exists>t \<in> mtrrHits n ms a. t \<notin> architecturalTypes"
  shows "searchVariableMtrrs n ms d a = IA32_MTRR_MEMORY_TYPE_ERR"
proof -
  have h: "mtrrHits n ms a = hitsOf (map ms [0..<unat n]) a"
    by (simp add: mtrrHits_def hitsOf_def)
  from assms have "searchLoop (map ms [0..<unat n]) a noFoundTypes = None"
    unfolding h by (rule searchLoop_reserved)
  then show ?thesis by (simp add: searchVariableMtrrs_def)
qed



lemma BitScanForward64_Some_iff:
  "BitScanForward64 m = Some k \<longleftrightarrow> bit m k \<and> (\<forall>j<k. \<not> bit m j)"
proof
  assume "BitScanForward64 m = Some k"
  then show "bit m k \<and> (\<forall>j<k. \<not> bit m j)"
    by (auto simp: BitScanForward64_def find_Some_iff)
next
  assume a: "bit m k \<and> (\<forall>j<k. \<not> bit m j)"
  then have "k < 64" by (auto dest: bit_imp_le_length)
  with a show "BitScanForward64 m = Some k"
    by (auto simp: BitScanForward64_def find_Some_iff intro!: exI[of _ k])
qed

lemma BitScanForward64_None_iff: "BitScanForward64 m = None \<longleftrightarrow> m = 0"
proof
  assume "BitScanForward64 m = None"
  then have "\<forall>n<64. \<not> bit m n" by (auto simp: BitScanForward64_def find_None_iff)
  then show "m = 0" by (auto intro!: bit_eqI dest: bit_imp_le_length)
next
  assume "m = 0" then show "BitScanForward64 m = None"
    by (simp add: BitScanForward64_def find_None_iff)
qed

lemma addressOfPfn4KB_push: "addressOfPfn4KB pfn = push_bit 12 pfn"
  by (rule bit_eqI) (auto simp: addressOfPfn4KB_def setBits_def bit_simps dest: bit_imp_le_length)

lemma BitScanForward64_shifted:
  "BitScanForward64 (getBits 12 52 m) = Some k \<Longrightarrow>
   BitScanForward64 (addressOfPfn4KB (getBits 12 52 m)) = Some (12 + k)"
  unfolding BitScanForward64_Some_iff addressOfPfn4KB_push
  apply (auto simp: bit_simps getBits_def)
  subgoal for j
    apply (drule spec[of _ "j - 12"])
    apply auto
    done
  done

lemma fillVariableMtrr_other: "i \<noteq> x \<Longrightarrow> fillVariableMtrr r x arr i = arr i"
  by (simp add: fillVariableMtrr_def Let_def split: option.splits)

lemma fillVariableMtrr_cong: "arr' i = arr i \<Longrightarrow> fillVariableMtrr r i arr' i = fillVariableMtrr r i arr i"
  by (simp add: fillVariableMtrr_def Let_def split: option.splits)

lemma fold_fillVariableMtrr:
  "distinct xs \<Longrightarrow> fold (fillVariableMtrr r) xs arr i =
     (if i \<in> set xs then fillVariableMtrr r i arr i else arr i)"
proof (induction xs arbitrary: arr)
  case Nil
  then show ?case by simp
next
  case (Cons x xs)
  show ?case
  proof (cases "i = x")
    case True
    with Cons show ?thesis by simp
  next
    case False
    then have "fillVariableMtrr r x arr i = arr i" by (rule fillVariableMtrr_other)
    then have "fillVariableMtrr r i (fillVariableMtrr r x arr) i = fillVariableMtrr r i arr i"
      by (rule fillVariableMtrr_cong)
    with Cons False show ?thesis by (simp add: fillVariableMtrr_other)
  qed
qed

lemma fillVariableMtrrsCache_at:
  "i < unat n \<Longrightarrow> fillVariableMtrrsCache r n arr i = fillVariableMtrr r i arr i"
  by (simp add: fillVariableMtrrsCache_def fold_fillVariableMtrr)


text \<open>
  Claim C9, as amended.  For a variable MTRR below the register count whose mask MSR
  has the valid bit set and a non-zero frame-number field, \<open>fillVariableMtrrsCache\<close>
  records the base MSR's frame-number field shifted into an address, the base MSR's
  memory type, the valid flag, and the length \<open>1 << (12 + k)\<close>, where \<open>k\<close> is the index
  of the least significant set bit of the mask's frame-number field: the bit is scanned
  in the field shifted into address position, so the length counts bytes.  A register
  whose mask valid bit is clear leaves its cache entry untouched.
\<close>

theorem fillVariableMtrrsCache_entry:
  assumes "i < unat n" and "unat n \<le> IA32_MTRR_MAX_VMTRR_COUNT"
  shows "let physbase = readmsr (IA32_MTRR_PHYSBASE0 + IA32_MTRR_PHYSBASE0_INC * of_nat i);
             physmask = readmsr (IA32_MTRR_PHYSMASK0 + IA32_MTRR_PHYSMASK0_INC * of_nat i);
             cached = fillVariableMtrrsCache readmsr n variableMtrrs i
         in (\<not> MtrrPhysmask_valid physmask \<longrightarrow> cached = variableMtrrs i) \<and>
            (MtrrPhysmask_valid physmask \<and> MtrrPhysmask_physMask physmask \<noteq> 0 \<longrightarrow>
               (\<exists>k. BitScanForward64 (MtrrPhysmask_physMask physmask) = Some k \<and>
                    cached = \<lparr>baseAddress = push_bit 12 (MtrrPhysbase_physBase physbase),
                              length_mtrr = push_bit (12 + k) 1,
                              memoryType = MtrrPhysbase_memoryType physbase,
                              valid_mtrr = True\<rparr>))"
proof -
  define physmask where "physmask = readmsr (IA32_MTRR_PHYSMASK0 + IA32_MTRR_PHYSMASK0_INC * of_nat i)"
  have skip: "\<not> MtrrPhysmask_valid physmask \<Longrightarrow> fillVariableMtrrsCache readmsr n variableMtrrs i = variableMtrrs i"
    using assms(1) by (simp add: fillVariableMtrrsCache_at fillVariableMtrr_def physmask_def)
  have hit: "\<exists>k. BitScanForward64 (MtrrPhysmask_physMask physmask) = Some k \<and>
       fillVariableMtrrsCache readmsr n variableMtrrs i =
        \<lparr>baseAddress = push_bit 12 (MtrrPhysbase_physBase (readmsr (IA32_MTRR_PHYSBASE0 + IA32_MTRR_PHYSBASE0_INC * of_nat i))),
         length_mtrr = push_bit (12 + k) 1,
         memoryType = MtrrPhysbase_memoryType (readmsr (IA32_MTRR_PHYSBASE0 + IA32_MTRR_PHYSBASE0_INC * of_nat i)),
         valid_mtrr = True\<rparr>"
    if v: "MtrrPhysmask_valid physmask" and nz: "MtrrPhysmask_physMask physmask \<noteq> 0"
  proof -
    from nz obtain k where k: "BitScanForward64 (MtrrPhysmask_physMask physmask) = Some k"
      using BitScanForward64_None_iff by (cases "BitScanForward64 (MtrrPhysmask_physMask physmask)") auto
    then have "BitScanForward64 (addressOfPfn4KB (MtrrPhysmask_physMask physmask)) = Some (12 + k)"
      unfolding MtrrPhysmask_physMask_def by (rule BitScanForward64_shifted)
    with k v assms(1) show ?thesis
      by (simp add: fillVariableMtrrsCache_at fillVariableMtrr_def physmask_def[symmetric]
          addressOfPfn4KB_push Let_def)
  qed
  show ?thesis
    unfolding Let_def physmask_def[symmetric] using skip hit by blast
qed

theorem fillVariableMtrrsCache_entry_witness:
  "fillVariableMtrrsCache exampleMsr 1 zeroCache 0 =
     \<lparr>baseAddress = 0x200000, length_mtrr = 0x1000, memoryType = 6, valid_mtrr = True\<rparr>"
proof -
  have h1: "(0::nat) < unat (1 :: 64 word)" by simp
  have h2: "unat (1 :: 64 word) \<le> IA32_MTRR_MAX_VMTRR_COUNT" by (simp add: IA32_MTRR_MAX_VMTRR_COUNT_def)
  have v: "MtrrPhysmask_valid (exampleMsr (IA32_MTRR_PHYSMASK0 + IA32_MTRR_PHYSMASK0_INC * of_nat 0))" by code_simp
  have nz: "MtrrPhysmask_physMask (exampleMsr (IA32_MTRR_PHYSMASK0 + IA32_MTRR_PHYSMASK0_INC * of_nat 0)) \<noteq> 0" by code_simp
  have k: "BitScanForward64 (MtrrPhysmask_physMask (exampleMsr (IA32_MTRR_PHYSMASK0 + IA32_MTRR_PHYSMASK0_INC * of_nat 0))) = Some 0" by code_simp
  have b: "push_bit 12 (MtrrPhysbase_physBase (exampleMsr (IA32_MTRR_PHYSBASE0 + IA32_MTRR_PHYSBASE0_INC * of_nat 0))) = 0x200000" by code_simp
  have m: "MtrrPhysbase_memoryType (exampleMsr (IA32_MTRR_PHYSBASE0 + IA32_MTRR_PHYSBASE0_INC * of_nat 0)) = 6" by code_simp
  from fillVariableMtrrsCache_entry[OF h1 h2, of exampleMsr zeroCache] v nz k b m
  show ?thesis by (simp add: Let_def)
qed

text \<open>
  Claim C9 as stated fails: with the mask MSR \<open>0x1800\<close> (valid, frame-number field 1)
  the recorded length is \<open>0x1000\<close>, while one shifted by the index of the least
  significant set bit of the frame-number field is 1.
\<close>

theorem fillVariableMtrrsCache_length_counterexample:
  "MtrrPhysmask_valid (exampleMsr IA32_MTRR_PHYSMASK0) \<and>
   MtrrPhysmask_physMask (exampleMsr IA32_MTRR_PHYSMASK0) \<noteq> 0 \<and>
   length_mtrr (fillVariableMtrrsCache exampleMsr 1 zeroCache 0) = 0x1000 \<and>
   specMtrrLength (exampleMsr IA32_MTRR_PHYSMASK0) = 1 \<and>
   length_mtrr (fillVariableMtrrsCache exampleMsr 1 zeroCache 0)
     \<noteq> specMtrrLength (exampleMsr IA32_MTRR_PHYSMASK0)"
  by code_simp

section \<open>Properties of the mapping engine: the mapping table\<close>

subsection \<open>Loops over the mapping table\<close>

lemma find_upt_Some:
  "find P [0..<n] = Some i \<longleftrightarrow> i < n \<and> P i \<and> (\<forall>j<i. \<not> P j)"
  by (auto simp: find_Some_iff)

lemma find_upt_None: "find P [0..<n] = None \<longleftrightarrow> (\<forall>i<n. \<not> P i)"
  by (auto simp: find_None_iff)

lemma allSlots_iff: "allSlots P \<longleftrightarrow> (\<forall>i<CONTEXT_EPT_MAX_MAPPINGS. P i)"
  by (auto simp: allSlots_def list_all_iff)

lemma someSlot_iff: "someSlot P \<longleftrightarrow> (\<exists>i<CONTEXT_EPT_MAX_MAPPINGS. P i)"
  by (auto simp: someSlot_def list_ex_iff)

lemma findMapping_Some:
  "findMapping m a = Some i \<longleftrightarrow>
     i < CONTEXT_EPT_MAX_MAPPINGS \<and> valid (m i) \<and> guestAddress (m i) = a \<and>
     (\<forall>j<i. \<not> (valid (m j) \<and> guestAddress (m j) = a))"
  by (simp add: findMapping_def find_upt_Some)

lemma findMapping_None:
  "findMapping m a = None \<longleftrightarrow>
     (\<forall>i<CONTEXT_EPT_MAX_MAPPINGS. \<not> (valid (m i) \<and> guestAddress (m i) = a))"
  by (simp add: findMapping_def find_upt_None)

lemma selectIndex_Some:
  "selectIndex m = Some i \<longleftrightarrow>
     i < CONTEXT_EPT_MAX_MAPPINGS \<and> \<not> valid (m i) \<and> (\<forall>j<i. valid (m j))"
  by (simp add: selectIndex_def find_upt_Some)

lemma selectIndex_None:
  "selectIndex m = None \<longleftrightarrow> (\<forall>i<CONTEXT_EPT_MAX_MAPPINGS. valid (m i))"
  by (simp add: selectIndex_def find_upt_None)

lemma mappingCollides_iff:
  "mappingCollides m g r f \<longleftrightarrow>
     (\<exists>i<CONTEXT_EPT_MAX_MAPPINGS. valid (m i) \<and>
        (guestAddress (m i) = g \<or> hostFetchAddress (m i) = g \<or> hostRwAddress (m i) = g \<or>
         guestAddress (m i) = r \<or> guestAddress (m i) = f))"
  by (auto simp: mappingCollides_def list_ex_iff)

subsection \<open>Status codes\<close>

lemma NT_SUCCESS_simps [simp]:
  "NT_SUCCESS STATUS_SUCCESS" "\<not> NT_SUCCESS STATUS_UNSUCCESSFUL"
  by (simp_all add: NT_SUCCESS_def STATUS_SUCCESS_def STATUS_UNSUCCESSFUL_def)

lemma callFailed_simps [simp]:
  "\<not> callFailed (r\<lparr>RAX := statusToRAX STATUS_SUCCESS\<rparr>)"
  "callFailed (r\<lparr>RAX := statusToRAX STATUS_UNSUCCESSFUL\<rparr>)"
  by (simp_all add: callFailed_def statusToRAX_def NT_SUCCESS_def STATUS_SUCCESS_def STATUS_UNSUCCESSFUL_def)

subsection \<open>What \<open>splitPage\<close> and \<open>EPT_changeMapping\<close> leave alone\<close>

lemma splitPage_fail:
  "splitPage s pd k = (st, s') \<Longrightarrow> \<not> NT_SUCCESS st \<Longrightarrow> s' = s"
  by (auto simp: splitPage_def Let_def split: if_splits)

lemma splitPage_status:
  "splitPage s pd k = (st, s') \<Longrightarrow> st = STATUS_SUCCESS \<or> (st = STATUS_UNSUCCESSFUL \<and> s' = s)"
  by (auto simp: splitPage_def Let_def split: if_splits)

lemma splitPage_frame:
  "splitPage s pd k = (st, s') \<Longrightarrow>
     changedMappings s' = changedMappings s \<and> eptp s' = eptp s \<and>
     hasVirtualAddress s' = hasVirtualAddress s \<and>
     splitBufferPhysical s' = splitBufferPhysical s \<and> inveptAllCalls s' = inveptAllCalls s"
  by (auto simp: splitPage_def Let_def split: if_splits)

lemma changeLeaf_frame:
  "changeLeaf s pd a t rw f = Inr (st, s') \<Longrightarrow>
     st = STATUS_SUCCESS \<and>
     changedMappings s' = changedMappings s \<and> eptp s' = eptp s \<and>
     hasVirtualAddress s' = hasVirtualAddress s \<and> noOfUsedSplits s' = noOfUsedSplits s \<and>
     splitBufferPhysical s' = splitBufferPhysical s \<and> inveptAllCalls s' = inveptAllCalls s"
  by (auto simp: changeLeaf_def Memory_getVirtualAddress_def split: if_splits)

lemma EPT_changeMapping_status:
  assumes "EPT_changeMapping s a t rw f = Inr (st, s')"
  shows "st = STATUS_SUCCESS \<or> (st = STATUS_UNSUCCESSFUL \<and> s' = s)"
proof -
  have a: "st = STATUS_SUCCESS \<or> (st = STATUS_UNSUCCESSFUL \<and> s' = s)"
    if "(case splitPage s pd k of
          (ntStatus, s1) \<Rightarrow> if \<not> NT_SUCCESS ntStatus then Inr (ntStatus, s1)
                            else changeLeaf s1 pd a t rw f) = Inr (st, s')" for pd k
  proof (cases "splitPage s pd k")
    case (Pair st1 s1)
    with that splitPage_status[OF Pair] show ?thesis
      by (auto split: if_splits dest: changeLeaf_frame)
  qed
  from assms show ?thesis
    by (auto simp: EPT_changeMapping_def Memory_getVirtualAddress_def
        split: if_splits dest: changeLeaf_frame a)
qed

lemma EPT_changeMapping_frame:
  assumes "EPT_changeMapping s a t rw f = Inr (st, s')"
  shows "changedMappings s' = changedMappings s \<and> eptp s' = eptp s \<and>
     hasVirtualAddress s' = hasVirtualAddress s \<and>
     splitBufferPhysical s' = splitBufferPhysical s \<and> inveptAllCalls s' = inveptAllCalls s"
proof -
  have a: "changedMappings s' = changedMappings s \<and> eptp s' = eptp s \<and>
     hasVirtualAddress s' = hasVirtualAddress s \<and>
     splitBufferPhysical s' = splitBufferPhysical s \<and> inveptAllCalls s' = inveptAllCalls s"
    if "(case splitPage s pd k of
          (ntStatus, s1) \<Rightarrow> if \<not> NT_SUCCESS ntStatus then Inr (ntStatus, s1)
                            else changeLeaf s1 pd a t rw f) = Inr (st, s')" for pd k
  proof (cases "splitPage s pd k")
    case (Pair st1 s1)
    with that splitPage_frame[OF Pair] show ?thesis
      by (auto split: if_splits dest!: changeLeaf_frame)
  qed
  from assms show ?thesis
    by (auto simp: EPT_changeMapping_def Memory_getVirtualAddress_def
        split: if_splits dest!: changeLeaf_frame a)
qed

lemma EPT_changeMapping_fail:
  "EPT_changeMapping s a t rw f = Inr (st, s') \<Longrightarrow> \<not> NT_SUCCESS st \<Longrightarrow> s' = s"
  by (auto dest: EPT_changeMapping_status)

lemma result_eq:
  "(case r of Inr _ \<Rightarrow> True | Inl _ \<Rightarrow> False) \<Longrightarrow> r = Inr (resultRegisters r, resultState r)"
  by (auto simp: resultRegisters_def resultState_def split: sum.splits)


text \<open>
  Claim C6.  Whenever \<open>vmCallMapPage\<close> (install) or \<open>vmCallUnmapPage\<close> (remove) returns
  to the guest with a failure status, whatever the cause (unaligned address, alias
  collision, full mapping table, full split arena, unknown guest key), the state of the
  core is the one before the call: mapping table, split arena and EPT structures are
  unchanged.
\<close>

theorem failure_leaves_state:
  "(vmCallMapPage s registers = Inr (registers', s') \<and> callFailed registers' \<longrightarrow> s' = s) \<and>
   (vmCallUnmapPage s registers = Inr (registers', s') \<and> callFailed registers' \<longrightarrow> s' = s)"
proof (intro conjI impI)
  assume "vmCallMapPage s registers = Inr (registers', s') \<and> callFailed registers'"
  then show "s' = s"
    by (auto simp: vmCallMapPage_def split: if_splits option.splits sum.splits
        dest: EPT_changeMapping_fail)
next
  assume "vmCallUnmapPage s registers = Inr (registers', s') \<and> callFailed registers'"
  then show "s' = s"
    by (auto simp: vmCallUnmapPage_def split: if_splits option.splits sum.splits
        dest: EPT_changeMapping_fail)
qed

theorem failure_leaves_state_witness:
  "resultState exampleUnaligned = exampleCore \<and> resultState exampleUnknownRemove = exampleCore"
proof -
  have a: "(case exampleUnaligned of Inr _ \<Rightarrow> True | Inl _ \<Rightarrow> False)"
    unfolding exampleUnaligned_def by code_simp
  have b: "callFailed (resultRegisters exampleUnaligned)"
    unfolding exampleUnaligned_def by code_simp
  have c: "(case exampleUnknownRemove of Inr _ \<Rightarrow> True | Inl _ \<Rightarrow> False)"
    unfolding exampleUnknownRemove_def by code_simp
  have d: "callFailed (resultRegisters exampleUnknownRemove)"
    unfolding exampleUnknownRemove_def by code_simp
  from failure_leaves_state[of exampleCore "callRegisters 0x200001 0x201000 0x202000"
      "resultRegisters exampleUnaligned" "resultState exampleUnaligned"]
    result_eq[OF a] b
  have 1: "resultState exampleUnaligned = exampleCore"
    unfolding exampleUnaligned_def by blast
  from failure_leaves_state[of exampleCore "callRegisters 0x200000 0 0"
      "resultRegisters exampleUnknownRemove" "resultState exampleUnknownRemove"]
    result_eq[OF c] d
  have 2: "resultState exampleUnknownRemove = exampleCore"
    unfolding exampleUnknownRemove_def by blast
  from 1 2 show ?thesis by simp
qed

lemma usesKeyOrGuest_collides: "usesKeyOrGuest m g r f \<longleftrightarrow> mappingCollides m g r f"
  by (auto simp: usesKeyOrGuest_def someSlot_iff mappingCollides_iff)


text \<open>
  Claim C3, as amended.  \<open>vmCallMapPage\<close> returns failure and leaves the state as it
  was, storing no record, whenever some valid mapping record has one of the three given
  frames as its guest key, or has the given guest frame as its rw-target or
  fetch-target.
\<close>

theorem install_rejects_collision:
  assumes "usesKeyOrGuest (changedMappings s) (RDX registers) (R8 registers) (R9 registers)"
  shows "vmCallMapPage s registers = Inr (registers\<lparr>RAX := statusToRAX STATUS_UNSUCCESSFUL\<rparr>, s) \<and>
         callFailed (registers\<lparr>RAX := statusToRAX STATUS_UNSUCCESSFUL\<rparr>)"
  using assms by (simp add: vmCallMapPage_def usesKeyOrGuest_collides)

theorem install_rejects_collision_witness:
  "vmCallMapPage (resultState exampleInstall) (callRegisters 0x201000 0x203000 0x204000) =
     Inr ((callRegisters 0x201000 0x203000 0x204000)\<lparr>RAX := statusToRAX STATUS_UNSUCCESSFUL\<rparr>,
          resultState exampleInstall)"
proof -
  have "usesKeyOrGuest (changedMappings (resultState exampleInstall))
          (RDX (callRegisters 0x201000 0x203000 0x204000))
          (R8 (callRegisters 0x201000 0x203000 0x204000))
          (R9 (callRegisters 0x201000 0x203000 0x204000))"
    unfolding exampleInstall_def by code_simp
  from install_rejects_collision[OF this] show ?thesis by simp
qed

text \<open>
  Claim C3 as stated fails: after the install of \<open>(0x200000, 0x201000, 0x202000)\<close> a
  second install \<open>(0x203000, 0x201000, 0x202000)\<close>, whose rw-target and fetch-target are
  the targets of the valid record, succeeds and stores its record in slot 1.
\<close>

theorem install_shared_target_counterexample:
  "usesAnyFrame (changedMappings (resultState exampleInstall)) 0x203000 0x201000 0x202000 \<and>
   exampleSecondInstall = Inr (resultRegisters exampleSecondInstall, resultState exampleSecondInstall) \<and>
   \<not> callFailed (resultRegisters exampleSecondInstall) \<and>
   changedMappings (resultState exampleSecondInstall) 1 =
     \<lparr>guestAddress = 0x203000, hostRwAddress = 0x201000, hostFetchAddress = 0x202000, valid = True\<rparr>"
proof -
  have a: "usesAnyFrame (changedMappings (resultState exampleInstall)) 0x203000 0x201000 0x202000"
    unfolding exampleInstall_def by code_simp
  have b: "(case exampleSecondInstall of Inr _ \<Rightarrow> True | Inl _ \<Rightarrow> False)"
    unfolding exampleSecondInstall_def exampleInstall_def by code_simp
  have c: "\<not> callFailed (resultRegisters exampleSecondInstall)"
    unfolding exampleSecondInstall_def exampleInstall_def by code_simp
  have d: "changedMappings (resultState exampleSecondInstall) 1 =
     \<lparr>guestAddress = 0x203000, hostRwAddress = 0x201000, hostFetchAddress = 0x202000, valid = True\<rparr>"
    unfolding exampleSecondInstall_def exampleInstall_def by code_simp
  from a result_eq[OF b] c d show ?thesis by blast
qed

lemma tableInv_iff:
  "tableInv m \<longleftrightarrow>
     (\<forall>i<CONTEXT_EPT_MAX_MAPPINGS. \<forall>j<CONTEXT_EPT_MAX_MAPPINGS.
        valid (m i) \<and> valid (m j) \<and> i \<noteq> j \<longrightarrow>
          guestAddress (m i) \<noteq> guestAddress (m j) \<and>
          hostRwAddress (m j) \<noteq> guestAddress (m i) \<and>
          hostFetchAddress (m j) \<noteq> guestAddress (m i))"
  unfolding tableInv_def guestKeysUnique_def keysNotOtherTargets_def allSlots_iff by blast

lemma tableInv_empty: "noValidMappings m \<Longrightarrow> tableInv m"
  by (simp add: tableInv_iff noValidMappings_def allSlots_iff)

lemma tableInv_remove: "tableInv m \<Longrightarrow> tableInv (m(i := zeroMapping))"
  by (simp add: tableInv_iff zeroMapping_def)

lemma tableInv_install:
  assumes inv: "tableInv m" and free: "\<not> valid (m i)"
    and nc: "\<not> mappingCollides m g r f"
  shows "tableInv (m(i := \<lparr>guestAddress = g, hostRwAddress = r, hostFetchAddress = f, valid = True\<rparr>))"
  unfolding tableInv_iff
proof (intro allI impI)
  fix a b
  let ?m = "m(i := \<lparr>guestAddress = g, hostRwAddress = r, hostFetchAddress = f, valid = True\<rparr>)"
  assume a: "a < CONTEXT_EPT_MAX_MAPPINGS" and b: "b < CONTEXT_EPT_MAX_MAPPINGS"
    and v: "valid (?m a) \<and> valid (?m b) \<and> a \<noteq> b"
  from nc have nc': "\<And>k. k < CONTEXT_EPT_MAX_MAPPINGS \<Longrightarrow> valid (m k) \<Longrightarrow>
      guestAddress (m k) \<noteq> g \<and> hostFetchAddress (m k) \<noteq> g \<and> hostRwAddress (m k) \<noteq> g \<and>
      guestAddress (m k) \<noteq> r \<and> guestAddress (m k) \<noteq> f"
    unfolding mappingCollides_iff by blast
  show "guestAddress (?m a) \<noteq> guestAddress (?m b) \<and>
        hostRwAddress (?m b) \<noteq> guestAddress (?m a) \<and>
        hostFetchAddress (?m b) \<noteq> guestAddress (?m a)"
  proof (cases "a = i")
    case True
    with v have "b \<noteq> i" "valid (m b)" by auto
    with nc'[OF b] True show ?thesis by auto
  next
    case ai: False
    show ?thesis
    proof (cases "b = i")
      case True
      with v ai have "valid (m a)" by auto
      with nc'[OF a] True ai show ?thesis by auto
    next
      case False
      with ai v inv a b show ?thesis unfolding tableInv_iff by auto
    qed
  qed
qed

lemma vmCallMapPage_table:
  assumes "vmCallMapPage s registers = Inr (registers', s')"
  shows "changedMappings s' = changedMappings s \<or>
     (\<exists>i. selectIndex (changedMappings s) = Some i \<and>
          \<not> mappingCollides (changedMappings s) (RDX registers) (R8 registers) (R9 registers) \<and>
          changedMappings s' = (changedMappings s)
            (i := \<lparr>guestAddress = RDX registers, hostRwAddress = R8 registers,
                   hostFetchAddress = R9 registers, valid = True\<rparr>))"
proof -
  have "changedMappings s1 = changedMappings s"
    if "EPT_changeMapping s (RDX registers) (RDX registers) False False = Inr (st, s1)" for st s1
    using EPT_changeMapping_frame[OF that] by simp
  with assms show ?thesis
    by (auto simp: vmCallMapPage_def VMX_inveptAll_def
        split: if_splits option.splits sum.splits)
qed

lemma vmCallUnmapPage_table:
  assumes "vmCallUnmapPage s registers = Inr (registers', s')"
  shows "changedMappings s' = changedMappings s \<or>
     (\<exists>i. findMapping (changedMappings s) (RDX registers) = Some i \<and>
          changedMappings s' = (changedMappings s)(i := zeroMapping))"
proof -
  have "changedMappings s1 = changedMappings s"
    if "EPT_changeMapping s (RDX registers) (RDX registers) True True = Inr (st, s1)" for st s1
    using EPT_changeMapping_frame[OF that] by simp
  with assms show ?thesis
    by (auto simp: vmCallUnmapPage_def VMX_inveptAll_def
        split: if_splits option.splits sum.splits)
qed

lemma eptViolationHandler_table:
  assumes "eptViolationHandler s q a = Inr s'"
  shows "changedMappings s' = changedMappings s"
proof -
  have "changedMappings s1 = changedMappings s"
    if "EPT_changeMapping s g t rw f = Inr (st, s1)" for g t rw f st s1
    using EPT_changeMapping_frame[OF that] by simp
  with assms show ?thesis
    by (auto simp: eptViolationHandler_def VMX_inveptAll_def Let_def
        split: if_splits option.splits sum.splits)
qed

lemma coreStep_tableInv:
  assumes "coreStep s s'" and "tableInv (changedMappings s)"
  shows "tableInv (changedMappings s')"
  using assms
proof (cases rule: coreStep.cases)
  case (install registers registers')
  from vmCallMapPage_table[OF install] assms(2) show ?thesis
    by (auto simp: selectIndex_Some intro: tableInv_install)
next
  case (remove registers registers')
  from vmCallUnmapPage_table[OF remove] assms(2) show ?thesis
    by (auto intro: tableInv_remove)
next
  case (violation q a)
  from eptViolationHandler_table[OF violation] assms(2) show ?thesis by simp
qed


text \<open>
  Claim C2, as amended.  In every state reached from a core without valid mapping
  records by installs, removes and EPT violations, a guest-physical frame is the guest
  key of at most one valid mapping record, and the guest key of a valid record is not
  the rw-target or fetch-target of any other valid record.
\<close>

theorem reachable_keys_unique:
  assumes "noValidMappings (changedMappings s0)" and "coreStep\<^sup>*\<^sup>* s0 s"
  shows "guestKeysUnique (changedMappings s) \<and> keysNotOtherTargets (changedMappings s)"
proof -
  from assms(2) have "tableInv (changedMappings s)"
  proof (induction rule: rtranclp_induct)
    case base
    from assms(1) show ?case by (rule tableInv_empty)
  next
    case (step y z)
    then show ?case by (auto intro: coreStep_tableInv)
  qed
  then show ?thesis by (simp add: tableInv_def)
qed

lemma exampleCore_noValid: "noValidMappings (changedMappings exampleCore)"
  by code_simp

lemma exampleInstallSelf_ok: "(case exampleInstallSelf of Inr _ \<Rightarrow> True | Inl _ \<Rightarrow> False)"
  unfolding exampleInstallSelf_def by code_simp

lemma exampleInstallSelf_step: "coreStep exampleCore (resultState exampleInstallSelf)"
  using result_eq[OF exampleInstallSelf_ok] unfolding exampleInstallSelf_def
  by (rule coreStep.install)

lemma exampleInstallSelf_reach: "coreStep\<^sup>*\<^sup>* exampleCore (resultState exampleInstallSelf)"
  using exampleInstallSelf_step by (rule r_into_rtranclp)

theorem reachable_keys_unique_witness:
  "guestKeysUnique (changedMappings (resultState exampleInstallSelf)) \<and>
   keysNotOtherTargets (changedMappings (resultState exampleInstallSelf))"
  using reachable_keys_unique[OF exampleCore_noValid exampleInstallSelf_reach] .

text \<open>
  Claim C2 as stated fails: the install of \<open>(0x200000, 0x201000, 0x200000)\<close> on the
  example core succeeds, and the guest key of its record is the fetch-target of that
  same record.
\<close>

theorem key_is_own_target_counterexample:
  "noValidMappings (changedMappings exampleCore) \<and>
   coreStep\<^sup>*\<^sup>* exampleCore (resultState exampleInstallSelf) \<and>
   \<not> keysNotTargets (changedMappings (resultState exampleInstallSelf))"
proof -
  have "\<not> keysNotTargets (changedMappings (resultState exampleInstallSelf))"
    unfolding exampleInstallSelf_def by code_simp
  with exampleCore_noValid exampleInstallSelf_reach show ?thesis by blast
qed


section \<open>Properties of the EPT tables\<close>

subsection \<open>Bit fields\<close>

lemma bit_getBits: "bit (getBits off len x) n \<longleftrightarrow> n < len \<and> bit x (off + n)"
  by (auto simp: getBits_def bit_simps)

lemma bit_setBits: "bit (setBits off len v x) n \<longleftrightarrow>
   (if off \<le> n \<and> n < off + len then n < 64 \<and> bit v (n - off) else bit x n)"
  by (auto simp: setBits_def bit_simps dest: bit_imp_le_length)

lemma getBits_setBits_same:
  "off + len \<le> 64 \<Longrightarrow> getBits off len (setBits off len v x) = take_bit len v"
  by (rule bit_eqI) (auto simp: bit_getBits bit_setBits bit_simps)

lemma getBits_setBits_other:
  "o1 + l1 \<le> o2 \<or> o2 + l2 \<le> o1 \<Longrightarrow> getBits o1 l1 (setBits o2 l2 v x) = getBits o1 l1 x"
  by (rule bit_eqI) (auto simp: bit_getBits bit_setBits bit_simps)


lemma getBits_zero [simp]: "getBits off len 0 = 0"
  by (simp add: getBits_def)

lemma take_bit_one_word: "take_bit (Suc 0) (1 :: 64 word) = 1" "take_bit (Suc 0) (0 :: 64 word) = 0"
  by simp_all

lemma flag_set: "off < 64 \<Longrightarrow> getBits off 1 (setBits off 1 (ofBOOLEAN b) x) \<noteq> 0 \<longleftrightarrow> b"
  by (simp add: getBits_setBits_same ofBOOLEAN_def)

lemma flag_set_one: "off < 64 \<Longrightarrow> getBits off 1 (setBits off 1 1 x) \<noteq> 0"
  by (simp add: getBits_setBits_same)

text \<open>Entries built by compound literals.\<close>

lemma newPagingStructure_fields:
  "\<not> PdE2MB_isLargePage (newPagingStructure pfn)"
  "PagingStructure_pageFrameNumber (newPagingStructure pfn) = take_bit 40 pfn"
  "PagingStructure_readAccess (newPagingStructure pfn)"
  "PagingStructure_writeAccess (newPagingStructure pfn)"
  "PagingStructure_fetchAccess (newPagingStructure pfn)"
  by (simp_all add: newPagingStructure_def PdE2MB_isLargePage_def PagingStructure_pageFrameNumber_def
      PagingStructure_readAccess_def PagingStructure_writeAccess_def PagingStructure_fetchAccess_def
      getBits_setBits_same getBits_setBits_other)

lemma newPtE_fields:
  "PtE_readAccess (newPtE mt pfn)"
  "PtE_writeAccess (newPtE mt pfn)"
  "PtE_fetchAccess (newPtE mt pfn)"
  "PtE_memoryType (newPtE mt pfn) = take_bit 3 mt"
  "PtE_pageFrameNumber (newPtE mt pfn) = take_bit 40 pfn"
  by (simp_all add: newPtE_def PtE_readAccess_def PtE_writeAccess_def PtE_fetchAccess_def
      PtE_memoryType_def PtE_pageFrameNumber_def getBits_setBits_same getBits_setBits_other)

lemma writePtE_fields:
  "PtE_readAccess (writePtE t rw f e) = rw"
  "PtE_writeAccess (writePtE t rw f e) = rw"
  "PtE_fetchAccess (writePtE t rw f e) = f"
  "PtE_memoryType (writePtE t rw f e) = PtE_memoryType e"
  "PtE_pageFrameNumber (writePtE t rw f e) = getBits 12 40 t"
proof -
  have tb: "take_bit 40 (getBits 12 52 t) = getBits 12 40 t"
    by (rule bit_eqI) (auto simp: bit_getBits bit_simps)
  show "PtE_readAccess (writePtE t rw f e) = rw"
    "PtE_writeAccess (writePtE t rw f e) = rw"
    "PtE_fetchAccess (writePtE t rw f e) = f"
    "PtE_memoryType (writePtE t rw f e) = PtE_memoryType e"
    "PtE_pageFrameNumber (writePtE t rw f e) = getBits 12 40 t"
    by (simp_all add: writePtE_def PtE_readAccess_def PtE_writeAccess_def PtE_fetchAccess_def
      PtE_memoryType_def PtE_pageFrameNumber_def getBits_setBits_same getBits_setBits_other
      Address_pageFrameNumber4KB_def tb ofBOOLEAN_def)
qed




lemma split_frame_fits:
  "take_bit 40 (EPT_PT_ENTRIES * PdE2MB_pageFrameNumber e + ucast (i :: 9 word))
     = EPT_PT_ENTRIES * PdE2MB_pageFrameNumber e + ucast i"
proof -
  have a: "EPT_PT_ENTRIES * PdE2MB_pageFrameNumber e = push_bit 9 (getBits 21 31 e)"
    by (simp add: EPT_PT_ENTRIES_def PdE2MB_pageFrameNumber_def push_bit_eq_mult)
  have b: "push_bit 9 (getBits 21 31 e) + ucast i = push_bit 9 (getBits 21 31 e) OR ucast i"
    by (rule disjunctive_add_eq_or) (auto simp: bit_simps bit_getBits bit_eq_iff dest: bit_imp_le_length)
  show ?thesis
    unfolding a b
    by (rule bit_eqI) (auto simp: bit_simps bit_getBits dest: bit_imp_le_length)
qed

lemma pageAddressable_roundtrip:
  "pageAddressable p \<Longrightarrow>
   addressOfPfn4KB (PagingStructure_pageFrameNumber (newPagingStructure (Address_pageFrameNumber4KB p))) = p"
proof -
  assume a: "pageAddressable p"
  have lo: "\<not> bit p n" if "n < 12" for n
  proof -
    from a have "bit (getBits 0 12 p) n = bit (0 :: 64 word) n"
      by (simp add: pageAddressable_def Address_offset_def)
    with that show ?thesis by (simp add: bit_getBits)
  qed
  have hi: "\<not> bit p n" if "52 \<le> n" for n
  proof (cases "n < 64")
    case True
    from a have "bit (getBits 52 12 p) (n - 52) = bit (0 :: 64 word) (n - 52)"
      by (simp add: pageAddressable_def)
    with that True show ?thesis by (simp add: bit_getBits)
  next
    case False then show ?thesis by (auto dest: bit_imp_le_length)
  qed
  have "push_bit 12 (take_bit 40 (getBits 12 52 p)) = p"
  proof (rule bit_eqI)
    fix n assume "possible_bit TYPE(64 word) n"
    then have n: "n < 64" by simp
    consider "n < 12" | "52 \<le> n" | "12 \<le> n \<and> n < 52" by linarith
    then show "bit (push_bit 12 (take_bit 40 (getBits 12 52 p))) n = bit p n"
    proof cases
      case 1
      with lo[of n] show ?thesis by (simp add: bit_simps)
    next
      case 2
      with hi[of n] show ?thesis by (auto simp: bit_simps)
    next
      case 3
      then have "n - 12 < 40" "12 + (n - 12) = n" by auto
      with 3 n show ?thesis by (auto simp: bit_simps bit_getBits)
    qed
  qed
  then show ?thesis
    by (simp add: newPagingStructure_fields addressOfPfn4KB_push Address_pageFrameNumber4KB_def)
qed

lemma unat_NO_SPLITS: "unat CONTEXT_EPT_NO_SPLITS = 32"
  by (simp add: CONTEXT_EPT_NO_SPLITS_def)

lemma used_Suc:
  "noOfUsedSplits s < CONTEXT_EPT_NO_SPLITS \<Longrightarrow> unat (noOfUsedSplits s + 1) = Suc (unat (noOfUsedSplits s))"
  by (simp add: CONTEXT_EPT_NO_SPLITS_def unat_word_ariths word_less_nat_alt)

text \<open>
  Claim C7.  When the counter of used slots has reached \<open>CONTEXT_EPT_NO_SPLITS\<close> (32),
  \<open>splitPage\<close> fails and changes nothing.  Below it, with the next slot of the split
  buffer a page-aligned physical page other than the page directory itself, \<open>splitPage\<close>
  succeeds, advances the counter by one, fills the slot with a page table whose entry
  \<open>i\<close> grants read, write and fetch, has the memory type of the 2 MiB leaf and the frame
  number \<open>512 * parentFrame2MB + i\<close>, and replaces the PD entry by a directory entry
  (readable, writable, fetchable, not a large page) that points at the slot; nothing
  else in memory changes.
\<close>

theorem splitPage_table:
  "(CONTEXT_EPT_NO_SPLITS \<le> noOfUsedSplits s \<longrightarrow> splitPage s pd pdEntryIndex = (STATUS_UNSUCCESSFUL, s)) \<and>
   (noOfUsedSplits s < CONTEXT_EPT_NO_SPLITS \<and>
    pageAddressable (splitBufferPhysical s (unat (noOfUsedSplits s))) \<and>
    splitBufferPhysical s (unat (noOfUsedSplits s)) \<noteq> pd \<longrightarrow>
      (\<exists>s'. splitPage s pd pdEntryIndex = (STATUS_SUCCESS, s') \<and>
         unat (noOfUsedSplits s') = Suc (unat (noOfUsedSplits s)) \<and>
         (\<forall>i. let e = physicalMemory s' (splitBufferPhysical s (unat (noOfUsedSplits s))) i
              in PtE_readAccess e \<and> PtE_writeAccess e \<and> PtE_fetchAccess e \<and>
                 PtE_memoryType e = PdE2MB_memoryType (physicalMemory s pd pdEntryIndex) \<and>
                 PtE_pageFrameNumber e =
                   EPT_PT_ENTRIES * PdE2MB_pageFrameNumber (physicalMemory s pd pdEntryIndex) + ucast i) \<and>
         (let d = physicalMemory s' pd pdEntryIndex
          in \<not> PdE2MB_isLargePage d \<and>
             PagingStructure_readAccess d \<and> PagingStructure_writeAccess d \<and>
             PagingStructure_fetchAccess d \<and>
             addressOfPfn4KB (PagingStructure_pageFrameNumber d) =
               splitBufferPhysical s (unat (noOfUsedSplits s))) \<and>
         (\<forall>page i. page \<noteq> splitBufferPhysical s (unat (noOfUsedSplits s)) \<and>
                    (page \<noteq> pd \<or> i \<noteq> pdEntryIndex) \<longrightarrow>
                    physicalMemory s' page i = physicalMemory s page i)))"
proof (intro conjI impI)
  assume "CONTEXT_EPT_NO_SPLITS \<le> noOfUsedSplits s"
  then show "splitPage s pd pdEntryIndex = (STATUS_UNSUCCESSFUL, s)"
    by (simp add: splitPage_def)
next
  assume a: "noOfUsedSplits s < CONTEXT_EPT_NO_SPLITS \<and>
    pageAddressable (splitBufferPhysical s (unat (noOfUsedSplits s))) \<and>
    splitBufferPhysical s (unat (noOfUsedSplits s)) \<noteq> pd"
  let ?Q = "splitBufferPhysical s (unat (noOfUsedSplits s))"
  have mt: "take_bit 3 (PdE2MB_memoryType e) = PdE2MB_memoryType e" for e
    by (simp add: PdE2MB_memoryType_def getBits_def)
  from a show "\<exists>s'. splitPage s pd pdEntryIndex = (STATUS_SUCCESS, s') \<and>
         unat (noOfUsedSplits s') = Suc (unat (noOfUsedSplits s)) \<and>
         (\<forall>i. let e = physicalMemory s' ?Q i
              in PtE_readAccess e \<and> PtE_writeAccess e \<and> PtE_fetchAccess e \<and>
                 PtE_memoryType e = PdE2MB_memoryType (physicalMemory s pd pdEntryIndex) \<and>
                 PtE_pageFrameNumber e =
                   EPT_PT_ENTRIES * PdE2MB_pageFrameNumber (physicalMemory s pd pdEntryIndex) + ucast i) \<and>
         (let d = physicalMemory s' pd pdEntryIndex
          in \<not> PdE2MB_isLargePage d \<and>
             PagingStructure_readAccess d \<and> PagingStructure_writeAccess d \<and>
             PagingStructure_fetchAccess d \<and>
             addressOfPfn4KB (PagingStructure_pageFrameNumber d) = ?Q) \<and>
         (\<forall>page i. page \<noteq> ?Q \<and> (page \<noteq> pd \<or> i \<noteq> pdEntryIndex) \<longrightarrow>
                    physicalMemory s' page i = physicalMemory s page i)"
    by (auto simp: splitPage_def Let_def used_Suc newPtE_fields newPagingStructure_fields
        split_frame_fits mt pageAddressable_roundtrip[simplified newPagingStructure_fields]
        simp flip: not_less)
qed

theorem splitPage_table_witness:
  "splitPage exampleArenaFull 0x3000 1 = (STATUS_UNSUCCESSFUL, exampleArenaFull) \<and>
   fst (splitPage exampleCore 0x3000 1) = STATUS_SUCCESS \<and>
   PtE_pageFrameNumber (physicalMemory (snd (splitPage exampleCore 0x3000 1)) 0x10000 5) = 0x205 \<and>
   addressOfPfn4KB (PagingStructure_pageFrameNumber
      (physicalMemory (snd (splitPage exampleCore 0x3000 1)) 0x3000 1)) = 0x10000"
proof -
  have full: "CONTEXT_EPT_NO_SPLITS \<le> noOfUsedSplits exampleArenaFull"
    by (simp add: exampleArenaFull_def CONTEXT_EPT_NO_SPLITS_def)
  have room: "noOfUsedSplits exampleCore < CONTEXT_EPT_NO_SPLITS"
    by (simp add: exampleCore_def CONTEXT_EPT_NO_SPLITS_def)
  have q: "splitBufferPhysical exampleCore (unat (noOfUsedSplits exampleCore)) = 0x10000"
    by (simp add: exampleCore_def exampleSplitBuffer_def)
  have pa: "pageAddressable 0x10000" by code_simp
  have fr: "EPT_PT_ENTRIES * PdE2MB_pageFrameNumber (physicalMemory exampleCore 0x3000 1) + ucast (5 :: 9 word) = 0x205"
    by code_simp
  from splitPage_table[of exampleArenaFull "0x3000" 1] full
  have 1: "splitPage exampleArenaFull 0x3000 1 = (STATUS_UNSUCCESSFUL, exampleArenaFull)" by blast
  from splitPage_table[of exampleCore "0x3000" 1] room pa
  obtain s' where sp: "splitPage exampleCore 0x3000 1 = (STATUS_SUCCESS, s')"
    and pt: "\<forall>i. let e = physicalMemory s' 0x10000 i
              in PtE_readAccess e \<and> PtE_writeAccess e \<and> PtE_fetchAccess e \<and>
                 PtE_memoryType e = PdE2MB_memoryType (physicalMemory exampleCore 0x3000 1) \<and>
                 PtE_pageFrameNumber e =
                   EPT_PT_ENTRIES * PdE2MB_pageFrameNumber (physicalMemory exampleCore 0x3000 1) + ucast i"
    and pd: "let d = physicalMemory s' 0x3000 1
          in \<not> PdE2MB_isLargePage d \<and>
             PagingStructure_readAccess d \<and> PagingStructure_writeAccess d \<and>
             PagingStructure_fetchAccess d \<and>
             addressOfPfn4KB (PagingStructure_pageFrameNumber d) = 0x10000"
    unfolding q by auto
  from pt[rule_format, of 5] fr
  have 2: "PtE_pageFrameNumber (physicalMemory s' 0x10000 5) = 0x205" by (simp add: Let_def)
  from 1 2 pd sp show ?thesis by (simp add: Let_def)
qed


subsection \<open>The walk\<close>

lemma EPT_changeMapping_walk:
  "EPT_changeMapping s a t rw f =
     (if \<not> hasVirtualAddress s (pml4Of s) \<or> \<not> hasVirtualAddress s (pdptOf s a) \<or>
         \<not> hasVirtualAddress s (pdOf s a)
      then Inl BSOD_MEMORY_VA_CONVERSION
      else if PdE2MB_isLargePage (pdeOf s a)
      then (case splitPage s (pdOf s a) (Address_pdEntry a) of
              (ntStatus, s') \<Rightarrow>
                if \<not> NT_SUCCESS ntStatus then Inr (ntStatus, s')
                else changeLeaf s' (pdOf s a) a t rw f)
      else changeLeaf s (pdOf s a) a t rw f)"
  by (simp add: EPT_changeMapping_def Memory_getVirtualAddress_def pml4Of_def pdptOf_def
      pdOf_def pdeOf_def split: prod.split)

lemma slot_in_arena: "k < 32 \<Longrightarrow> splitBufferPhysical s k \<in> arena s"
  by (simp add: arena_def unat_NO_SPLITS)

lemma arena_cong: "splitBufferPhysical s' = splitBufferPhysical s \<Longrightarrow> arena s' = arena s"
  by (simp add: arena_def)

lemma freeSlots_arena: "freeSlots s \<subseteq> arena s"
  by (auto simp: freeSlots_def arena_def)

lemma arena_hasVA: "arenaInv s \<Longrightarrow> p \<in> arena s \<Longrightarrow> hasVirtualAddress s p"
  by (auto simp: arenaInv_def arena_def)

lemma arena_addressable: "arenaInv s \<Longrightarrow> p \<in> arena s \<Longrightarrow> pageAddressable p"
  by (auto simp: arenaInv_def arena_def)

lemma used_less: "noOfUsedSplits s < CONTEXT_EPT_NO_SPLITS \<longleftrightarrow> unat (noOfUsedSplits s) < 32"
  by (simp add: word_less_nat_alt unat_NO_SPLITS)

lemma tablePages_D:
  assumes st: "structInv s" and t: "p \<in> tablePages s"
  shows "hasVirtualAddress s p" "p \<notin> freeSlots s" "p \<noteq> pml4Of s" "p \<noteq> pdptOf s b"
    and "hasVirtualAddress s (pdptOf s b) \<Longrightarrow> hasVirtualAddress s (pdOf s b) \<Longrightarrow> p \<noteq> pdOf s b"
proof -
  from t obtain a where a: "p = ptOf s a" "hasVirtualAddress s (pdptOf s a)"
    "hasVirtualAddress s (pdOf s a)" "\<not> PdE2MB_isLargePage (pdeOf s a)"
    by (auto simp: tablePages_def)
  with st have c: "hasVirtualAddress s (ptOf s a) \<and> ptOf s a \<notin> freeSlots s \<and>
      ptOf s a \<noteq> pml4Of s \<and> (\<forall>b. ptOf s a \<noteq> pdptOf s b) \<and>
      (\<forall>b. hasVirtualAddress s (pdptOf s b) \<and> hasVirtualAddress s (pdOf s b) \<longrightarrow>
           ptOf s a \<noteq> pdOf s b)"
    unfolding structInv_def by blast
  from c a(1) show "hasVirtualAddress s p" "p \<notin> freeSlots s" "p \<noteq> pml4Of s" "p \<noteq> pdptOf s b"
    by simp_all
  from c a(1) show "p \<noteq> pdOf s b"
    if "hasVirtualAddress s (pdptOf s b)" "hasVirtualAddress s (pdOf s b)"
    using that by simp
qed

text \<open>The PML4, the PDPTs and the PDs are neither slots of the split buffer nor page tables.\<close>

lemma structure_pages:
  assumes ar: "arenaInv s" and st: "structInv s"
  shows "pml4Of s \<notin> arena s" "pml4Of s \<notin> tablePages s"
    and "pdptOf s b \<notin> arena s" "pdptOf s b \<notin> tablePages s"
    and "hasVirtualAddress s (pdptOf s b) \<Longrightarrow> hasVirtualAddress s (pdOf s b) \<Longrightarrow>
           pdOf s b \<notin> arena s"
    and "hasVirtualAddress s (pdptOf s b) \<Longrightarrow> hasVirtualAddress s (pdOf s b) \<Longrightarrow>
           pdOf s b \<notin> tablePages s"
proof -
  from st show "pml4Of s \<notin> arena s" by (simp add: structInv_def)
  show "pml4Of s \<notin> tablePages s" using tablePages_D(3)[OF st] by blast
  show "pdptOf s b \<notin> arena s"
  proof (cases "hasVirtualAddress s (pdptOf s b)")
    case True with st show ?thesis by (simp add: structInv_def)
  next
    case False with arena_hasVA[OF ar] show ?thesis by blast
  qed
  show "pdptOf s b \<notin> tablePages s" using tablePages_D(4)[OF st] by blast
  show "pdOf s b \<notin> arena s"
    if "hasVirtualAddress s (pdptOf s b)" "hasVirtualAddress s (pdOf s b)"
    using st that by (simp add: structInv_def)
  show "pdOf s b \<notin> tablePages s"
    if "hasVirtualAddress s (pdptOf s b)" "hasVirtualAddress s (pdOf s b)"
    using tablePages_D(5)[OF st _ that] by blast
qed

text \<open>
  The walks agree on states that agree outside the split buffer, the page tables and
  one PD entry.
\<close>

lemma walks_agree:
  assumes ar: "arenaInv s" and st: "structInv s" and ag: "memAgree s s' pd k"
    and pd1: "pd \<noteq> pml4Of s" and pd2: "\<And>b. pd \<noteq> pdptOf s b"
  shows "pml4Of s' = pml4Of s" and "pdptOf s' b = pdptOf s b" and "pdOf s' b = pdOf s b"
proof -
  from ag have e: "eptp s' = eptp s" and
    m: "\<And>page i. page \<notin> arena s \<Longrightarrow> page \<notin> tablePages s \<Longrightarrow> page \<noteq> pd \<or> i \<noteq> k \<Longrightarrow>
          physicalMemory s' page i = physicalMemory s page i"
    by (simp_all add: memAgree_def)
  note sp = structure_pages[OF ar st]
  show p4: "pml4Of s' = pml4Of s" by (simp add: pml4Of_def e)
  from pd1 have "physicalMemory s' (pml4Of s) i = physicalMemory s (pml4Of s) i" for i
    by (intro m sp(1) sp(2)) auto
  then show p3: "pdptOf s' b = pdptOf s b" for b by (simp add: pdptOf_def p4)
  from pd2[of b] have "pdptOf s b \<noteq> pd" by simp
  then have "physicalMemory s' (pdptOf s b) i = physicalMemory s (pdptOf s b) i" for i
    by (intro m sp(3) sp(4)) auto
  then show "pdOf s' b = pdOf s b" by (simp add: pdOf_def p3)
qed

lemma pde_agree:
  assumes ar: "arenaInv s" and st: "structInv s" and ag: "memAgree s s' pd k"
    and pd1: "pd \<noteq> pml4Of s" and pd2: "\<And>b. pd \<noteq> pdptOf s b"
    and va: "hasVirtualAddress s (pdptOf s b)" "hasVirtualAddress s (pdOf s b)"
    and ne: "pdOf s b \<noteq> pd \<or> Address_pdEntry b \<noteq> k"
  shows "pdeOf s' b = pdeOf s b"
proof -
  note sp = structure_pages[OF ar st]
  from ag ne sp(5)[OF va] sp(6)[OF va]
  have "physicalMemory s' (pdOf s b) (Address_pdEntry b) =
      physicalMemory s (pdOf s b) (Address_pdEntry b)"
    by (simp add: memAgree_def)
  with walks_agree(3)[OF ar st ag pd1 pd2] show ?thesis by (simp add: pdeOf_def)
qed

text \<open>
  The invariants carry over to a state that agrees, when no slot has become free and
  the one PD entry is unchanged or has become a directory entry for a slot of the split
  buffer that is not free.
\<close>

lemma structInv_agree:
  assumes ar: "arenaInv s" and st: "structInv s" and ag: "memAgree s s' pd k"
    and pd1: "pd \<noteq> pml4Of s" and pd2: "\<And>b. pd \<noteq> pdptOf s b"
    and free: "freeSlots s' \<subseteq> freeSlots s"
    and cell: "physicalMemory s' pd k = physicalMemory s pd k \<or>
               (\<not> PdE2MB_isLargePage (physicalMemory s' pd k) \<and>
                addressOfPfn4KB (PagingStructure_pageFrameNumber (physicalMemory s' pd k)) \<in> arena s \<and>
                addressOfPfn4KB (PagingStructure_pageFrameNumber (physicalMemory s' pd k)) \<notin> freeSlots s')"
  shows "structInv s'"
proof -
  note w = walks_agree[OF ar st ag pd1 pd2]
  note sp = structure_pages[OF ar st]
  from ag have hv: "hasVirtualAddress s' = hasVirtualAddress s"
    and sb: "splitBufferPhysical s' = splitBufferPhysical s" by (simp_all add: memAgree_def)
  have ae: "arena s' = arena s" using sb by (rule arena_cong)
  have old: "hasVirtualAddress s (ptOf s a) \<and> ptOf s a \<notin> freeSlots s' \<and>
      ptOf s a \<noteq> pml4Of s \<and> (\<forall>b. ptOf s a \<noteq> pdptOf s b) \<and>
      (\<forall>b. hasVirtualAddress s (pdptOf s b) \<and> hasVirtualAddress s (pdOf s b) \<longrightarrow>
           ptOf s a \<noteq> pdOf s b)"
    if va: "hasVirtualAddress s (pdptOf s a)" "hasVirtualAddress s (pdOf s a)"
      and nl: "\<not> PdE2MB_isLargePage (pdeOf s a)" for a
  proof -
    from va nl have t: "ptOf s a \<in> tablePages s" by (auto simp: tablePages_def)
    from tablePages_D[OF st t] free show ?thesis by blast
  qed
  have leafpart: "hasVirtualAddress s (ptOf s' a) \<and> ptOf s' a \<notin> freeSlots s' \<and>
      ptOf s' a \<noteq> pml4Of s \<and> (\<forall>b. ptOf s' a \<noteq> pdptOf s b) \<and>
      (\<forall>b. hasVirtualAddress s (pdptOf s b) \<and> hasVirtualAddress s (pdOf s b) \<longrightarrow>
           ptOf s' a \<noteq> pdOf s b)"
    if va: "hasVirtualAddress s (pdptOf s a)" "hasVirtualAddress s (pdOf s a)"
      and nl: "\<not> PdE2MB_isLargePage (pdeOf s' a)" for a
  proof (cases "pdOf s a \<noteq> pd \<or> Address_pdEntry a \<noteq> k")
    case True
    from pde_agree[OF ar st ag pd1 pd2 va True] have e: "pdeOf s' a = pdeOf s a" .
    then have "ptOf s' a = ptOf s a" by (simp add: ptOf_def)
    with old[OF va] nl e show ?thesis by simp
  next
    case False
    then have c: "pdeOf s' a = physicalMemory s' pd k" "pdeOf s a = physicalMemory s pd k"
      by (simp_all add: pdeOf_def w)
    from cell show ?thesis
    proof
      assume "physicalMemory s' pd k = physicalMemory s pd k"
      with c have e: "pdeOf s' a = pdeOf s a" by simp
      then have "ptOf s' a = ptOf s a" by (simp add: ptOf_def)
      with old[OF va] nl e show ?thesis by simp
    next
      assume n: "\<not> PdE2MB_isLargePage (physicalMemory s' pd k) \<and>
                addressOfPfn4KB (PagingStructure_pageFrameNumber (physicalMemory s' pd k)) \<in> arena s \<and>
                addressOfPfn4KB (PagingStructure_pageFrameNumber (physicalMemory s' pd k)) \<notin> freeSlots s'"
      with c have pa: "ptOf s' a \<in> arena s" and pf: "ptOf s' a \<notin> freeSlots s'"
        by (simp_all add: ptOf_def)
      from pa sp(1) have 1: "ptOf s' a \<noteq> pml4Of s" by auto
      from pa sp(3) have 2: "ptOf s' a \<noteq> pdptOf s b" for b by auto
      from pa sp(5) have 3: "ptOf s' a \<noteq> pdOf s b"
        if "hasVirtualAddress s (pdptOf s b)" "hasVirtualAddress s (pdOf s b)" for b
        using that by auto
      from arena_hasVA[OF ar pa] pf 1 2 3 show ?thesis by blast
    qed
  qed
  from st show ?thesis
    unfolding structInv_def w hv ae
    using leafpart by blast
qed

lemma installedAt_agree:
  assumes ar: "arenaInv s" and st: "structInv s" and ag: "memAgree s s' pd k"
    and pd1: "pd \<noteq> pml4Of s" and pd2: "\<And>b. pd \<noteq> pdptOf s b"
    and cell: "physicalMemory s' pd k = physicalMemory s pd k \<or>
               \<not> PdE2MB_isLargePage (physicalMemory s' pd k)"
    and ins: "installedAt s a"
  shows "installedAt s' a"
proof -
  note w = walks_agree[OF ar st ag pd1 pd2]
  from ag have hv: "hasVirtualAddress s' = hasVirtualAddress s" by (simp add: memAgree_def)
  from ins have va: "hasVirtualAddress s (pdptOf s a)" "hasVirtualAddress s (pdOf s a)"
    and nl: "\<not> PdE2MB_isLargePage (pdeOf s a)" by (simp_all add: installedAt_def)
  have "\<not> PdE2MB_isLargePage (pdeOf s' a)"
  proof (cases "pdOf s a \<noteq> pd \<or> Address_pdEntry a \<noteq> k")
    case True
    from pde_agree[OF ar st ag pd1 pd2 va True] nl show ?thesis by simp
  next
    case False
    then have c: "pdeOf s' a = physicalMemory s' pd k" "pdeOf s a = physicalMemory s pd k"
      by (simp_all add: pdeOf_def w)
    with cell nl show ?thesis by auto
  qed
  with va show ?thesis by (simp add: installedAt_def w hv)
qed

lemma changeLeaf_writeLeaf:
  "changeLeaf s (pdOf s a) a t rw f =
     (if hasVirtualAddress s (ptOf s a) then Inr (STATUS_SUCCESS, writeLeaf s a t rw f)
      else Inl BSOD_MEMORY_VA_CONVERSION)"
  by (simp add: changeLeaf_def Memory_getVirtualAddress_def ptOf_def pdeOf_def writeLeaf_def)

lemma pd_not_special:
  assumes "structInv s" "hasVirtualAddress s (pdptOf s a)" "hasVirtualAddress s (pdOf s a)"
  shows "pdOf s a \<notin> arena s" "pdOf s a \<noteq> pml4Of s" "pdOf s a \<noteq> pdptOf s b"
  using assms by (auto simp: structInv_def)

subsection \<open>The state after a split\<close>

lemma next_slot_not_free:
  assumes ar: "arenaInv s" and lt: "unat (noOfUsedSplits s) < 32"
  shows "splitBufferPhysical s (unat (noOfUsedSplits s)) \<notin>
           splitBufferPhysical s ` {k. Suc (unat (noOfUsedSplits s)) \<le> k \<and> k < 32}"
proof
  assume "splitBufferPhysical s (unat (noOfUsedSplits s)) \<in>
           splitBufferPhysical s ` {k. Suc (unat (noOfUsedSplits s)) \<le> k \<and> k < 32}"
  then obtain k where k: "Suc (unat (noOfUsedSplits s)) \<le> k" "k < 32"
    "splitBufferPhysical s (unat (noOfUsedSplits s)) = splitBufferPhysical s k" by auto
  from ar have "inj_on (splitBufferPhysical s) {k. k < 32}"
    by (simp add: arenaInv_def unat_NO_SPLITS)
  from inj_onD[OF this k(3)] lt k(2) have "unat (noOfUsedSplits s) = k" by simp
  with k(1) show False by simp
qed

lemma splitOnly_props:
  assumes ar: "arenaInv s" and st: "structInv s"
    and va: "hasVirtualAddress s (pdptOf s a)" "hasVirtualAddress s (pdOf s a)"
    and room: "PdE2MB_isLargePage (pdeOf s a) \<longrightarrow> noOfUsedSplits s < CONTEXT_EPT_NO_SPLITS"
  shows "memAgree s (splitOnly s a) (pdOf s a) (Address_pdEntry a)"
    and "changedMappings (splitOnly s a) = changedMappings s"
    and "inveptAllCalls (splitOnly s a) = inveptAllCalls s"
    and "arenaInv (splitOnly s a)"
    and "structInv (splitOnly s a)"
    and "installedAt (splitOnly s a) a"
    and "installedAt s b \<Longrightarrow> installedAt (splitOnly s a) b"
    and "unat (noOfUsedSplits (splitOnly s a)) =
           (if PdE2MB_isLargePage (pdeOf s a) then Suc (unat (noOfUsedSplits s))
            else unat (noOfUsedSplits s))"
proof -
  let ?pd = "pdOf s a" and ?k = "Address_pdEntry a"
  let ?Q = "splitBufferPhysical s (unat (noOfUsedSplits s))"
  let ?s1 = "splitOnly s a"
  note pdn = pd_not_special[OF st va]
  show ag: "memAgree s ?s1 ?pd ?k"
    using room by (auto simp: memAgree_def splitOnly_def splitPage_def Let_def used_less slot_in_arena
        simp flip: not_less)
  show cm: "changedMappings ?s1 = changedMappings s"
    by (simp add: splitOnly_def splitPage_def Let_def)
  show "inveptAllCalls ?s1 = inveptAllCalls s"
    by (simp add: splitOnly_def splitPage_def Let_def)
  show un: "unat (noOfUsedSplits ?s1) =
           (if PdE2MB_isLargePage (pdeOf s a) then Suc (unat (noOfUsedSplits s))
            else unat (noOfUsedSplits s))"
    using room by (auto simp: splitOnly_def splitPage_def Let_def used_Suc simp flip: not_less)
  from ag have hv: "hasVirtualAddress ?s1 = hasVirtualAddress s"
    and sb: "splitBufferPhysical ?s1 = splitBufferPhysical s" by (simp_all add: memAgree_def)
  show ar1: "arenaInv ?s1"
    using ar room un unfolding arenaInv_def hv sb
    by (auto simp: word_le_nat_alt unat_NO_SPLITS used_less)
  have free: "freeSlots ?s1 \<subseteq> freeSlots s"
    unfolding freeSlots_def sb un by auto
  have cell: "physicalMemory ?s1 ?pd ?k = physicalMemory s ?pd ?k \<or>
       (\<not> PdE2MB_isLargePage (physicalMemory ?s1 ?pd ?k) \<and>
        addressOfPfn4KB (PagingStructure_pageFrameNumber (physicalMemory ?s1 ?pd ?k)) \<in> arena s \<and>
        addressOfPfn4KB (PagingStructure_pageFrameNumber (physicalMemory ?s1 ?pd ?k)) \<notin> freeSlots ?s1)"
  proof (cases "PdE2MB_isLargePage (pdeOf s a)")
    case False
    then show ?thesis by (simp add: splitOnly_def)
  next
    case True
    with room have lt: "noOfUsedSplits s < CONTEXT_EPT_NO_SPLITS" by simp
    then have qin: "?Q \<in> arena s" by (simp add: used_less slot_in_arena)
    then have qa: "pageAddressable ?Q" by (rule arena_addressable[OF ar])
    from True lt have c: "physicalMemory ?s1 ?pd ?k = newPagingStructure (Address_pageFrameNumber4KB ?Q)"
      by (simp add: splitOnly_def splitPage_def Let_def flip: not_less)
    from lt have "?Q \<notin> freeSlots ?s1"
      unfolding freeSlots_def sb un unat_NO_SPLITS using True next_slot_not_free[OF ar]
      by (simp add: used_less)
    with pageAddressable_roundtrip[OF qa] qin show ?thesis
      by (simp add: c newPagingStructure_fields)
  qed
  show st1: "structInv ?s1"
    by (rule structInv_agree[OF ar st ag pdn(2) pdn(3) free cell])
  from cell have cell': "physicalMemory ?s1 ?pd ?k = physicalMemory s ?pd ?k \<or>
       \<not> PdE2MB_isLargePage (physicalMemory ?s1 ?pd ?k)" by blast
  show "installedAt ?s1 b" if "installedAt s b"
    by (rule installedAt_agree[OF ar st ag pdn(2) pdn(3) cell' that])
  note w = walks_agree[OF ar st ag pdn(2) pdn(3)]
  have "\<not> PdE2MB_isLargePage (pdeOf ?s1 a)"
  proof (cases "PdE2MB_isLargePage (pdeOf s a)")
    case False
    then show ?thesis by (simp add: splitOnly_def)
  next
    case True
    with room have "physicalMemory ?s1 ?pd ?k = newPagingStructure (Address_pageFrameNumber4KB ?Q)"
      by (simp add: splitOnly_def splitPage_def Let_def flip: not_less)
    then have "\<not> PdE2MB_isLargePage (physicalMemory ?s1 ?pd ?k)"
      by (simp add: newPagingStructure_fields)
    then show ?thesis by (simp add: pdeOf_def w)
  qed
  with va show "installedAt ?s1 a" by (simp add: installedAt_def w hv)
qed

subsection \<open>The state after the leaf is written\<close>

lemma writeLeaf_props:
  assumes ar: "arenaInv s" and st: "structInv s" and ins: "installedAt s a"
  shows "memAgree s (writeLeaf s a t rw f) (pdOf s a) (Address_pdEntry a)"
    and "changedMappings (writeLeaf s a t rw f) = changedMappings s"
    and "inveptAllCalls (writeLeaf s a t rw f) = inveptAllCalls s"
    and "noOfUsedSplits (writeLeaf s a t rw f) = noOfUsedSplits s"
    and "arenaInv (writeLeaf s a t rw f)"
    and "structInv (writeLeaf s a t rw f)"
    and "installedAt s b \<Longrightarrow> installedAt (writeLeaf s a t rw f) b"
    and "eptLeaf (writeLeaf s a t rw f) a =
           Some (writePtE t rw f (physicalMemory s (ptOf s a) (Address_ptEntry a)))"
    and "hasVirtualAddress s (ptOf s a)"
    and "ptOf (writeLeaf s a t rw f) a = ptOf s a"
    and "eptp (writeLeaf s a t rw f) = eptp s"
proof -
  let ?s2 = "writeLeaf s a t rw f"
  from ins have va: "hasVirtualAddress s (pdptOf s a)" "hasVirtualAddress s (pdOf s a)"
    and nl: "\<not> PdE2MB_isLargePage (pdeOf s a)" by (simp_all add: installedAt_def)
  note pdn = pd_not_special[OF st va]
  from va nl have pta: "ptOf s a \<in> tablePages s" by (auto simp: tablePages_def)
  note td = tablePages_D[OF st pta]
  show "hasVirtualAddress s (ptOf s a)" by (rule td(1))
  show ag: "memAgree s ?s2 (pdOf s a) (Address_pdEntry a)"
    using pta by (auto simp: memAgree_def writeLeaf_def)
  show "changedMappings ?s2 = changedMappings s" "inveptAllCalls ?s2 = inveptAllCalls s"
    and un: "noOfUsedSplits ?s2 = noOfUsedSplits s"
    by (simp_all add: writeLeaf_def)
  from ag have hv: "hasVirtualAddress ?s2 = hasVirtualAddress s"
    and sb: "splitBufferPhysical ?s2 = splitBufferPhysical s" by (simp_all add: memAgree_def)
  show "arenaInv ?s2" using ar unfolding arenaInv_def hv sb un .
  have free: "freeSlots ?s2 \<subseteq> freeSlots s" by (simp add: freeSlots_def sb un)
  from td(5)[OF va] have ne: "pdOf s a \<noteq> ptOf s a" by auto
  then have cell: "physicalMemory ?s2 (pdOf s a) (Address_pdEntry a) =
      physicalMemory s (pdOf s a) (Address_pdEntry a)"
    by (simp add: writeLeaf_def)
  show "structInv ?s2"
    by (rule structInv_agree[OF ar st ag pdn(2) pdn(3) free]) (simp add: cell)
  show "installedAt ?s2 b" if "installedAt s b"
    by (rule installedAt_agree[OF ar st ag pdn(2) pdn(3) _ that]) (simp add: cell)
  note w = walks_agree[OF ar st ag pdn(2) pdn(3)]
  have pe: "pdeOf ?s2 a = pdeOf s a" by (simp add: pdeOf_def w cell)
  then show pt: "ptOf ?s2 a = ptOf s a" by (simp add: ptOf_def)
  show "eptp ?s2 = eptp s" by (simp add: writeLeaf_def)
  from pt pe nl show "eptLeaf ?s2 a =
           Some (writePtE t rw f (physicalMemory s (ptOf s a) (Address_ptEntry a)))"
    by (simp add: eptLeaf_def writeLeaf_def)
qed

subsection \<open>\<open>EPT_changeMapping\<close> on a well-formed core\<close>

lemma EPT_changeMapping_wf:
  assumes ar: "arenaInv s" and st: "structInv s"
    and va: "hasVirtualAddress s (pdptOf s a)" "hasVirtualAddress s (pdOf s a)"
    and room: "PdE2MB_isLargePage (pdeOf s a) \<longrightarrow> noOfUsedSplits s < CONTEXT_EPT_NO_SPLITS"
  shows "EPT_changeMapping s a t rw f = Inr (STATUS_SUCCESS, writeLeaf (splitOnly s a) a t rw f)"
proof -
  let ?s1 = "splitOnly s a"
  note sp = splitOnly_props[OF ar st va room]
  note pdn = pd_not_special[OF st va]
  note w = walks_agree[OF ar st sp(1) pdn(2) pdn(3)]
  from st have p4: "hasVirtualAddress s (pml4Of s)" by (simp add: structInv_def)
  have pt: "hasVirtualAddress ?s1 (ptOf ?s1 a)"
    by (rule writeLeaf_props(9)[OF sp(4) sp(5) sp(6)])
  have cl: "changeLeaf ?s1 (pdOf s a) a t rw f = Inr (STATUS_SUCCESS, writeLeaf ?s1 a t rw f)"
    using changeLeaf_writeLeaf[of ?s1 a t rw f] pt by (simp add: w)
  show ?thesis
  proof (cases "PdE2MB_isLargePage (pdeOf s a)")
    case False
    with cl p4 va show ?thesis by (simp add: EPT_changeMapping_walk splitOnly_def)
  next
    case True
    with room have lt: "noOfUsedSplits s < CONTEXT_EPT_NO_SPLITS" by simp
    then have "fst (splitPage s (pdOf s a) (Address_pdEntry a)) = STATUS_SUCCESS"
      by (simp add: splitPage_def Let_def flip: not_less)
    moreover from True have "snd (splitPage s (pdOf s a) (Address_pdEntry a)) = ?s1"
      by (simp add: splitOnly_def)
    ultimately have "splitPage s (pdOf s a) (Address_pdEntry a) = (STATUS_SUCCESS, ?s1)"
      by (metis prod.collapse)
    with cl p4 va True show ?thesis by (simp add: EPT_changeMapping_walk)
  qed
qed

text \<open>Every return of \<open>EPT_changeMapping\<close> with success has that form.\<close>

lemma EPT_changeMapping_success:
  assumes ar: "arenaInv s" and st: "structInv s"
    and res: "EPT_changeMapping s a t rw f = Inr (ntStatus, s')" and ok: "NT_SUCCESS ntStatus"
  shows "hasVirtualAddress s (pdptOf s a)" and "hasVirtualAddress s (pdOf s a)"
    and "PdE2MB_isLargePage (pdeOf s a) \<longrightarrow> noOfUsedSplits s < CONTEXT_EPT_NO_SPLITS"
    and "s' = writeLeaf (splitOnly s a) a t rw f"
proof -
  from res show va1: "hasVirtualAddress s (pdptOf s a)" and va2: "hasVirtualAddress s (pdOf s a)"
    by (auto simp: EPT_changeMapping_walk split: if_splits)
  show room: "PdE2MB_isLargePage (pdeOf s a) \<longrightarrow> noOfUsedSplits s < CONTEXT_EPT_NO_SPLITS"
  proof (rule impI, rule ccontr)
    assume l: "PdE2MB_isLargePage (pdeOf s a)" and "\<not> noOfUsedSplits s < CONTEXT_EPT_NO_SPLITS"
    then have "splitPage s (pdOf s a) (Address_pdEntry a) = (STATUS_UNSUCCESSFUL, s)"
      by (simp add: splitPage_def not_less)
    with res l va1 va2 have "ntStatus = STATUS_UNSUCCESSFUL"
      by (auto simp: EPT_changeMapping_walk split: if_splits)
    with ok show False by simp
  qed
  from EPT_changeMapping_wf[OF ar st va1 va2 room, of t rw f] res
  show "s' = writeLeaf (splitOnly s a) a t rw f" by simp
qed


section \<open>Properties of the mapping engine: the EPT leaf\<close>

subsection \<open>Fields the walk does not read\<close>

lemma walk_upd [simp]:
  "pml4Of (s\<lparr>changedMappings := m\<rparr>) = pml4Of s"
  "pdptOf (s\<lparr>changedMappings := m\<rparr>) a = pdptOf s a"
  "pdOf (s\<lparr>changedMappings := m\<rparr>) a = pdOf s a"
  "pdeOf (s\<lparr>changedMappings := m\<rparr>) a = pdeOf s a"
  "ptOf (s\<lparr>changedMappings := m\<rparr>) a = ptOf s a"
  "eptLeaf (s\<lparr>changedMappings := m\<rparr>) a = eptLeaf s a"
  "pml4Of (VMX_inveptAll s) = pml4Of s"
  "pdptOf (VMX_inveptAll s) a = pdptOf s a"
  "pdOf (VMX_inveptAll s) a = pdOf s a"
  "pdeOf (VMX_inveptAll s) a = pdeOf s a"
  "ptOf (VMX_inveptAll s) a = ptOf s a"
  "eptLeaf (VMX_inveptAll s) a = eptLeaf s a"
  by (simp_all add: pml4Of_def pdptOf_def pdOf_def pdeOf_def ptOf_def eptLeaf_def VMX_inveptAll_def)

lemma inv_upd [simp]:
  "arenaInv (s\<lparr>changedMappings := m\<rparr>) = arenaInv s"
  "structInv (s\<lparr>changedMappings := m\<rparr>) = structInv s"
  "installedAt (s\<lparr>changedMappings := m\<rparr>) a = installedAt s a"
  "arenaInv (VMX_inveptAll s) = arenaInv s"
  "structInv (VMX_inveptAll s) = structInv s"
  "installedAt (VMX_inveptAll s) a = installedAt s a"
  by (simp_all add: arenaInv_def structInv_def installedAt_def arena_def freeSlots_def)
     (simp_all add: VMX_inveptAll_def)

lemma VMX_inveptAll_fields [simp]:
  "changedMappings (VMX_inveptAll s) = changedMappings s"
  "physicalMemory (VMX_inveptAll s) = physicalMemory s"
  "noOfUsedSplits (VMX_inveptAll s) = noOfUsedSplits s"
  "eptp (VMX_inveptAll s) = eptp s"
  "hasVirtualAddress (VMX_inveptAll s) = hasVirtualAddress s"
  "splitBufferPhysical (VMX_inveptAll s) = splitBufferPhysical s"
  by (simp_all add: VMX_inveptAll_def)

subsection \<open>The invariant of a core is kept\<close>

lemma coreInv_D:
  assumes "coreInv s"
  shows "arenaInv s" "structInv s" "mappingsInv s" "tableInv (changedMappings s)"
  using assms by (simp_all add: coreInv_def)

lemma mappingsInv_D:
  "mappingsInv s \<Longrightarrow> i < CONTEXT_EPT_MAX_MAPPINGS \<Longrightarrow> valid (changedMappings s i) \<Longrightarrow>
     installedAt s (guestAddress (changedMappings s i))"
  by (simp add: mappingsInv_def)

lemma changed_props:
  assumes inv: "coreInv s"
    and res: "EPT_changeMapping s a t rw f = Inr (ntStatus, s')" and ok: "NT_SUCCESS ntStatus"
  shows "s' = writeLeaf (splitOnly s a) a t rw f"
    and "arenaInv s'" and "structInv s'" and "installedAt s' a"
    and "changedMappings s' = changedMappings s"
    and "\<And>b. installedAt s b \<Longrightarrow> installedAt s' b"
    and "eptLeaf s' a = Some (writePtE t rw f
           (physicalMemory (splitOnly s a) (ptOf (splitOnly s a) a) (Address_ptEntry a)))"
proof -
  note i = coreInv_D[OF inv]
  note su = EPT_changeMapping_success[OF i(1) i(2) res ok]
  note sp = splitOnly_props[OF i(1) i(2) su(1) su(2) su(3)]
  note wl = writeLeaf_props[OF sp(4) sp(5) sp(6)]
  show "s' = writeLeaf (splitOnly s a) a t rw f" by (rule su(4))
  show "arenaInv s'" "structInv s'" unfolding su(4) by (rule wl(5), rule wl(6))
  show "installedAt s' a" unfolding su(4) by (rule wl(7)[OF sp(6)])
  show "changedMappings s' = changedMappings s" unfolding su(4) by (simp add: wl(2) sp(2))
  show "installedAt s' b" if "installedAt s b" for b
    unfolding su(4) by (rule wl(7)[OF sp(7)[OF that]])
  show "eptLeaf s' a = Some (writePtE t rw f
           (physicalMemory (splitOnly s a) (ptOf (splitOnly s a) a) (Address_ptEntry a)))"
    unfolding su(4) by (rule wl(8))
qed

lemma EPT_changeMapping_coreInv:
  assumes inv: "coreInv s" and res: "EPT_changeMapping s a t rw f = Inr (ntStatus, s')"
  shows "coreInv s'"
proof (cases "NT_SUCCESS ntStatus")
  case False
  with EPT_changeMapping_fail[OF res] inv show ?thesis by simp
next
  case True
  note c = changed_props[OF inv res True]
  note i = coreInv_D[OF inv]
  have "mappingsInv s'"
    unfolding mappingsInv_def c(5)
    using i(3) c(6) by (auto simp: mappingsInv_def)
  with c(2) c(3) i(4) show ?thesis by (simp add: coreInv_def c(5))
qed

lemma down_up_status: "(ucast (scast (a :: 32 word) :: 64 word) :: 32 word) = a"
  by (rule bit_eqI) (auto simp: bit_simps)

lemma callFailed_status [simp]: "callFailed (r\<lparr>RAX := statusToRAX a\<rparr>) = (\<not> NT_SUCCESS a)"
  by (simp add: callFailed_def statusToRAX_def down_up_status)

lemma vmCallMapPage_success:
  assumes res: "vmCallMapPage s registers = Inr (registers', s')" and ok: "\<not> callFailed registers'"
  shows "\<exists>i s1. selectIndex (changedMappings s) = Some i \<and>
           \<not> mappingCollides (changedMappings s) (RDX registers) (R8 registers) (R9 registers) \<and>
           EPT_changeMapping s (RDX registers) (RDX registers) False False = Inr (STATUS_SUCCESS, s1) \<and>
           registers' = registers\<lparr>RAX := statusToRAX STATUS_SUCCESS\<rparr> \<and>
           s' = VMX_inveptAll (s1\<lparr>changedMappings := (changedMappings s1)
                  (i := \<lparr>guestAddress = RDX registers, hostRwAddress = R8 registers,
                         hostFetchAddress = R9 registers, valid = True\<rparr>)\<rparr>)"
proof -
  have st: "ntStatus = STATUS_SUCCESS"
    if "EPT_changeMapping s (RDX registers) (RDX registers) False False = Inr (ntStatus, s1)"
      "NT_SUCCESS ntStatus" for ntStatus s1
    using EPT_changeMapping_status[OF that(1)] that(2) by auto
  from res ok show ?thesis
    by (auto simp: vmCallMapPage_def split: if_splits option.splits sum.splits dest: st)
qed

lemma vmCallMapPage_failed:
  "vmCallMapPage s registers = Inr (registers', s') \<Longrightarrow> callFailed registers' \<Longrightarrow> s' = s"
  by (auto simp: vmCallMapPage_def split: if_splits option.splits sum.splits
      dest: EPT_changeMapping_fail)

lemma vmCallUnmapPage_failed:
  "vmCallUnmapPage s registers = Inr (registers', s') \<Longrightarrow> callFailed registers' \<Longrightarrow> s' = s"
  by (auto simp: vmCallUnmapPage_def split: if_splits option.splits sum.splits
      dest: EPT_changeMapping_fail)

lemma vmCallUnmapPage_success:
  assumes res: "vmCallUnmapPage s registers = Inr (registers', s')" and ok: "\<not> callFailed registers'"
  shows "\<exists>i s1. findMapping (changedMappings s) (RDX registers) = Some i \<and>
           EPT_changeMapping s (RDX registers) (RDX registers) True True = Inr (STATUS_SUCCESS, s1) \<and>
           registers' = registers\<lparr>RAX := statusToRAX STATUS_SUCCESS\<rparr> \<and>
           s' = VMX_inveptAll (s1\<lparr>changedMappings := (changedMappings s1)(i := zeroMapping)\<rparr>)"
proof -
  have st: "ntStatus = STATUS_SUCCESS"
    if "EPT_changeMapping s (RDX registers) (RDX registers) True True = Inr (ntStatus, s1)"
      "NT_SUCCESS ntStatus" for ntStatus s1
    using EPT_changeMapping_status[OF that(1)] that(2) by auto
  from res ok show ?thesis
    by (auto simp: vmCallUnmapPage_def split: if_splits option.splits sum.splits dest: st)
qed

lemma vmCallMapPage_coreInv:
  assumes inv: "coreInv s" and res: "vmCallMapPage s registers = Inr (registers', s')"
  shows "coreInv s'"
proof (cases "callFailed registers'")
  case True
  with vmCallMapPage_failed[OF res] inv show ?thesis by simp
next
  case False
  from vmCallMapPage_success[OF res False] obtain i s1 where
    sel: "selectIndex (changedMappings s) = Some i"
    and nc: "\<not> mappingCollides (changedMappings s) (RDX registers) (R8 registers) (R9 registers)"
    and cm: "EPT_changeMapping s (RDX registers) (RDX registers) False False = Inr (STATUS_SUCCESS, s1)"
    and s': "s' = VMX_inveptAll (s1\<lparr>changedMappings := (changedMappings s1)
                  (i := \<lparr>guestAddress = RDX registers, hostRwAddress = R8 registers,
                         hostFetchAddress = R9 registers, valid = True\<rparr>)\<rparr>)"
    by blast
  note c = changed_props[OF inv cm NT_SUCCESS_simps(1)]
  note iv = coreInv_D[OF inv]
  from sel have free: "\<not> valid (changedMappings s i)" by (simp add: selectIndex_Some)
  have t: "tableInv (changedMappings s')"
    unfolding s' using tableInv_install[OF iv(4) free nc] by (simp add: c(5))
  have m: "mappingsInv s'"
    unfolding s' mappingsInv_def
    using iv(3) c(6) c(4) by (auto simp: mappingsInv_def c(5))
  from c(2) c(3) t m show ?thesis by (simp add: coreInv_def s')
qed

lemma vmCallUnmapPage_coreInv:
  assumes inv: "coreInv s" and res: "vmCallUnmapPage s registers = Inr (registers', s')"
  shows "coreInv s'"
proof (cases "callFailed registers'")
  case True
  with vmCallUnmapPage_failed[OF res] inv show ?thesis by simp
next
  case False
  from vmCallUnmapPage_success[OF res False] obtain i s1 where
    cm: "EPT_changeMapping s (RDX registers) (RDX registers) True True = Inr (STATUS_SUCCESS, s1)"
    and s': "s' = VMX_inveptAll (s1\<lparr>changedMappings := (changedMappings s1)(i := zeroMapping)\<rparr>)"
    by blast
  note c = changed_props[OF inv cm NT_SUCCESS_simps(1)]
  note iv = coreInv_D[OF inv]
  have t: "tableInv (changedMappings s')"
    unfolding s' using tableInv_remove[OF iv(4)] by (simp add: c(5))
  have m: "mappingsInv s'"
    unfolding s' mappingsInv_def
    using iv(3) c(6) by (auto simp: mappingsInv_def c(5) zeroMapping_def)
  from c(2) c(3) t m show ?thesis by (simp add: coreInv_def s')
qed

lemma eptViolationHandler_coreInv:
  assumes inv: "coreInv s" and res: "eptViolationHandler s q gpa = Inr s'"
  shows "coreInv s'"
proof -
  have "coreInv (VMX_inveptAll s1)" if "EPT_changeMapping s a t rw f = Inr (ntStatus, s1)"
    for a t rw f ntStatus s1
    using EPT_changeMapping_coreInv[OF inv that]
    by (simp add: coreInv_def mappingsInv_def)
  with res show ?thesis
    by (auto simp: eptViolationHandler_def Let_def split: option.splits if_splits sum.splits)
qed

lemma coreStep_coreInv: "coreStep s s' \<Longrightarrow> coreInv s \<Longrightarrow> coreInv s'"
  by (auto elim!: coreStep.cases
      intro: vmCallMapPage_coreInv vmCallUnmapPage_coreInv eptViolationHandler_coreInv)

lemma reach_coreInv: "coreStep\<^sup>*\<^sup>* s s' \<Longrightarrow> coreInv s \<Longrightarrow> coreInv s'"
  by (induction rule: rtranclp_induct) (auto intro: coreStep_coreInv)

lemma pageAddressable_address: "pageAddressable p \<Longrightarrow> addressOfPfn4KB (getBits 12 40 p) = p"
proof -
  have tb: "take_bit 40 (getBits 12 52 p) = getBits 12 40 p"
    by (rule bit_eqI) (auto simp: bit_getBits bit_simps)
  assume "pageAddressable p"
  from pageAddressable_roundtrip[OF this] show ?thesis
    by (simp add: newPagingStructure_fields Address_pageFrameNumber4KB_def tb)
qed

lemma leafIs_writePtE: "leafIs (writePtE t rw f e) t rw rw f"
  by (simp add: leafIs_def writePtE_fields)

lemma findMapping_unique:
  assumes "tableInv m" "i < CONTEXT_EPT_MAX_MAPPINGS" "valid (m i)" "guestAddress (m i) = a"
  shows "findMapping m a = Some i"
proof -
  from assms have "\<forall>j<i. \<not> (valid (m j) \<and> guestAddress (m j) = a)"
    by (auto simp: tableInv_iff)
  with assms show ?thesis by (simp add: findMapping_Some)
qed

lemma hasMapping_iff:
  "hasMapping s g \<longleftrightarrow> (\<exists>i<CONTEXT_EPT_MAX_MAPPINGS. valid (changedMappings s i) \<and>
      guestAddress (changedMappings s i) = g)"
  by (simp add: hasMapping_def someSlot_iff)

text \<open>On a page with a valid record the walk finds a split page: no split, no failure.\<close>

lemma installed_change:
  assumes inv: "coreInv s" and ins: "installedAt s a"
  shows "EPT_changeMapping s a t rw f = Inr (STATUS_SUCCESS, writeLeaf s a t rw f)"
proof -
  note i = coreInv_D[OF inv]
  from ins have va: "hasVirtualAddress s (pdptOf s a)" "hasVirtualAddress s (pdOf s a)"
    and nl: "\<not> PdE2MB_isLargePage (pdeOf s a)" by (simp_all add: installedAt_def)
  from nl have so: "splitOnly s a = s" by (simp add: splitOnly_def)
  from EPT_changeMapping_wf[OF i(1) i(2) va, of t rw f] nl show ?thesis by (simp add: so)
qed


subsection \<open>The example core is well formed\<close>

lemma exampleSlots:
  "\<forall>p \<in> set (map exampleSplitBuffer [0..<32]).
      pageAddressable p \<and> p \<noteq> 0 \<and> p \<noteq> 0x1000 \<and> p \<noteq> 0x2000 \<and> p \<noteq> 0x3000 \<and> p \<noteq> 0x40000"
  by code_simp

lemma exampleSlots_distinct: "distinct (map exampleSplitBuffer [0..<32])"
  by code_simp

lemma exampleSlots_inj: "inj_on exampleSplitBuffer {k. k < 32}"
proof -
  have "{k. k < 32} = set [0..<32]" by auto
  with exampleSlots_distinct show ?thesis by (simp add: distinct_map)
qed

lemma example_arena: "arena exampleCore = set (map exampleSplitBuffer [0..<32])"
  by (auto simp: arena_def exampleCore_def unat_NO_SPLITS)

lemma example_hasVA:
  "hasVirtualAddress exampleCore p \<longleftrightarrow>
     p \<in> {0x1000, 0x2000, 0x3000} \<or> p \<in> set (map exampleSplitBuffer [0..<32])"
  by (simp add: exampleCore_def)

lemma example_entries:
  "addressOfPfn4KB (EptP_pageFrameNumber 0x101E) = 0x1000"
  "addressOfPfn4KB (PagingStructure_pageFrameNumber (newPagingStructure 2)) = 0x2000"
  "addressOfPfn4KB (PagingStructure_pageFrameNumber (newPagingStructure 3)) = 0x3000"
  "addressOfPfn4KB (PagingStructure_pageFrameNumber (newPagingStructure 0x40)) = 0x40000"
  "addressOfPfn4KB (PagingStructure_pageFrameNumber 0) = 0"
  by code_simp+

lemma example_pml4: "pml4Of exampleCore = 0x1000"
  by (simp add: pml4Of_def exampleCore_def example_entries)

lemma example_pdpt: "pdptOf exampleCore a = (if Address_pml4Entry a = 0 then 0x2000 else 0)"
  by (simp add: pdptOf_def example_pml4) (simp add: exampleCore_def exampleMemory_def example_entries)

lemma example_pd:
  "pdOf exampleCore a =
     (if Address_pml4Entry a = 0 \<and> Address_pdptEntry a = 0 then 0x3000 else 0)"
  by (simp add: pdOf_def example_pdpt) (simp add: exampleCore_def exampleMemory_def example_entries)

lemma example_large:
  "pdOf exampleCore a = 0x3000 \<Longrightarrow> PdE2MB_isLargePage (pdeOf exampleCore a)"
  by (simp add: pdeOf_def PdE2MB_isLargePage_def)
     (simp add: exampleCore_def exampleMemory_def getBits_setBits_other getBits_setBits_same)

lemma example_arenaInv: "arenaInv exampleCore"
  unfolding arenaInv_def unat_NO_SPLITS
  using exampleSlots exampleSlots_inj
  by (auto simp: example_hasVA) (simp_all add: exampleCore_def)

lemma example_table:
  "noValidMappings (changedMappings exampleCore)" "mappingsInv exampleCore"
  by (simp_all add: noValidMappings_def allSlots_iff mappingsInv_def exampleCore_def zeroMapping_def)

lemma exampleCore_inv: "coreInv exampleCore"
proof -
  have st: "structInv exampleCore"
    unfolding structInv_def example_arena example_pml4
    using exampleSlots example_large
    by (auto simp: example_hasVA example_pdpt example_pd split: if_splits)
  from example_table(1) have "tableInv (changedMappings exampleCore)" by (rule tableInv_empty)
  with example_arenaInv st example_table(2) show ?thesis by (simp add: coreInv_def)
qed

text \<open>
  So is the core whose first page table lies in the split buffer of another core.
\<close>

lemma foreign_fields:
  "eptp exampleForeign = eptp exampleCore"
  "splitBufferPhysical exampleForeign = splitBufferPhysical exampleCore"
  "noOfUsedSplits exampleForeign = noOfUsedSplits exampleCore"
  "changedMappings exampleForeign = changedMappings exampleCore"
  "hasVirtualAddress exampleForeign p \<longleftrightarrow> p = 0x40000 \<or> hasVirtualAddress exampleCore p"
  "physicalMemory exampleForeign = foreignMemory"
  by (simp_all add: exampleForeign_def)

lemma foreign_walk:
  "pml4Of exampleForeign = 0x1000"
  "pdptOf exampleForeign a = (if Address_pml4Entry a = 0 then 0x2000 else 0)"
  "pdOf exampleForeign a =
     (if Address_pml4Entry a = 0 \<and> Address_pdptEntry a = 0 then 0x3000 else 0)"
proof -
  have m: "foreignMemory 0x1000 = exampleMemory 0x1000" "foreignMemory 0x2000 = exampleMemory 0x2000"
    "foreignMemory 0 = exampleMemory 0"
    by (auto simp: foreignMemory_def)
  have e: "physicalMemory exampleCore = exampleMemory" by (simp add: exampleCore_def)
  show p4: "pml4Of exampleForeign = 0x1000"
    using example_pml4 by (simp add: pml4Of_def foreign_fields)
  have "pdptOf exampleForeign a = pdptOf exampleCore a" for a
    by (simp add: pdptOf_def p4 example_pml4 foreign_fields m e)
  then show p3: "pdptOf exampleForeign a = (if Address_pml4Entry a = 0 then 0x2000 else 0)" for a
    by (simp add: example_pdpt)
  have "foreignMemory (pdptOf exampleCore a) = exampleMemory (pdptOf exampleCore a)"
    by (simp add: example_pdpt m)
  then have "pdOf exampleForeign a = pdOf exampleCore a"
    unfolding pdOf_def p3 by (simp add: example_pdpt foreign_fields e)
  then show "pdOf exampleForeign a =
     (if Address_pml4Entry a = 0 \<and> Address_pdptEntry a = 0 then 0x3000 else 0)"
    by (simp add: example_pd)
qed

lemma foreign_pde:
  assumes "Address_pml4Entry a = 0" "Address_pdptEntry a = 0"
  shows "Address_pdEntry a \<noteq> 0 \<Longrightarrow> PdE2MB_isLargePage (pdeOf exampleForeign a)"
    and "Address_pdEntry a = 0 \<Longrightarrow> ptOf exampleForeign a = 0x40000"
proof -
  from assms have pd: "pdOf exampleForeign a = 0x3000" by (simp add: foreign_walk)
  show "PdE2MB_isLargePage (pdeOf exampleForeign a)" if "Address_pdEntry a \<noteq> 0"
    using that
    by (simp add: pdeOf_def pd PdE2MB_isLargePage_def foreign_fields foreignMemory_def)
       (simp add: exampleMemory_def getBits_setBits_other getBits_setBits_same)
  show "ptOf exampleForeign a = 0x40000" if "Address_pdEntry a = 0"
    using that
    by (simp add: ptOf_def pdeOf_def pd foreign_fields foreignMemory_def example_entries)
qed

lemma foreign_table:
  assumes "Address_pml4Entry a = 0" "Address_pdptEntry a = 0"
    and "\<not> PdE2MB_isLargePage (pdeOf exampleForeign a)"
  shows "ptOf exampleForeign a = 0x40000"
  using foreign_pde[OF assms(1,2)] assms(3) by blast

lemma exampleForeign_inv: "coreInv exampleForeign"
proof -
  have ae: "arena exampleForeign = arena exampleCore"
    by (rule arena_cong) (simp add: foreign_fields)
  have fe: "p \<in> freeSlots exampleForeign \<Longrightarrow> p \<in> set (map exampleSplitBuffer [0..<32])" for p
    using freeSlots_arena[of exampleForeign] by (auto simp: ae example_arena)
  have ar: "arenaInv exampleForeign"
    using example_arenaInv by (auto simp: arenaInv_def foreign_fields)
  have nf: "0x40000 \<notin> freeSlots exampleForeign"
    using fe[of "0x40000"] exampleSlots by auto
  have st: "structInv exampleForeign"
    unfolding structInv_def ae example_arena foreign_walk
    using exampleSlots nf
    by (auto simp: foreign_fields example_hasVA foreign_walk foreign_table split: if_splits)
  have "tableInv (changedMappings exampleForeign)"
    using example_table(1) by (simp add: foreign_fields tableInv_empty)
  moreover have "mappingsInv exampleForeign"
    by (simp add: mappingsInv_def foreign_fields) (simp add: exampleCore_def zeroMapping_def)
  ultimately show ?thesis using ar st by (simp add: coreInv_def)
qed

lemma exampleInstall_ok: "(case exampleInstall of Inr _ \<Rightarrow> True | Inl _ \<Rightarrow> False)"
  unfolding exampleInstall_def by code_simp

lemma exampleInstall_eq:
  "vmCallMapPage exampleCore (callRegisters 0x200000 0x201000 0x202000) =
     Inr (resultRegisters exampleInstall, resultState exampleInstall)"
  using result_eq[OF exampleInstall_ok] by (simp add: exampleInstall_def)

lemma exampleInstall_success: "\<not> callFailed (resultRegisters exampleInstall)"
  unfolding exampleInstall_def by code_simp

lemma exampleInstall_record:
  "changedMappings (resultState exampleInstall) 0 =
     \<lparr>guestAddress = 0x200000, hostRwAddress = 0x201000, hostFetchAddress = 0x202000, valid = True\<rparr>"
  unfolding exampleInstall_def by code_simp

lemma exampleInstall_inv: "coreInv (resultState exampleInstall)"
  by (rule vmCallMapPage_coreInv[OF exampleCore_inv exampleInstall_eq])

text \<open>
  Claim C5.  On a well-formed core a successful \<open>vmCallMapPage\<close> stores its record in
  the first invalid slot of the mapping table (every slot below it is valid, no other
  slot changes) and leaves the 4 KiB leaf of the guest page with the frame number of
  \<open>guestPhys\<close> and read, write and fetch all cleared; for a guest address below
  \<open>2^52\<close> the frame of the leaf is \<open>guestPhys\<close> itself.  When all
  \<open>CONTEXT_EPT_MAX_MAPPINGS\<close> (32) slots hold valid records, \<open>vmCallMapPage\<close> fails
  and leaves the state as it was.
\<close>

theorem install_stores_first_free:
  "(coreInv s \<and> vmCallMapPage s registers = Inr (registers', s') \<and> \<not> callFailed registers' \<longrightarrow>
      (\<exists>i<CONTEXT_EPT_MAX_MAPPINGS.
          \<not> valid (changedMappings s i) \<and> (\<forall>j<i. valid (changedMappings s j)) \<and>
          changedMappings s' = (changedMappings s)
            (i := \<lparr>guestAddress = RDX registers, hostRwAddress = R8 registers,
                   hostFetchAddress = R9 registers, valid = True\<rparr>)) \<and>
      (\<exists>e. eptLeaf s' (RDX registers) = Some e \<and> leafIs e (RDX registers) False False False \<and>
           (getBits 52 12 (RDX registers) = 0 \<longrightarrow>
              addressOfPfn4KB (PtE_pageFrameNumber e) = RDX registers))) \<and>
   ((\<forall>i<CONTEXT_EPT_MAX_MAPPINGS. valid (changedMappings s i)) \<longrightarrow>
      vmCallMapPage s registers = Inr (registers\<lparr>RAX := statusToRAX STATUS_UNSUCCESSFUL\<rparr>, s))"
proof (intro conjI impI)
  assume a: "coreInv s \<and> vmCallMapPage s registers = Inr (registers', s') \<and> \<not> callFailed registers'"
  then have inv: "coreInv s" and res: "vmCallMapPage s registers = Inr (registers', s')"
    and ok: "\<not> callFailed registers'" by simp_all
  from vmCallMapPage_success[OF res ok] obtain i s1 where
    sel: "selectIndex (changedMappings s) = Some i"
    and cm: "EPT_changeMapping s (RDX registers) (RDX registers) False False = Inr (STATUS_SUCCESS, s1)"
    and s': "s' = VMX_inveptAll (s1\<lparr>changedMappings := (changedMappings s1)
                  (i := \<lparr>guestAddress = RDX registers, hostRwAddress = R8 registers,
                         hostFetchAddress = R9 registers, valid = True\<rparr>)\<rparr>)"
    by blast
  note c = changed_props[OF inv cm NT_SUCCESS_simps(1)]
  from sel show "\<exists>i<CONTEXT_EPT_MAX_MAPPINGS.
          \<not> valid (changedMappings s i) \<and> (\<forall>j<i. valid (changedMappings s j)) \<and>
          changedMappings s' = (changedMappings s)
            (i := \<lparr>guestAddress = RDX registers, hostRwAddress = R8 registers,
                   hostFetchAddress = R9 registers, valid = True\<rparr>)"
    by (auto simp: selectIndex_Some s' c(5))
  from res ok have al: "Address_offset (RDX registers) = 0"
    by (auto simp: vmCallMapPage_def split: if_splits)
  have ad: "addressOfPfn4KB (getBits 12 40 (RDX registers)) = RDX registers"
    if "getBits 52 12 (RDX registers) = 0"
    using al that by (intro pageAddressable_address) (simp add: pageAddressable_def)
  show "\<exists>e. eptLeaf s' (RDX registers) = Some e \<and> leafIs e (RDX registers) False False False \<and>
           (getBits 52 12 (RDX registers) = 0 \<longrightarrow>
              addressOfPfn4KB (PtE_pageFrameNumber e) = RDX registers)"
    using c(7) leafIs_writePtE[of "RDX registers" False False] ad
    by (auto simp: s' writePtE_fields)
next
  assume "\<forall>i<CONTEXT_EPT_MAX_MAPPINGS. valid (changedMappings s i)"
  then have "selectIndex (changedMappings s) = None" by (simp add: selectIndex_None)
  then show "vmCallMapPage s registers = Inr (registers\<lparr>RAX := statusToRAX STATUS_UNSUCCESSFUL\<rparr>, s)"
    by (simp add: vmCallMapPage_def)
qed

theorem install_stores_first_free_witness:
  "(\<exists>e. eptLeaf (resultState exampleInstall) 0x200000 = Some e \<and>
        leafIs e 0x200000 False False False \<and> addressOfPfn4KB (PtE_pageFrameNumber e) = 0x200000) \<and>
   changedMappings (resultState exampleInstall) 0 =
     \<lparr>guestAddress = 0x200000, hostRwAddress = 0x201000, hostFetchAddress = 0x202000, valid = True\<rparr> \<and>
   vmCallMapPage exampleTableFull (callRegisters 0x200000 0x201000 0x202000) =
     Inr ((callRegisters 0x200000 0x201000 0x202000)\<lparr>RAX := statusToRAX STATUS_UNSUCCESSFUL\<rparr>,
          exampleTableFull)"
proof -
  have hi: "getBits 52 12 (RDX (callRegisters 0x200000 0x201000 0x202000)) = 0" by code_simp
  have rdx: "RDX (callRegisters 0x200000 0x201000 0x202000) = 0x200000" by (simp add: callRegisters_def)
  have full: "\<forall>i<CONTEXT_EPT_MAX_MAPPINGS. valid (changedMappings exampleTableFull i)"
    by (simp add: exampleTableFull_def)
  from install_stores_first_free[of exampleCore "callRegisters 0x200000 0x201000 0x202000"
      "resultRegisters exampleInstall" "resultState exampleInstall"]
    exampleCore_inv exampleInstall_eq exampleInstall_success hi
  have 1: "\<exists>e. eptLeaf (resultState exampleInstall) 0x200000 = Some e \<and>
        leafIs e 0x200000 False False False \<and> addressOfPfn4KB (PtE_pageFrameNumber e) = 0x200000"
    unfolding rdx by blast
  from install_stores_first_free[of exampleTableFull "callRegisters 0x200000 0x201000 0x202000"] full
  have 2: "vmCallMapPage exampleTableFull (callRegisters 0x200000 0x201000 0x202000) =
     Inr ((callRegisters 0x200000 0x201000 0x202000)\<lparr>RAX := statusToRAX STATUS_UNSUCCESSFUL\<rparr>,
          exampleTableFull)" by blast
  from 1 2 exampleInstall_record show ?thesis by blast
qed

text \<open>
  Claim C1.  On a well-formed core with a valid mapping record whose guest key is the
  page base of the faulting guest-physical address, \<open>eptViolationHandler\<close> returns to
  the guest; for a data read or a data write the 4 KiB leaf of that page then has the
  frame number of the record's rw-target with read and write set and fetch cleared, and
  for an instruction fetch (an exit qualification with the fetch bit and neither data
  bit, the data bits being tested first) it has the frame number of the record's
  fetch-target with read and write cleared and fetch set.  In both cases exactly one of
  read/write and fetch is permitted.
\<close>

theorem violation_flips_leaf:
  assumes inv: "coreInv s" and i: "i < CONTEXT_EPT_MAX_MAPPINGS"
    and v: "valid (changedMappings s i)"
    and key: "guestAddress (changedMappings s i) = pageBase guestPhysicalAddress"
  shows "(EptViolation_dataRead q \<or> EptViolation_dataWrite q \<longrightarrow>
            (\<exists>s' e. eptViolationHandler s q guestPhysicalAddress = Inr s' \<and>
                    eptLeaf s' (pageBase guestPhysicalAddress) = Some e \<and>
                    leafIs e (hostRwAddress (changedMappings s i)) True True False \<and>
                    exactlyOneKind e)) \<and>
         (\<not> EptViolation_dataRead q \<and> \<not> EptViolation_dataWrite q \<and>
          EptViolation_instructionFetch q \<longrightarrow>
            (\<exists>s' e. eptViolationHandler s q guestPhysicalAddress = Inr s' \<and>
                    eptLeaf s' (pageBase guestPhysicalAddress) = Some e \<and>
                    leafIs e (hostFetchAddress (changedMappings s i)) False False True \<and>
                    exactlyOneKind e))"
proof -
  let ?g = "pageBase guestPhysicalAddress"
  note iv = coreInv_D[OF inv]
  from findMapping_unique[OF iv(4) i v key]
  have fm: "findMapping (changedMappings s) (setBits 0 12 0 guestPhysicalAddress) = Some i"
    by (simp add: pageBase_def)
  from mappingsInv_D[OF iv(3) i v] key have ins: "installedAt s ?g" by simp
  note ch = installed_change[OF inv ins]
  note wl = writeLeaf_props[OF iv(1) iv(2) ins]
  have one: "exactlyOneKind (writePtE t True False e)" "exactlyOneKind (writePtE t False True e)" for t e
    by (simp_all add: exactlyOneKind_def writePtE_fields)
  show ?thesis
    using fm key ch wl(8) leafIs_writePtE one
    by (auto simp: eptViolationHandler_def Let_def)
qed

theorem violation_flips_leaf_witness:
  "(\<exists>s' e. eptViolationHandler (resultState exampleInstall) 1 0x200123 = Inr s' \<and>
           eptLeaf s' 0x200000 = Some e \<and> leafIs e 0x201000 True True False \<and>
           exactlyOneKind e) \<and>
   (\<exists>s' e. eptViolationHandler (resultState exampleInstall) 4 0x200123 = Inr s' \<and>
           eptLeaf s' 0x200000 = Some e \<and> leafIs e 0x202000 False False True \<and>
           exactlyOneKind e)"
proof -
  have i: "(0::nat) < CONTEXT_EPT_MAX_MAPPINGS" by (simp add: CONTEXT_EPT_MAX_MAPPINGS_def)
  have v: "valid (changedMappings (resultState exampleInstall) 0)"
    by (simp add: exampleInstall_record)
  have pb: "pageBase 0x200123 = 0x200000" by code_simp
  have key: "guestAddress (changedMappings (resultState exampleInstall) 0) = pageBase 0x200123"
    by (simp add: exampleInstall_record pb)
  have q1: "EptViolation_dataRead 1" by code_simp
  have q4: "\<not> EptViolation_dataRead 4 \<and> \<not> EptViolation_dataWrite 4 \<and> EptViolation_instructionFetch 4"
    by code_simp
  from violation_flips_leaf[OF exampleInstall_inv i v key, of 1] q1
  have 1: "\<exists>s' e. eptViolationHandler (resultState exampleInstall) 1 0x200123 = Inr s' \<and>
           eptLeaf s' 0x200000 = Some e \<and> leafIs e 0x201000 True True False \<and>
           exactlyOneKind e"
    by (simp add: pb exampleInstall_record)
  from violation_flips_leaf[OF exampleInstall_inv i v key, of 4] q4
  have 2: "\<exists>s' e. eptViolationHandler (resultState exampleInstall) 4 0x200123 = Inr s' \<and>
           eptLeaf s' 0x200000 = Some e \<and> leafIs e 0x202000 False False True \<and>
           exactlyOneKind e"
    by (simp add: pb exampleInstall_record)
  from 1 2 show ?thesis by blast
qed





text \<open>
  Claim C10.  After a successful install for the guest page \<open>g\<close> on a well-formed core
  a valid record for \<open>g\<close> exists, and in every state reached from there by installs,
  removes and EPT violations in which a valid record for \<open>g\<close> exists, the PD entry
  covering \<open>g\<close> is no 2 MiB leaf, every \<open>EPT_changeMapping\<close> for \<open>g\<close> returns
  \<open>STATUS_SUCCESS\<close> without using a slot of the split buffer, and every remove of \<open>g\<close>
  returns \<open>STATUS_SUCCESS\<close>: neither the failure branch after the restore in
  \<open>vmCallUnmapPage\<close> nor a failing status of the flip in \<open>eptViolationHandler\<close> can
  occur.
\<close>

theorem installed_page_stays_split:
  assumes inv: "coreInv s0"
    and ins: "vmCallMapPage s0 registers = Inr (registers', s1)" and ok: "\<not> callFailed registers'"
    and reach: "coreStep\<^sup>*\<^sup>* s1 s"
    and rec: "hasMapping s (RDX registers)"
  shows "hasMapping s1 (RDX registers) \<and>
         \<not> PdE2MB_isLargePage (pdeOf s (RDX registers)) \<and>
         (\<forall>targetAddress rw fetch.
            \<exists>s'. EPT_changeMapping s (RDX registers) targetAddress rw fetch = Inr (STATUS_SUCCESS, s') \<and>
                 noOfUsedSplits s' = noOfUsedSplits s) \<and>
         (\<forall>unmapRegisters. RDX unmapRegisters = RDX registers \<longrightarrow>
            (\<exists>s'. vmCallUnmapPage s unmapRegisters =
                     Inr (unmapRegisters\<lparr>RAX := statusToRAX STATUS_SUCCESS\<rparr>, s')))"
proof -
  let ?g = "RDX registers"
  from vmCallMapPage_success[OF ins ok] obtain i s1' where
    sel: "selectIndex (changedMappings s0) = Some i"
    and cm1: "EPT_changeMapping s0 ?g ?g False False = Inr (STATUS_SUCCESS, s1')"
    and s1: "s1 = VMX_inveptAll (s1'\<lparr>changedMappings := (changedMappings s1')
        (i := \<lparr>guestAddress = RDX registers, hostRwAddress = R8 registers,
               hostFetchAddress = R9 registers, valid = True\<rparr>)\<rparr>)"
    by blast
  from sel have "i < CONTEXT_EPT_MAX_MAPPINGS" by (simp add: selectIndex_Some)
  then have h1: "hasMapping s1 ?g"
    unfolding hasMapping_iff s1 by (auto intro!: exI[of _ i])
  have inv1: "coreInv s1" by (rule vmCallMapPage_coreInv[OF inv ins])
  have invs: "coreInv s" by (rule reach_coreInv[OF reach inv1])
  note iv = coreInv_D[OF invs]
  from rec obtain j where j: "j < CONTEXT_EPT_MAX_MAPPINGS" and v: "valid (changedMappings s j)"
    and key: "guestAddress (changedMappings s j) = ?g"
    unfolding hasMapping_iff by blast
  from mappingsInv_D[OF iv(3) j v] key have inst: "installedAt s ?g" by simp
  then have nl: "\<not> PdE2MB_isLargePage (pdeOf s ?g)" by (simp add: installedAt_def)
  note ch = installed_change[OF invs inst]
  note wl = writeLeaf_props[OF iv(1) iv(2) inst]
  have c2: "\<exists>s'. EPT_changeMapping s ?g t rw f = Inr (STATUS_SUCCESS, s') \<and>
                 noOfUsedSplits s' = noOfUsedSplits s" for t rw f
    using ch[of t rw f] wl(4)[of t rw f] by blast
  have c3: "\<exists>s'. vmCallUnmapPage s ur = Inr (ur\<lparr>RAX := statusToRAX STATUS_SUCCESS\<rparr>, s')"
    if "RDX ur = ?g" for ur
  proof -
    from findMapping_unique[OF iv(4) j v key] that
    have "findMapping (changedMappings s) (RDX ur) = Some j" by simp
    with ch[of ?g True True] that show ?thesis
      by (simp add: vmCallUnmapPage_def)
  qed
  from h1 nl c2 c3 show ?thesis by blast
qed

theorem installed_page_stays_split_witness:
  "\<not> PdE2MB_isLargePage (pdeOf (resultCore exampleViolation) 0x200000) \<and>
   (\<exists>s'. EPT_changeMapping (resultCore exampleViolation) 0x200000 0x202000 False True =
            Inr (STATUS_SUCCESS, s') \<and>
          noOfUsedSplits s' = noOfUsedSplits (resultCore exampleViolation)) \<and>
   (\<exists>s'. vmCallUnmapPage (resultCore exampleViolation) (callRegisters 0x200000 0 0) =
            Inr ((callRegisters 0x200000 0 0)\<lparr>RAX := statusToRAX STATUS_SUCCESS\<rparr>, s'))"
proof -
  have rdx: "RDX (callRegisters 0x200000 0x201000 0x202000) = 0x200000"
    "RDX (callRegisters 0x200000 0 0) = 0x200000"
    by (simp_all add: callRegisters_def)
  have "case exampleViolation of Inr s \<Rightarrow> hasMapping s 0x200000 | Inl _ \<Rightarrow> False"
    unfolding exampleViolation_def exampleInstall_def by code_simp
  then have ev: "eptViolationHandler (resultState exampleInstall) 1 0x200123 =
                   Inr (resultCore exampleViolation)"
    and hm: "hasMapping (resultCore exampleViolation) (RDX (callRegisters 0x200000 0x201000 0x202000))"
    unfolding rdx by (auto simp: resultCore_def exampleViolation_def split: sum.splits)
  from ev have "coreStep (resultState exampleInstall) (resultCore exampleViolation)"
    by (rule coreStep.violation)
  then have reach: "coreStep\<^sup>*\<^sup>* (resultState exampleInstall) (resultCore exampleViolation)"
    by (rule r_into_rtranclp)
  from installed_page_stays_split[OF exampleCore_inv exampleInstall_eq exampleInstall_success reach hm]
  show ?thesis unfolding rdx using rdx(2) by blast
qed

end
